(* ===== verification/Urt_Prelude.thy ===== *)
theory Urt_Prelude
  imports Main "HOL-Library.Word" "HOL-Library.Monad_Syntax" "HOL-Library.Signed_Division"
begin

text \<open>
  Shared vocabulary of the development: the machine types of the C sources, the error
  numbers of \<^verbatim>\<open>errno.h\<close>, C strings as character lists read through \<open>c_at\<close>, the
  counted \<^verbatim>\<open>for\<close> loop with \<^verbatim>\<open>break\<close> that the registry uses everywhere, and the lemma
  collections the component theories extend.
\<close>

section \<open>Lemma collections\<close>

named_theorems urt_split \<open>case-split and unfolding rules of the result-passing style\<close>
named_theorems inv_intro \<open>every operation that keeps the registry invariant\<close>
named_theorems frame \<open>what an operation leaves untouched\<close>

section \<open>Machine types and error numbers\<close>

text \<open>\<^verbatim>\<open>unsigned int\<close> and \<^verbatim>\<open>size_t\<close> of the LP64 targets; addition wraps.\<close>

type_synonym u32 = "32 word"
type_synonym u64 = "64 word"

text \<open>
  Error numbers are the \<^verbatim>\<open>int\<close> values of \<^verbatim>\<open>errno.h\<close> on Linux. The sources rely on their
  being positive and pairwise distinct, which is then a matter of computation.
\<close>

abbreviation (input) ENOENT :: int where "ENOENT \<equiv> 2"
abbreviation (input) EINTR :: int where "EINTR \<equiv> 4"
abbreviation (input) E2BIG :: int where "E2BIG \<equiv> 7"
abbreviation (input) EAGAIN :: int where "EAGAIN \<equiv> 11"
abbreviation (input) ENOMEM :: int where "ENOMEM \<equiv> 12"
abbreviation (input) EBUSY :: int where "EBUSY \<equiv> 16"
abbreviation (input) EEXIST :: int where "EEXIST \<equiv> 17"
abbreviation (input) EINVAL :: int where "EINVAL \<equiv> 22"
abbreviation (input) ENOSPC :: int where "ENOSPC \<equiv> 28"
abbreviation (input) ERANGE :: int where "ERANGE \<equiv> 34"
abbreviation (input) EDEADLK :: int where "EDEADLK \<equiv> 35"
abbreviation (input) ENOTSUP :: int where "ENOTSUP \<equiv> 95"
abbreviation (input) ETIMEDOUT :: int where "ETIMEDOUT \<equiv> 110"
abbreviation (input) EALREADY :: int where "EALREADY \<equiv> 114"
abbreviation (input) ECANCELED :: int where "ECANCELED \<equiv> 125"

section \<open>C strings\<close>

text \<open>
  A character buffer is a list. Reading at an index inside the list gives the stored
  character; the position after the last one holds the terminating NUL, so a list without
  NUL stands for the C string with that contents.
\<close>

abbreviation NUL :: char where "NUL \<equiv> CHR 0x00"

definition c_at :: "string \<Rightarrow> nat \<Rightarrow> char" where
  "c_at s i = (if i < length s then s ! i else NUL)"

text \<open>The contents of a C string: what stands before the first NUL.\<close>

definition cstr :: "string \<Rightarrow> string" where
  "cstr s = takeWhile (\<lambda>c. c \<noteq> NUL) s"

section \<open>The counted loop with break\<close>

text \<open>
  \<^verbatim>\<open>for (i = a; i < n; ++i) if (P(i)) break;\<close> leaves in \<open>i\<close> the first index of
  \<open>{a..<n}\<close> at which \<open>P\<close> holds, and \<open>n\<close> (or \<open>a\<close> if already beyond) when there is none.
\<close>

function for_break :: "(nat \<Rightarrow> bool) \<Rightarrow> nat \<Rightarrow> nat \<Rightarrow> nat" where
  "for_break P i n = (if n \<le> i then i else if P i then i else for_break P (Suc i) n)"
  by pat_completeness auto
termination
  by (relation "measure (\<lambda>(P, i, n). n - i)") auto

declare for_break.simps [simp del]

lemma c_at_nth [simp]: "i < length s \<Longrightarrow> c_at s i = s ! i"
  by (simp add: c_at_def)

lemma c_at_beyond [simp]: "length s \<le> i \<Longrightarrow> c_at s i = NUL"
  by (simp add: c_at_def)

lemma cstr_no_NUL: "c \<in> set (cstr s) \<Longrightarrow> c \<noteq> NUL"
  by (auto simp: cstr_def dest: set_takeWhileD)

lemma cstr_id: "NUL \<notin> set s \<Longrightarrow> cstr s = s"
  unfolding cstr_def by (rule takeWhile_eq_all_conv [THEN iffD2]) blast

lemma cstr_length_le: "length (cstr s) \<le> length s"
  by (simp add: cstr_def length_takeWhile_le)

lemma cstr_nth: "i < length (cstr s) \<Longrightarrow> cstr s ! i = c_at s i"
  using cstr_length_le [of s] by (simp add: cstr_def takeWhile_nth)

lemma c_at_cstr_end: "c_at s (length (cstr s)) = NUL"
proof (cases "length (cstr s) < length s")
  case True
  from nth_length_takeWhile [OF True [unfolded cstr_def]] have "s ! length (cstr s) = NUL"
    by (simp add: cstr_def)
  with True show ?thesis by simp
next
  case False
  then show ?thesis by simp
qed

lemma c_at_before_end: "i < length (cstr s) \<Longrightarrow> c_at s i \<noteq> NUL"
  by (metis cstr_no_NUL cstr_nth nth_mem)

lemma cstr_append_NUL: "NUL \<notin> set s \<Longrightarrow> cstr (s @ NUL # r) = s"
  unfolding cstr_def by (subst takeWhile_append2) auto

lemma for_break_ge: "i \<le> for_break P i n"
  by (induction P i n rule: for_break.induct)
     (subst for_break.simps, auto)

lemma for_break_le: "i \<le> n \<Longrightarrow> for_break P i n \<le> n"
proof (induction P i n rule: for_break.induct)
  case (1 P i n)
  then show ?case by (subst for_break.simps) auto
qed

lemma for_break_hit: "for_break P i n < n \<Longrightarrow> P (for_break P i n)"
proof (induction P i n rule: for_break.induct)
  case (1 P i n)
  then show ?case by (simp add: for_break.simps [of P i n] split: if_splits)
qed

lemma for_break_before: "i \<le> j \<Longrightarrow> j < for_break P i n \<Longrightarrow> \<not> P j"
proof (induction P i n rule: for_break.induct)
  case (1 P i n)
  show ?case
  proof (cases "n \<le> i \<or> P i")
    case True
    then have "for_break P i n = i" by (auto simp: for_break.simps [of P i n])
    with "1.prems" show ?thesis by simp
  next
    case False
    with "1.prems" have "j < for_break P (Suc i) n"
      by (simp add: for_break.simps [of P i n])
    with False "1.IH" "1.prems"(1) show ?thesis
      by (cases "j = i") auto
  qed
qed

lemma for_break_unique:
  assumes "a \<le> i" and "i < n" and "P i" and "\<And>j. a \<le> j \<Longrightarrow> j < i \<Longrightarrow> \<not> P j"
  shows "for_break P a n = i"
proof (rule ccontr)
  let ?k = "for_break P a n"
  assume "?k \<noteq> i"
  moreover have "\<not> i < ?k" using for_break_before [of a i P n] assms by blast
  ultimately have "?k < i" by simp
  with assms(2) have "P ?k" by (simp add: for_break_hit)
  with \<open>?k < i\<close> assms(4) [of ?k] for_break_ge [of a P n] show False by blast
qed

lemma for_break_none:
  assumes "a \<le> n" and "\<And>j. a \<le> j \<Longrightarrow> j < n \<Longrightarrow> \<not> P j"
  shows "for_break P a n = n"
  using for_break_hit [of P a n] for_break_le [OF assms(1), of P] for_break_ge [of a P n] assms(2)
  by (metis le_neq_implies_less)

lemma for_break_cong:
  assumes "\<And>j. a \<le> j \<Longrightarrow> j < n \<Longrightarrow> P j = Q j"
  shows "for_break P a n = for_break Q a n"
  using assms
proof (induction P a n rule: for_break.induct)
  case (1 P i n)
  then show ?case by (simp add: for_break.simps [of P i n] for_break.simps [of Q i n])
qed

lemmas for_break_rules = for_break_ge for_break_le for_break_hit for_break_before

section \<open>Counters\<close>

lemma u32_gt_0 [simp]: "(0 < (c :: u32)) = (c \<noteq> 0)"
  by (rule word_neq_0_conv [symmetric])

lemma unat_dec: "(c :: u32) \<noteq> 0 \<Longrightarrow> unat (c - 1) < unat c"
  by (metis diff_less unat_gt_0 unat_minus_one u32_gt_0 zero_less_one)

lemma u32_max_unat: "unat (-1 :: u32) = 2 ^ 32 - 1"
  by (simp add: unsigned_minus_1_eq_mask mask_eq_exp_minus_1)

lemma u32_max: "unat (c :: u32) = 2 ^ 32 - 1 \<Longrightarrow> c = -1"
  using u32_max_unat by (metis word_unat_eq_iff)

lemma unat_u32_of_nat: "n < 2 ^ 32 \<Longrightarrow> unat (of_nat n :: u32) = n"
  by (simp add: unsigned_of_nat take_bit_nat_eq_self)

lemma u64_bound: "unat (a :: u64) < 2 ^ 64"
  using unsigned_less [of a, where ?'a = nat] by simp

lemma unat_u64_plus: "unat (a :: u64) + unat b < 2 ^ 64 \<Longrightarrow> unat (a + b) = unat a + unat b"
  by (simp add: unat_word_ariths)

lemma u32_inc_nonzero: "(c :: u32) \<noteq> -1 \<Longrightarrow> c + 1 \<noteq> 0"
  by (simp add: eq_neg_iff_add_eq_0 [symmetric])

lemma mod_shift_inject:
  fixes a b v m :: nat
  assumes "(v + a) mod m = (v + b) mod m" and "a < m" and "b < m"
  shows "a = b"
proof -
  have *: "x = y" if "x \<le> y" "y < m" "(v + y) mod m = (v + x) mod m" for x y :: nat
  proof -
    from that have "m dvd (v + y) - (v + x)" by (subst mod_eq_dvd_iff_nat [symmetric]) auto
    then have "m dvd y - x" by simp
    with that show ?thesis by (auto dest: dvd_imp_le)
  qed
  show ?thesis using * [of a b] * [of b a] assms by (cases "a \<le> b") auto
qed

section \<open>Conversions between integer types\<close>

text \<open>A 64-bit value survives the conversion to a narrower type exactly when it is in its range.\<close>

lemma u64_ucast_eq:
  fixes t :: u64
  shows "ucast (ucast t :: 8 word) = t \<longleftrightarrow> uint t < 2 ^ 8"
    "ucast (ucast t :: 16 word) = t \<longleftrightarrow> uint t < 2 ^ 16"
    "ucast (ucast t :: 32 word) = t \<longleftrightarrow> uint t < 2 ^ 32"
  by (simp_all add: word_uint_eq_iff unsigned_ucast_eq unsigned_take_bit_eq take_bit_int_eq_self_iff)

lemma u64_scast_eq:
  fixes t :: u64
  shows "scast (ucast t :: 16 word) = t \<longleftrightarrow> - (2 ^ 15) \<le> sint t \<and> sint t < 2 ^ 15"
    "scast (ucast t :: 32 word) = t \<longleftrightarrow> - (2 ^ 31) \<le> sint t \<and> sint t < 2 ^ 31"
proof -
  have eq: "a = b \<longleftrightarrow> sint a = sint b" for a b :: u64 by (metis signed_word_eqI)
  have st: "sint (signed_take_bit n t) = signed_take_bit n (sint t)" if "n < 63" for n
    using that by (intro bit_eqI) (auto simp: bit_simps min_def)
  show "scast (ucast t :: 16 word) = t \<longleftrightarrow> - (2 ^ 15) \<le> sint t \<and> sint t < 2 ^ 15"
    "scast (ucast t :: 32 word) = t \<longleftrightarrow> - (2 ^ 31) \<le> sint t \<and> sint t < 2 ^ 31"
    unfolding eq by (simp_all add: signed_scast_eq signed_ucast_eq st signed_take_bit_int_eq_self_iff)
qed

lemma sint_u64_of_int: "- (2 ^ 63) \<le> n \<Longrightarrow> n < 2 ^ 63 \<Longrightarrow> sint (of_int n :: u64) = n"
  by (simp add: signed_of_int signed_take_bit_int_eq_self_iff)

lemma sint_u32_of_int: "- (2 ^ 31) \<le> n \<Longrightarrow> n < 2 ^ 31 \<Longrightarrow> sint (of_int n :: u32) = n"
  by (simp add: signed_of_int signed_take_bit_int_eq_self_iff)

lemma uint_u64_of_int: "0 \<le> n \<Longrightarrow> n < 2 ^ 64 \<Longrightarrow> uint (of_int n :: u64) = n"
  by (simp add: unsigned_of_int take_bit_int_eq_self_iff)

section \<open>Results\<close>

text \<open>Reading a successful result off an evaluated run.\<close>

lemma run_success:
  assumes "case x of Some (Inr p, w) \<Rightarrow> P p w | _ \<Rightarrow> False"
  obtains p w where "x = Some (Inr p, w)" and "P p w"
proof (cases x)
  case (Some a)
  obtain r w where a: "a = (r, w)" by (cases a)
  with Some assms that show ?thesis by (cases r) auto
qed (use assms in simp)

lemma run_failure:
  assumes "case x of Some (Inl e, w) \<Rightarrow> P e w | _ \<Rightarrow> False"
  obtains e w where "x = Some (Inl e, w)" and "P e w"
proof (cases x)
  case (Some a)
  obtain r w where a: "a = (r, w)" by (cases a)
  with Some assms that show ?thesis by (cases r) auto
qed (use assms in simp)

section \<open>Lists\<close>

lemma nth_list_update_if: "i < length xs \<Longrightarrow> xs[i := v] ! j = (if i = j then v else xs ! j)"
  by simp

lemma takeWhile_take_eq:
  "takeWhile P (take n xs) = take n (takeWhile P xs)"
  by (induction xs arbitrary: n) (auto simp: take_Cons split: nat.splits)

end
