(* ===== verification/Urt_Names.thy ===== *)
theory Urt_Names
  imports Urt_Prelude "HOL-Library.Char_ord"
begin

text \<open>
  Object names: comparison and copy of registry names (\<^verbatim>\<open>_name_eq\<close>, \<^verbatim>\<open>_name_cpy\<close> of
  \<^verbatim>\<open>src/registry.c\<close>), the translation of a name to a POSIX object name
  (\<^verbatim>\<open>urt_convert_name\<close> of \<^verbatim>\<open>sys/posix/src/names.c\<close>) and the counter of generated names
  (\<^verbatim>\<open>_increment_name\<close>). The lemmas reduce all four to a canonical form \<open>cname\<close> of a name
  and to base-37 arithmetic.
\<close>

section \<open>Definitions\<close>

definition URT_NAME_LEN :: nat where
  [simp]: "URT_NAME_LEN = 6"

definition URT_SYS_NAME_LEN :: nat where
  [simp]: "URT_SYS_NAME_LEN = URT_NAME_LEN + 2"

text \<open>
  \<^verbatim>\<open>_name_eq\<close>: the loop counts the equal, non-NUL leading characters of the two strings,
  \<^verbatim>\<open>URT_NAME_LEN\<close> at most; the test after the loop looks at the characters it stopped at.
\<close>

definition name_eq :: "string \<Rightarrow> string \<Rightarrow> bool" where
  "name_eq n1 n2 =
     (let len = for_break (\<lambda>k. \<not> (c_at n1 k \<noteq> NUL \<and> c_at n1 k = c_at n2 k)) 0 URT_NAME_LEN
      in len \<ge> URT_NAME_LEN \<or> (c_at n1 len = NUL \<and> c_at n2 len = NUL))"

text \<open>\<^verbatim>\<open>_name_cpy\<close>: \<open>i\<close> is the loop variable, \<open>to\<close> the destination array.\<close>

function name_cpy_from :: "nat \<Rightarrow> string \<Rightarrow> string \<Rightarrow> string" where
  "name_cpy_from i to src =
     (if i < URT_NAME_LEN \<and> c_at src i \<noteq> NUL
      then name_cpy_from (Suc i) (to[i := c_at src i]) src
      else to[i := NUL])"
  by pat_completeness auto
termination
  by (relation "measure (\<lambda>(i, to, src). URT_NAME_LEN - i)") auto

declare name_cpy_from.simps [simp del]

definition name_cpy :: "string \<Rightarrow> string \<Rightarrow> string" where
  "name_cpy to src = name_cpy_from 0 to src"

text \<open>
  The characters \<^verbatim>\<open>urt_convert_name\<close> keeps as they are; characters compare by their codes.
\<close>

definition sys_char :: "char \<Rightarrow> bool" where
  "sys_char c \<longleftrightarrow> (CHR ''A'' \<le> c \<and> c \<le> CHR ''Z'') \<or> (CHR ''0'' \<le> c \<and> c \<le> CHR ''9'')
     \<or> c = CHR ''_'' \<or> c = CHR ''$''"

text \<open>
  \<^verbatim>\<open>urt_convert_name\<close>: the loop over the characters of \<open>src\<close>, returning the index at
  which it stopped and the buffer; then the test for an empty name and the terminator.
\<close>

function convert_from :: "nat \<Rightarrow> string \<Rightarrow> string \<Rightarrow> nat \<times> string" where
  "convert_from i to src =
     (if \<not> i < URT_NAME_LEN then (i, to)
      else if CHR ''a'' \<le> c_at src i \<and> c_at src i \<le> CHR ''z''
      then convert_from (Suc i)
             (to[i + 1 := char_of (of_char (c_at src i) - of_char CHR ''a'' + of_char CHR ''A'' :: nat)]) src
      else if \<not> sys_char (c_at src i) then (i, to)
      else convert_from (Suc i) (to[i + 1 := c_at src i]) src)"
  by pat_completeness auto
termination
  by (relation "measure (\<lambda>(i, to, src). URT_NAME_LEN - i)") auto

declare convert_from.simps [simp del]

definition urt_convert_name :: "string \<Rightarrow> string \<Rightarrow> int \<times> string" where
  "urt_convert_name to src =
     (let (i, to') = convert_from 0 (to[0 := CHR ''/'']) src
      in if i = 0 then (EINVAL, to') else (0, to'[i + 1 := NUL]))"

text \<open>
  \<^verbatim>\<open>_increment_name\<close>. \<open>next_digit\<close> is the body of the loop: the new digit and whether the
  carry stops there, \<open>None\<close> for a character outside \<^verbatim>\<open>[_0-9A-Z]\<close>. The loop runs the index
  from \<^verbatim>\<open>URT_NAME_LEN - 2\<close> down to 0; \<open>increment_from (Suc i)\<close> is the iteration at index
  \<open>i\<close>, \<open>increment_from 0\<close> the loop exit with \<open>i < 0\<close>.
\<close>

definition succ_char :: "char \<Rightarrow> char" where
  "succ_char c = char_of ((of_char c :: nat) + 1)"

definition next_digit :: "char \<Rightarrow> (char \<times> bool) option" where
  "next_digit digit =
     (if digit = CHR ''_'' then Some (CHR ''0'', True)
      else if digit \<ge> CHR ''0'' \<and> digit < CHR ''9'' then Some (succ_char digit, True)
      else if digit = CHR ''9'' then Some (CHR ''A'', True)
      else if digit \<ge> CHR ''A'' \<and> digit < CHR ''Z'' then Some (succ_char digit, True)
      else if digit = CHR ''Z'' then Some (CHR ''_'', False)
      else None)"

fun reset_from :: "nat \<Rightarrow> string \<Rightarrow> string" where
  "reset_from 0 name = name[URT_NAME_LEN - 1 := CHR ''$'']"
| "reset_from (Suc k) name = reset_from k (name[URT_NAME_LEN - 1 - Suc k := CHR ''_''])"

definition reset_name :: "string \<Rightarrow> string" where
  "reset_name name = reset_from (URT_NAME_LEN - 1) name"

fun increment_from :: "nat \<Rightarrow> string \<Rightarrow> int \<times> string" where
  "increment_from 0 name = (1, reset_name name)"
| "increment_from (Suc i) name =
     (case next_digit (c_at name i) of
        None \<Rightarrow> (-1, reset_name name)
      | Some (digit, finished) \<Rightarrow>
          (let name' = name[i := digit]
           in if finished then (0, name') else increment_from i name'))"

definition increment_name :: "string \<Rightarrow> int \<times> string" where
  "increment_name name = increment_from (URT_NAME_LEN - 1) name"

text \<open>
  The specification side: the canonical form of a name (what the registry keeps of it), the
  value of a digit and of a generated name, and the shape of a generated name.
\<close>

definition cname :: "string \<Rightarrow> string" where
  "cname s = take URT_NAME_LEN (cstr s)"

definition digit_chars :: string where
  "digit_chars = ''_0123456789ABCDEFGHIJKLMNOPQRSTUVWXYZ''"

definition digit_val :: "char \<Rightarrow> nat" where
  "digit_val c = for_break (\<lambda>i. digit_chars ! i = c) 0 (length digit_chars)"

fun name_val :: "nat \<Rightarrow> string \<Rightarrow> nat" where
  "name_val 0 name = 0"
| "name_val (Suc k) name = 37 * name_val k name + digit_val (name ! k)"

definition gen_name :: "string \<Rightarrow> bool" where
  "gen_name name \<longleftrightarrow> length name = 7 \<and> (\<forall>i<5. name ! i \<in> set digit_chars)
     \<and> name ! 5 = CHR ''$'' \<and> name ! 6 = NUL"

text \<open>What \<^verbatim>\<open>urt_convert_name\<close> computes: the longest valid prefix, letters capitalised.\<close>

definition upcase :: "char \<Rightarrow> char" where
  "upcase c = (if CHR ''a'' \<le> c \<and> c \<le> CHR ''z''
     then char_of (of_char c - of_char CHR ''a'' + of_char CHR ''A'' :: nat) else c)"

definition user_char :: "char \<Rightarrow> bool" where
  "user_char c \<longleftrightarrow> (CHR ''a'' \<le> c \<and> c \<le> CHR ''z'') \<or> sys_char c"

definition sys_name :: "string \<Rightarrow> string" where
  "sys_name s = CHR ''/'' # map upcase (takeWhile user_char (cname s))"

section \<open>Comparison and copy\<close>

lemma cname_length: "length (cname s) \<le> 6"
  by (simp add: cname_def)

lemma cname_no_NUL: "NUL \<notin> set (cname s)"
  by (auto simp: cname_def dest: in_set_takeD cstr_no_NUL)

lemma cname_nth: "i < length (cname s) \<Longrightarrow> cname s ! i = c_at s i"
  by (simp add: cname_def cstr_nth)

lemma c_at_cname: "i < 6 \<Longrightarrow> c_at (cname s) i = (if i < length (cstr s) then c_at s i else NUL)"
  by (simp add: c_at_def cname_def cstr_nth)

lemma length_cstr_ge: "\<forall>j<k. c_at s j \<noteq> NUL \<Longrightarrow> k \<le> length (cstr s)"
  using c_at_cstr_end [of s] leI by blast

lemma c_at_cname_eq: "k < 6 \<Longrightarrow> \<forall>j<k. c_at s j \<noteq> NUL \<Longrightarrow> c_at (cname s) k = c_at s k"
  using length_cstr_ge [of k s] c_at_cstr_end [of s] by (cases "k = length (cstr s)") (auto simp: c_at_cname)

lemma cname_end: "length (cname s) < 6 \<Longrightarrow> c_at s (length (cname s)) = NUL"
  by (simp add: cname_def c_at_cstr_end min_def split: if_splits)

lemma cname_idem [simp]: "cname (cname s) = cname s"
  using cname_no_NUL [of s] cname_length [of s]
  by (simp add: cname_def [of "cname s"] cstr_id)

text \<open>The first six characters decide: what stands behind them is not read.\<close>

lemma cname_eqI:
  assumes "\<And>i. i < 6 \<Longrightarrow> \<forall>j<i. c_at a j \<noteq> NUL \<Longrightarrow> c_at a i = c_at b i"
  shows "cname a = cname b"
proof -
  let ?n = "length (cname a)"
  have nz: "\<forall>j<?n. c_at a j \<noteq> NUL"
    by (simp add: cname_def c_at_before_end)
  have agree: "c_at a i = c_at b i" if "i \<le> ?n" "i < 6" for i
    using that nz by (intro assms) auto
  have nzb: "\<forall>j<?n. c_at b j \<noteq> NUL"
    using nz agree cname_length [of a] by (metis less_imp_le order_less_le_trans)
  have len: "length (cname b) = ?n"
  proof (cases "?n < 6")
    case True
    with agree [of ?n] cname_end [OF True] have "c_at b ?n = NUL" by simp
    then have "length (cstr b) \<le> ?n" using c_at_before_end [of ?n b] leI by blast
    with length_cstr_ge [OF nzb] True show ?thesis by (simp add: cname_def)
  next
    case False
    with cname_length [of a] length_cstr_ge [OF nzb] show ?thesis by (simp add: cname_def)
  qed
  show ?thesis
    using len agree cname_length [of a] by (intro nth_equalityI) (auto simp: cname_nth)
qed

lemma name_eq_cname: "name_eq n1 n2 \<longleftrightarrow> cname n1 = cname n2"
proof -
  define P where "P = (\<lambda>k. \<not> (c_at n1 k \<noteq> NUL \<and> c_at n1 k = c_at n2 k))"
  define len where "len = for_break P 0 6"
  have before: "c_at n1 j \<noteq> NUL \<and> c_at n1 j = c_at n2 j" if "j < len" for j
    using for_break_before [of 0 j P 6] that by (auto simp: len_def P_def)
  have eq: "name_eq n1 n2 \<longleftrightarrow> 6 \<le> len \<or> c_at n1 len = NUL \<and> c_at n2 len = NUL"
    by (simp add: name_eq_def Let_def len_def P_def)
  show ?thesis
  proof (cases "len < 6")
    case True
    then have stop: "P len" unfolding len_def by (rule for_break_hit)
    have nz: "\<forall>j<len. c_at n1 j \<noteq> NUL" "\<forall>j<len. c_at n2 j \<noteq> NUL"
      using before by fastforce+
    note c_at_cname_eq [OF True nz(1)] c_at_cname_eq [OF True nz(2)]
    moreover have "cname n1 = cname n2" if nul: "c_at n1 len = NUL \<and> c_at n2 len = NUL"
    proof (rule cname_eqI)
      fix i assume "\<forall>j<i. c_at n1 j \<noteq> NUL"
      with nul have "i \<le> len" using leI by blast
      with nul before show "c_at n1 i = c_at n2 i" by (cases "i = len") auto
    qed
    ultimately show ?thesis using eq True stop unfolding P_def by auto
  next
    case False
    then have "cname n1 = cname n2" by (intro cname_eqI) (simp add: before)
    with eq False show ?thesis by simp
  qed
qed

lemma name_cpy_from_eq:
  assumes "length to = 7" and "i \<le> length (cname src)" and "take i to = take i (cname src)"
  shows "name_cpy_from i to src = cname src @ NUL # drop (Suc (length (cname src))) to"
  using assms
proof (induction i to src rule: name_cpy_from.induct)
  case (1 i to src)
  have l6: "length (cname src) \<le> 6" by (rule cname_length)
  show ?case
  proof (cases "i < length (cname src)")
    case True
    then have step: "i < 6" "c_at src i \<noteq> NUL"
      using l6 by (auto simp: cname_def c_at_before_end)
    have pre: "take (Suc i) (to[i := c_at src i]) = take (Suc i) (cname src)"
      using True l6 "1.prems" cname_nth [OF True]
      by (simp add: take_Suc_conv_app_nth)
    have "name_cpy_from i to src = name_cpy_from (Suc i) (to[i := c_at src i]) src"
      using step by (simp add: name_cpy_from.simps [of i to src])
    also have "\<dots> = cname src @ NUL # drop (Suc (length (cname src))) (to[i := c_at src i])"
      using True step pre "1.prems" by (intro "1.IH") auto
    finally show ?thesis using True by (simp add: drop_update_cancel)
  next
    case False
    with "1.prems" have i: "i = length (cname src)" by simp
    then have stop: "\<not> (i < 6 \<and> c_at src i \<noteq> NUL)" using cname_end by auto
    then have "name_cpy_from i to src = to[i := NUL]"
      by (subst name_cpy_from.simps) auto
    also have "\<dots> = take i to @ NUL # drop (Suc i) to"
      using i l6 "1.prems"(1) by (simp add: upd_conv_take_nth_drop)
    finally show ?thesis using i "1.prems"(3) by simp
  qed
qed

lemma name_cpy_eq:
  "length to = 7 \<Longrightarrow> name_cpy to src = cname src @ NUL # drop (Suc (length (cname src))) to"
  by (simp add: name_cpy_def name_cpy_from_eq)

lemma name_cpy_length [simp]: "length to = 7 \<Longrightarrow> length (name_cpy to src) = 7"
  using cname_length [of src] by (simp add: name_cpy_eq)

lemma cname_name_cpy [simp]: "length to = 7 \<Longrightarrow> cname (name_cpy to src) = cname src"
  using cname_no_NUL [of src] cname_length [of src]
  by (simp add: name_cpy_eq cname_def [of "_ @ _"] cstr_append_NUL)

section \<open>POSIX object names\<close>

lemma convert_from_rec:
  "convert_from i to src =
     (if i < 6 \<and> user_char (c_at src i)
      then convert_from (Suc i) (to[i + 1 := upcase (c_at src i)]) src else (i, to))"
  by (auto simp: convert_from.simps [of i to src] user_char_def upcase_def)

lemma convert_prefix_nth:
  assumes "i < length (takeWhile user_char (cname src))"
  shows "takeWhile user_char (cname src) ! i = c_at src i" and "user_char (c_at src i)"
proof -
  show nth: "takeWhile user_char (cname src) ! i = c_at src i"
    using assms length_takeWhile_le [of user_char "cname src"]
    by (simp add: takeWhile_nth cname_nth)
  show "user_char (c_at src i)"
    using nth_mem [OF assms] set_takeWhileD nth by fastforce
qed

lemma convert_prefix_stop:
  assumes "i = length (takeWhile user_char (cname src))"
  shows "\<not> (i < 6 \<and> user_char (c_at src i))"
proof (cases "i < length (cname src)")
  case True
  with assms nth_length_takeWhile [of user_char "cname src"] show ?thesis
    by (simp add: cname_nth)
next
  case False
  then have "i = length (cname src)"
    using assms length_takeWhile_le [of user_char "cname src"] by simp
  then have "i < 6 \<Longrightarrow> c_at src i = NUL" using cname_end by simp
  then show ?thesis by (auto simp: user_char_def sys_char_def)
qed

lemma convert_prefix_length: "length (takeWhile user_char (cname src)) \<le> 6"
  using cname_length [of src] length_takeWhile_le [of user_char "cname src"] by simp

lemma convert_from_eq:
  assumes "length to = 8" and "i \<le> length (takeWhile user_char (cname src))"
  shows "convert_from i to src =
    (length (takeWhile user_char (cname src)),
     take (Suc i) to @ map upcase (drop i (takeWhile user_char (cname src)))
       @ drop (Suc (length (takeWhile user_char (cname src)))) to)"
  using assms
proof (induction "length (takeWhile user_char (cname src)) - i" arbitrary: i to)
  case 0
  then have i: "i = length (takeWhile user_char (cname src))" by simp
  from convert_prefix_stop [OF i] have "convert_from i to src = (i, to)"
    by (subst convert_from_rec) auto
  then show ?case using i by simp
next
  case (Suc k)
  let ?tw = "takeWhile user_char (cname src)"
  let ?to = "to[i + 1 := upcase (c_at src i)]"
  from Suc.hyps(2) have lt: "i < length ?tw" by simp
  with convert_prefix_length [of src] have i6: "i < 6" by simp
  have "convert_from i to src = convert_from (Suc i) ?to src"
    using i6 convert_prefix_nth(2) [OF lt] by (simp add: convert_from_rec [of i to])
  also have "\<dots> = (length ?tw, take (Suc (Suc i)) ?to @ map upcase (drop (Suc i) ?tw)
      @ drop (Suc (length ?tw)) ?to)"
    using Suc.hyps lt Suc.prems(1) by (intro Suc.hyps(1)) auto
  finally show ?case
    using lt i6 Suc.prems(1) convert_prefix_nth(1) [OF lt]
    by (simp add: take_Suc_conv_app_nth drop_update_cancel Cons_nth_drop_Suc [symmetric])
qed

lemma urt_convert_name_eq:
  assumes "length to = 8"
  shows "urt_convert_name to src =
    (if takeWhile user_char (cname src) = [] then (EINVAL, to[0 := CHR ''/''])
     else (0, sys_name src @ NUL # drop (length (takeWhile user_char (cname src)) + 2) to))"
proof -
  let ?tw = "takeWhile user_char (cname src)"
  have l6: "length ?tw \<le> 6"
    using cname_length [of src] length_takeWhile_le [of user_char "cname src"] by simp
  have "convert_from 0 (to[0 := CHR ''/'']) src = (length ?tw, sys_name src @ drop (Suc (length ?tw)) to)"
    using assms by (cases to) (auto simp: convert_from_eq sys_name_def)
  then show ?thesis
    using assms l6
    by (cases "?tw") (auto simp: urt_convert_name_def sys_name_def list_update_append drop_Suc
        upd_conv_take_nth_drop tl_drop [symmetric] split: list.splits)
qed

lemma sys_char_upcase: "sys_char c \<Longrightarrow> upcase c = c"
proof -
  have "c < CHR ''a''" if "sys_char c"
  proof -
    have "c \<le> CHR ''Z'' \<or> c \<le> CHR ''9'' \<or> c \<le> CHR ''_''"
      using that by (auto simp: sys_char_def)
    then show ?thesis by (auto elim: order.strict_trans1)
  qed
  then show "sys_char c \<Longrightarrow> upcase c = c" by (auto simp: upcase_def)
qed

lemma sys_name_portable:
  "list_all sys_char (cname s) \<Longrightarrow> sys_name s = CHR ''/'' # cname s"
proof -
  assume ok: "list_all sys_char (cname s)"
  then have "takeWhile user_char (cname s) = cname s"
    by (intro takeWhile_eq_all_conv [THEN iffD2]) (auto simp: list_all_iff user_char_def)
  moreover have "map upcase (cname s) = cname s"
    using ok by (intro map_idI) (simp add: list_all_iff sys_char_upcase)
  ultimately show ?thesis unfolding sys_name_def by metis
qed

lemma urt_convert_name_portable:
  assumes "length to = 8" and "list_all sys_char (cname src)" and "cname src \<noteq> []"
  shows "fst (urt_convert_name to src) = 0"
    and "cstr (snd (urt_convert_name to src)) = CHR ''/'' # cname src"
proof -
  have tw: "takeWhile user_char (cname src) = cname src"
    using assms(2) by (intro takeWhile_eq_all_conv [THEN iffD2]) (auto simp: list_all_iff user_char_def)
  have conv: "urt_convert_name to src = (0, CHR ''/'' # cname src @ NUL # drop (length (cname src) + 2) to)"
    unfolding urt_convert_name_eq [OF assms(1)] tw using assms by (simp add: sys_name_portable)
  then show "fst (urt_convert_name to src) = 0" by simp
  have "NUL \<notin> set (CHR ''/'' # cname src)" using cname_no_NUL [of src] by simp
  from cstr_append_NUL [OF this] show "cstr (snd (urt_convert_name to src)) = CHR ''/'' # cname src"
    using conv by simp
qed

section \<open>Generated names as base-37 numbers\<close>

lemma length_digit_chars [simp]: "length digit_chars = 37"
  by (simp add: digit_chars_def)

lemma distinct_digit_chars: "distinct digit_chars"
  by (simp add: digit_chars_def)

lemma digit_val_nth: "k < 37 \<Longrightarrow> digit_val (digit_chars ! k) = k"
  unfolding digit_val_def
  by (rule for_break_unique) (auto simp: distinct_digit_chars nth_eq_iff_index_eq)

lemma digit_val_char:
  assumes "c \<in> set digit_chars"
  shows "digit_val c < 37" and "digit_chars ! digit_val c = c"
proof -
  from assms obtain k where "k < 37" "c = digit_chars ! k" by (auto simp: in_set_conv_nth)
  then show "digit_val c < 37" and "digit_chars ! digit_val c = c" by (simp_all add: digit_val_nth)
qed

lemma underscore_digit: "CHR ''_'' \<in> set digit_chars"
  by (simp add: digit_chars_def)

lemma next_digit_nth:
  "k < 37 \<Longrightarrow> next_digit (digit_chars ! k) =
     (if k < 36 then Some (digit_chars ! Suc k, True) else Some (CHR ''_'', False))"
proof -
  have "\<forall>k \<in> set [0..<37]. next_digit (digit_chars ! k) =
     (if k < 36 then Some (digit_chars ! Suc k, True) else Some (CHR ''_'', False))"
    by code_simp
  then show "k < 37 \<Longrightarrow> next_digit (digit_chars ! k) =
     (if k < 36 then Some (digit_chars ! Suc k, True) else Some (CHR ''_'', False))"
    by simp
qed

lemma reset_name_eq: "length name = 7 \<Longrightarrow> reset_name name = ''_____$'' @ drop 6 name"
  by (auto simp: reset_name_def numeral_eq_Suc length_Suc_conv)

lemma name_val_cong: "(\<And>i. i < k \<Longrightarrow> a ! i = b ! i) \<Longrightarrow> name_val k a = name_val k b"
  by (induction k) auto

lemma name_val_bound: "\<forall>i<k. name ! i \<in> set digit_chars \<Longrightarrow> name_val k name < 37 ^ k"
proof (induction k)
  case (Suc k)
  then have "name_val k name < 37 ^ k" "digit_val (name ! k) < 37"
    by (auto simp: digit_val_char)
  then show ?case by simp
qed simp

lemma base37_inject:
  fixes d e x y :: nat
  assumes "37 * x + d = 37 * y + e" and "d < 37" and "e < 37"
  shows "x = y \<and> d = e"
proof -
  have "(37 * x + d) div 37 = x" "(37 * y + e) div 37 = y" using assms(2,3) by simp_all
  with assms(1) have "x = y" by simp
  with assms(1) show ?thesis by simp
qed

lemma name_val_inject:
  "\<forall>i<k. a ! i \<in> set digit_chars \<Longrightarrow> \<forall>i<k. b ! i \<in> set digit_chars \<Longrightarrow>
   name_val k a = name_val k b \<Longrightarrow> i < k \<Longrightarrow> a ! i = b ! i"
proof (induction k)
  case (Suc k)
  have "digit_val (a ! k) < 37" "digit_val (b ! k) < 37"
    using Suc.prems(1,2) by (simp_all add: digit_val_char)
  moreover have "37 * name_val k a + digit_val (a ! k) = 37 * name_val k b + digit_val (b ! k)"
    using Suc.prems(3) by simp
  ultimately have eq: "name_val k a = name_val k b" "digit_val (a ! k) = digit_val (b ! k)"
    by (auto dest: base37_inject)
  have "a ! k = digit_chars ! digit_val (a ! k)"
    using Suc.prems(1) by (simp add: digit_val_char(2))
  also have "\<dots> = digit_chars ! digit_val (b ! k)" by (simp only: eq(2))
  also have "\<dots> = b ! k" using Suc.prems(2) by (simp add: digit_val_char(2))
  finally have "a ! k = b ! k" .
  moreover have "a ! i = b ! i" if "i < k"
    using Suc.prems(1,2) eq(1) that by (intro Suc.IH) auto
  ultimately show ?case using Suc.prems(4) by (cases "i = k") auto
qed simp

text \<open>Carry propagation is addition of one; the wrap-around resets every digit.\<close>

lemma increment_from_spec:
  assumes "length name = 7" and "k \<le> 5" and "\<forall>i<k. name ! i \<in> set digit_chars"
  shows "if name_val k name + 1 < 37 ^ k
    then \<exists>name'. increment_from k name = (0, name') \<and> name_val k name' = name_val k name + 1
      \<and> length name' = 7 \<and> (\<forall>i<k. name' ! i \<in> set digit_chars) \<and> (\<forall>i\<ge>k. name' ! i = name ! i)
    else increment_from k name = (1, reset_name name)"
  using assms
proof (induction k arbitrary: name)
  case 0
  then show ?case by simp
next
  case (Suc k)
  let ?d = "digit_val (name ! k)"
  have d: "?d < 37" "digit_chars ! ?d = name ! k"
    using Suc.prems(3) by (simp_all add: digit_val_char)
  have nd: "next_digit (name ! k) =
      (if ?d < 36 then Some (digit_chars ! Suc ?d, True) else Some (CHR ''_'', False))"
    using next_digit_nth [OF d(1)] d(2) by simp
  have b: "name_val k name < 37 ^ k" using Suc.prems(3) by (intro name_val_bound) simp
  show ?case
  proof (cases "?d < 36")
    case True
    let ?n = "name[k := digit_chars ! Suc ?d]"
    have inc: "increment_from (Suc k) name = (0, ?n)"
      using nd True Suc.prems(1,2) by (simp add: Let_def)
    have "name_val k ?n = name_val k name" by (rule name_val_cong) simp
    then have "name_val (Suc k) ?n = name_val (Suc k) name + 1"
      using True Suc.prems(1,2) by (simp add: digit_val_nth)
    moreover have "name_val (Suc k) name + 1 < 37 ^ Suc k" using True b by simp
    moreover have "\<forall>i<Suc k. ?n ! i \<in> set digit_chars"
      using Suc.prems True by (auto simp: nth_list_update)
    ultimately show ?thesis using inc Suc.prems(1) by auto
  next
    case False
    with d have d36: "?d = 36" by simp
    let ?n = "name[k := CHR ''_'']"
    have inc: "increment_from (Suc k) name = increment_from k ?n"
      using nd False Suc.prems(1,2) by (simp add: Let_def)
    have vn: "name_val k ?n = name_val k name" by (rule name_val_cong) simp
    have us: "digit_val CHR ''_'' = 0"
      using digit_val_nth [of 0] by (simp add: digit_chars_def)
    have res: "reset_name ?n = reset_name name"
      using Suc.prems(1,2) by (simp add: reset_name_eq)
    have "if name_val k ?n + 1 < 37 ^ k
      then \<exists>name'. increment_from k ?n = (0, name') \<and> name_val k name' = name_val k ?n + 1
        \<and> length name' = 7 \<and> (\<forall>i<k. name' ! i \<in> set digit_chars) \<and> (\<forall>i\<ge>k. name' ! i = ?n ! i)
      else increment_from k ?n = (1, reset_name ?n)"
      using Suc.prems by (intro Suc.IH) auto
    moreover have "(name_val (Suc k) name + 1 < 37 ^ Suc k) = (name_val k ?n + 1 < 37 ^ k)"
    proof -
      have "\<And>v p :: nat. (37 * v + 36 + 1 < 37 * p) = (v + 1 < p)" by arith
      then show ?thesis using d36 vn by simp
    qed
    ultimately show ?thesis
      using inc vn us d36 res Suc.prems(1,2) underscore_digit
      by (fastforce simp: less_Suc_eq split: if_splits)
  qed
qed

lemma gen_name_reset: "length name = 7 \<Longrightarrow> name ! 6 = NUL \<Longrightarrow> gen_name (reset_name name) \<and> name_val 5 (reset_name name) = 0"
proof -
  assume "length name = 7" "name ! 6 = NUL"
  then have "reset_name name = ''_____$'' @ [NUL]"
    by (simp add: reset_name_eq Cons_nth_drop_Suc [of 6, symmetric])
  moreover have "digit_val CHR ''_'' = 0"
    using digit_val_nth [of 0] by (simp add: digit_chars_def)
  ultimately show ?thesis
    using underscore_digit by (simp add: gen_name_def numeral_eq_Suc All_less_Suc)
qed

lemma increment_name_spec:
  assumes "gen_name name"
  shows "fst (increment_name name) = (if name_val 5 name + 1 < 37 ^ 5 then 0 else 1)"
    and "gen_name (snd (increment_name name))"
    and "name_val 5 (snd (increment_name name)) = (name_val 5 name + 1) mod 37 ^ 5"
proof -
  have g: "length name = 7" "\<forall>i<5. name ! i \<in> set digit_chars" "name ! 5 = CHR ''$''" "name ! 6 = NUL"
    using assms by (auto simp: gen_name_def)
  have bound: "name_val 5 name < 37 ^ 5" using g(2) by (rule name_val_bound)
  note spec = increment_from_spec [of name 5, OF g(1) _ g(2)]
  have "fst (increment_name name) = (if name_val 5 name + 1 < 37 ^ 5 then 0 else 1)
    \<and> gen_name (snd (increment_name name))
    \<and> name_val 5 (snd (increment_name name)) = (name_val 5 name + 1) mod 37 ^ 5"
  proof (cases "name_val 5 name + 1 < 37 ^ 5")
    case True
    with spec obtain name' where n: "increment_from 5 name = (0, name')"
      "name_val 5 name' = name_val 5 name + 1" "length name' = 7"
      "\<forall>i<5. name' ! i \<in> set digit_chars" "\<forall>i\<ge>5. name' ! i = name ! i"
      by auto
    then have "gen_name name'" using g by (simp add: gen_name_def)
    with n True show ?thesis by (simp add: increment_name_def)
  next
    case False
    with bound have "name_val 5 name + 1 = 37 ^ 5" by simp
    moreover have "increment_name name = (1, reset_name name)"
      using spec False by (simp add: increment_name_def)
    ultimately show ?thesis using gen_name_reset g(1,4) False by auto
  qed
  then show "fst (increment_name name) = (if name_val 5 name + 1 < 37 ^ 5 then 0 else 1)"
    and "gen_name (snd (increment_name name))"
    and "name_val 5 (snd (increment_name name)) = (name_val 5 name + 1) mod 37 ^ 5"
    by blast+
qed

lemma gen_name_inject:
  assumes "gen_name a" and "gen_name b" and "name_val 5 a = name_val 5 b"
  shows "a = b"
proof (rule nth_equalityI)
  show "length a = length b" using assms(1,2) by (simp add: gen_name_def)
  fix i assume "i < length a"
  then have "i < 5 \<or> i = 5 \<or> i = 6" using assms(1) by (auto simp: gen_name_def)
  then show "a ! i = b ! i"
    using assms name_val_inject [of 5 a b i] by (auto simp: gen_name_def)
qed

lemma digit_not_NUL: "NUL \<notin> set digit_chars"
  by (simp add: digit_chars_def)

lemma cname_gen_name:
  assumes "gen_name n"
  shows "cname n = take 6 n"
proof -
  have l: "length n = 7" "n ! 5 = CHR ''$''" "n ! 6 = NUL" and d: "\<forall>i<5. n ! i \<in> set digit_chars"
    using assms by (auto simp: gen_name_def)
  have "n ! i \<noteq> NUL" if "i < 6" for i
  proof (cases "i = 5")
    case False
    with that d have "n ! i \<in> set digit_chars" by simp
    with digit_not_NUL show ?thesis by metis
  qed (simp add: l)
  then have "NUL \<notin> set (take 6 n)" using l(1) by (auto simp: in_set_conv_nth)
  moreover have "n = take 6 n @ NUL # []"
    using l take_Suc_conv_app_nth [of 6 n] by simp
  ultimately have "cstr n = take 6 n" by (metis cstr_append_NUL)
  then show ?thesis by (simp add: cname_def)
qed

lemma gen_name_cname_inject: "gen_name a \<Longrightarrow> gen_name b \<Longrightarrow> cname a = cname b \<Longrightarrow> a = b"
proof (rule gen_name_inject)
  assume ab: "gen_name a" "gen_name b" "cname a = cname b"
  then have eq: "take 6 a = take 6 b" by (simp add: cname_gen_name)
  have "a ! i = b ! i" if "i < 5" for i
  proof -
    from eq have "take 6 a ! i = take 6 b ! i" by simp
    with that show ?thesis by simp
  qed
  then show "name_val 5 a = name_val 5 b" by (intro name_val_cong) simp
qed

lemma sys_name_no_NUL: "NUL \<notin> set (sys_name s)"
proof -
  have "\<forall>c. user_char c \<longrightarrow> upcase c \<noteq> NUL" by code_simp
  then show ?thesis by (auto simp: sys_name_def dest!: set_takeWhileD)
qed

section \<open>Properties\<close>

text \<open>
  The loop of \<^verbatim>\<open>_name_eq\<close> decides equality of the first six characters up to the NUL,
  and \<^verbatim>\<open>_name_cpy\<close> into an array of seven characters stores a name that is equal to the
  original, whatever the array held before.
\<close>

theorem name_eq_after_copy:
  assumes "length to = 7"
  shows "length (name_cpy to src) = 7 \<and> name_eq (name_cpy to src) src
    \<and> (\<forall>other. name_eq (name_cpy to src) other \<longleftrightarrow> cname src = cname other)"
  using assms by (simp add: name_eq_cname)

theorem name_eq_after_copy_witness:
  "name_eq (name_cpy (replicate 7 CHR ''x'') ''AB'') ''AB''
   \<and> \<not> name_eq (name_cpy (replicate 7 CHR ''x'') ''AB'') ''ABC''"
proof -
  have "length (replicate 7 CHR ''x'') = 7" and "cname ''AB'' \<noteq> cname ''ABC''" by code_simp+
  with name_eq_after_copy [of "replicate 7 CHR ''x''" "''AB''"] show ?thesis by blast
qed

text \<open>
  \<^verbatim>\<open>urt_convert_name\<close> on every branch: \<^verbatim>\<open>EINVAL\<close> exactly when the name does not begin
  with a letter, digit, \<^verbatim>\<open>_\<close> or \<^verbatim>\<open>$\<close>; otherwise 0 and a terminated string inside the
  8-character array that consists of a slash and the longest valid prefix in capitals.
\<close>

theorem convert_name_behaviour:
  assumes "length to = 8"
  shows "length (snd (urt_convert_name to src)) = 8
    \<and> (if \<not> user_char (c_at (cname src) 0) then fst (urt_convert_name to src) = EINVAL
       else fst (urt_convert_name to src) = 0
         \<and> cstr (snd (urt_convert_name to src)) = sys_name src \<and> length (sys_name src) < 8)"
proof -
  let ?tw = "takeWhile user_char (cname src)"
  have nn: "\<not> user_char NUL" by code_simp
  have e: "?tw = [] \<longleftrightarrow> \<not> user_char (c_at (cname src) 0)"
    using nn by (cases "cname src") (auto simp: c_at_def)
  have l: "length ?tw \<le> 6" by (rule convert_prefix_length)
  have "cstr (sys_name src @ NUL # r) = sys_name src" for r
    using sys_name_no_NUL by (rule cstr_append_NUL)
  moreover have "length (sys_name src) = Suc (length ?tw)" by (simp add: sys_name_def)
  ultimately show ?thesis
    unfolding urt_convert_name_eq [OF assms] e [symmetric] using assms l by simp
qed

theorem convert_name_behaviour_witness:
  "fst (urt_convert_name (replicate 8 NUL) ''-x'') = EINVAL
   \<and> cstr (snd (urt_convert_name (replicate 8 NUL) ''ab1_$-'')) = ''/AB1_$''"
proof -
  have l: "length (replicate 8 NUL) = 8" by simp
  have "\<not> user_char (c_at (cname ''-x'') 0)" "user_char (c_at (cname ''ab1_$-'') 0)"
    "sys_name ''ab1_$-'' = ''/AB1_$''" by code_simp+
  with convert_name_behaviour [OF l, of "''-x''"] convert_name_behaviour [OF l, of "''ab1_$-''"]
  show ?thesis by simp
qed

text \<open>
  Names of capitals, digits, \<^verbatim>\<open>_\<close> and \<^verbatim>\<open>$\<close>, as the documentation asks for, are
  translated without loss: two of them that the registry tells apart have different POSIX
  object names.
\<close>

theorem convert_name_injective:
  assumes "length to = 8" and "list_all sys_char (cname a)" and "list_all sys_char (cname b)"
    and "cname a \<noteq> []" and "cname b \<noteq> []" and "\<not> name_eq a b"
  shows "cstr (snd (urt_convert_name to a)) \<noteq> cstr (snd (urt_convert_name to b))"
  using assms urt_convert_name_portable(2) by (simp add: name_eq_cname)

theorem convert_name_injective_witness:
  "cstr (snd (urt_convert_name (replicate 8 NUL) ''AB'')) \<noteq> cstr (snd (urt_convert_name (replicate 8 NUL) ''A_''))"
  by (rule convert_name_injective) code_simp+

text \<open>
  Outside that alphabet the translation loses the difference: lower-case letters are
  accepted, and the rest of a name from the first other character on is dropped, so that two
  names which the registry holds as different objects are one POSIX object.
\<close>

theorem convert_name_conflates:
  "\<not> name_eq ''ab'' ''AB'' \<and> urt_convert_name to ''ab'' = urt_convert_name to ''AB''
   \<and> \<not> name_eq ''AB-1'' ''AB-2'' \<and> urt_convert_name to ''AB-1'' = urt_convert_name to ''AB-2''"
proof -
  have "\<not> name_eq ''ab'' ''AB''" "\<not> name_eq ''AB-1'' ''AB-2''" by code_simp+
  moreover have "char_of (65 :: nat) = CHR ''A''" "char_of (66 :: nat) = CHR ''B''" by code_simp+
  moreover from this have "urt_convert_name to ''ab'' = urt_convert_name to ''AB''"
    and "urt_convert_name to ''AB-1'' = urt_convert_name to ''AB-2''"
    by (simp_all add: urt_convert_name_def convert_from.simps sys_char_def less_eq_char_def c_at_def)
  ultimately show ?thesis by blast
qed

end
