(* ===== verification/Urt_Registry.thy ===== *)
theory Urt_Registry
  imports Urt_Names
begin

text \<open>
  The registry of shared objects (\<^verbatim>\<open>src/registry.c\<close>, structures of \<^verbatim>\<open>src/urt_internal.h\<close>):
  a fixed array of named, reference counted slots in shared memory, protected by the
  global semaphore. The state is the shared segment \<open>gmem\<close>, the value \<open>gsem\<close> of the global
  semaphore and whatever the release callbacks act on (\<open>gos\<close>). An operation that has to wait
  on the semaphore while its value is 0 does not return: the result is \<open>None\<close>.

  The lemmas show that every operation keeps the invariant \<open>registry_inv\<close>, returns the
  semaphore on every path, and acts on the table of names \<open>name_table\<close> as a partial map.
\<close>

section \<open>Data structures\<close>

definition URT_TYPE_MEM :: int where "URT_TYPE_MEM = 1"
definition URT_TYPE_SEM :: int where "URT_TYPE_SEM = 2"
definition URT_TYPE_MUTEX :: int where "URT_TYPE_MUTEX = 3"
definition URT_TYPE_RWLOCK :: int where "URT_TYPE_RWLOCK = 4"
definition URT_TYPE_COND :: int where "URT_TYPE_COND = 5"

lemmas urt_types = URT_TYPE_MEM_def URT_TYPE_SEM_def URT_TYPE_MUTEX_def URT_TYPE_RWLOCK_def
  URT_TYPE_COND_def

record urt_registered_object =
  ro_name :: string
  ro_reserved :: bool
  ro_has_bookkeeping :: bool
  ro_type :: int
  ro_count :: u32
  ro_size :: u64

record urt_internal =
  sizeof_urt_internal :: u64
  sizeof_urt_registered_object :: u64
  objects :: "urt_registered_object list"
  objects_max_index :: nat
  next_free_name :: string
  names_exhausted :: bool
  initialized :: bool

record 'os urt_global =
  gmem :: urt_internal
  gsem :: nat
  gos :: 'os

text \<open>The array has \<^verbatim>\<open>URT_MAX_OBJECTS\<close> elements, a build-time constant.\<close>

abbreviation URT_MAX_OBJECTS :: "urt_internal \<Rightarrow> nat" where
  "URT_MAX_OBJECTS g \<equiv> length (objects g)"

text \<open>A slot initialised by \<^verbatim>\<open>(urt_registered_object){0}\<close>.\<close>

definition ro_zero :: urt_registered_object where
  "ro_zero = \<lparr>ro_name = replicate (URT_NAME_LEN + 1) NUL, ro_reserved = False,
     ro_has_bookkeeping = False, ro_type = 0, ro_count = 0, ro_size = 0\<rparr>"

definition ro_used :: "urt_registered_object \<Rightarrow> bool" where
  "ro_used ro \<longleftrightarrow> ro_reserved ro \<or> ro_count ro \<noteq> 0"

definition ro_update :: "nat \<Rightarrow> (urt_registered_object \<Rightarrow> urt_registered_object) \<Rightarrow> urt_internal \<Rightarrow> urt_internal" where
  "ro_update i f g = g\<lparr>objects := (objects g)[i := f (objects g ! i)]\<rparr>"

section \<open>The global semaphore\<close>

definition urt_global_sem_wait :: "'os urt_global \<Rightarrow> 'os urt_global option" where
  "urt_global_sem_wait w = (if gsem w = 0 then None else Some (w\<lparr>gsem := gsem w - 1\<rparr>))"

definition urt_global_sem_try_wait :: "'os urt_global \<Rightarrow> 'os urt_global" where
  "urt_global_sem_try_wait w = (if gsem w = 0 then w else w\<lparr>gsem := gsem w - 1\<rparr>)"

definition urt_global_sem_post :: "'os urt_global \<Rightarrow> 'os urt_global" where
  "urt_global_sem_post w = w\<lparr>gsem := gsem w + 1\<rparr>"

section \<open>Initialisation\<close>

text \<open>
  \<open>si\<close> and \<open>so\<close> are \<^verbatim>\<open>sizeof(struct urt_internal)\<close> and
  \<^verbatim>\<open>sizeof(struct urt_registered_object)\<close> of the calling process.
\<close>

definition urt_registry_init :: "u64 \<Rightarrow> u64 \<Rightarrow> urt_internal \<Rightarrow> int \<times> urt_internal" where
  "urt_registry_init si so g =
     (if initialized g
      then (if sizeof_urt_internal g = si \<and> sizeof_urt_registered_object g = so then 0 else -1, g)
      else (0, \<lparr>sizeof_urt_internal = si, sizeof_urt_registered_object = so,
                objects = replicate (URT_MAX_OBJECTS g) ro_zero, objects_max_index = 0,
                next_free_name = reset_name (replicate (URT_NAME_LEN + 1) NUL),
                names_exhausted = False, initialized = True\<rparr>))"

section \<open>Lookup, reservation and counting\<close>

definition find_by_name :: "urt_internal \<Rightarrow> string \<Rightarrow> nat option" where
  "find_by_name g name =
     (let max_index = objects_max_index g;
          i = for_break (\<lambda>i. let ro = objects g ! i
                 in (ro_reserved ro \<or> ro_count ro \<noteq> 0) \<and> name_eq (ro_name ro) name)
               0 (max_index + 1)
      in if i > max_index then None else Some i)"

definition find_free_slot :: "urt_internal \<Rightarrow> nat" where
  "find_free_slot g =
     for_break (\<lambda>i. \<not> ro_reserved (objects g ! i) \<and> ro_count (objects g ! i) = 0)
       0 (URT_MAX_OBJECTS g)"

definition urt_reserve_name :: "string \<Rightarrow> 'os urt_global \<Rightarrow> ((int + nat) \<times> 'os urt_global) option" where
  "urt_reserve_name name w = do {
     w1 \<leftarrow> urt_global_sem_wait w;
     let g = gmem w1;
     if find_by_name g name \<noteq> None then Some (Inl EEXIST, urt_global_sem_post w1)
     else (let i = find_free_slot g in
       if i = URT_MAX_OBJECTS g then Some (Inl ENOSPC, urt_global_sem_post w1)
       else (let ro = ro_zero\<lparr>ro_reserved := True\<rparr>;
                 ro' = ro\<lparr>ro_name := name_cpy (ro_name ro) name\<rparr>;
                 g1 = g\<lparr>objects := (objects g)[i := ro']\<rparr>;
                 g2 = (if i > objects_max_index g1 then g1\<lparr>objects_max_index := i\<rparr> else g1)
             in Some (Inr i, urt_global_sem_post (w1\<lparr>gmem := g2\<rparr>))))}"

definition urt_inc_name_count :: "nat \<Rightarrow> 'os urt_global \<Rightarrow> 'os urt_global option" where
  "urt_inc_name_count i w = do {
     w1 \<leftarrow> urt_global_sem_wait w;
     let g = ro_update i (\<lambda>ro. ro\<lparr>ro_count := ro_count ro + 1, ro_reserved := False\<rparr>) (gmem w1);
     Some (urt_global_sem_post (w1\<lparr>gmem := g\<rparr>))}"

text \<open>
  \<^verbatim>\<open>_internal_mem_check\<close> of debug builds: the loop over all slots, with the flag
  \<^verbatim>\<open>error_given\<close> as the second component of the result.
\<close>

fun mem_check_upto :: "nat \<Rightarrow> urt_internal \<times> bool \<Rightarrow> urt_internal \<times> bool" where
  "mem_check_upto 0 (g, err) = (g, err)"
| "mem_check_upto (Suc n) (g, err) =
     (let (g', err') = mem_check_upto n (g, err)
      in if (ro_reserved (objects g' ! n) \<or> ro_count (objects g' ! n) > 0) \<and> n > objects_max_index g'
         then (g'\<lparr>objects_max_index := n\<rparr>, True) else (g', err'))"

definition internal_mem_check :: "urt_internal \<Rightarrow> urt_internal \<times> bool" where
  "internal_mem_check g = mem_check_upto (URT_MAX_OBJECTS g) (g, False)"

text \<open>The loop that lowers \<^verbatim>\<open>objects_max_index\<close>.\<close>

fun lower_index :: "urt_registered_object list \<Rightarrow> nat \<Rightarrow> nat" where
  "lower_index objs 0 = 0"
| "lower_index objs (Suc i) =
     (if \<not> ro_reserved (objs ! Suc i) \<and> ro_count (objs ! Suc i) = 0
      then lower_index objs i else Suc i)"

text \<open>
  \<^verbatim>\<open>_dec_count_common\<close>. A release callback is given the slot after the decrement and acts
  on the operating system; no callback of the sources writes to the slot.
\<close>

type_synonym 'os release = "urt_registered_object \<Rightarrow> 'os \<Rightarrow> 'os"

definition dec_count_common :: "nat \<Rightarrow> 'os release option \<Rightarrow> 'os urt_global \<Rightarrow> 'os urt_global" where
  "dec_count_common i release w =
     (let g = ro_update i (\<lambda>ro. ro\<lparr>ro_count := (if ro_count ro > 0 then ro_count ro - 1 else ro_count ro),
                                    ro_reserved := False\<rparr>) (gmem w);
          ro = objects g ! i;
          os = (case release of None \<Rightarrow> gos w | Some f \<Rightarrow> f ro (gos w));
          w1 = w\<lparr>gmem := g, gos := os\<rparr>
      in if ro_count ro > 0 then w1
         else (let g1 = (if i = objects_max_index g
                         then g\<lparr>objects_max_index := lower_index (objects g) i\<rparr> else g)
               in w1\<lparr>gmem := fst (internal_mem_check g1)\<rparr>))"

definition urt_dec_name_count :: "nat \<Rightarrow> 'os release option \<Rightarrow> 'os urt_global \<Rightarrow> 'os urt_global option" where
  "urt_dec_name_count i release w = do {
     w1 \<leftarrow> urt_global_sem_wait w;
     Some (urt_global_sem_post (dec_count_common i release w1))}"

definition urt_deregister :: "nat \<Rightarrow> 'os release option \<Rightarrow> 'os urt_global \<Rightarrow> 'os urt_global option" where
  "urt_deregister i release w = urt_dec_name_count i release w"

definition urt_get_object_by_name_and_inc_count ::
    "string \<Rightarrow> 'os urt_global \<Rightarrow> (nat option \<times> 'os urt_global) option" where
  "urt_get_object_by_name_and_inc_count name w = do {
     w1 \<leftarrow> urt_global_sem_wait w;
     let ro = find_by_name (gmem w1) name;
     let w2 = (case ro of None \<Rightarrow> w1
               | Some i \<Rightarrow> w1\<lparr>gmem := ro_update i
                    (\<lambda>ro. ro\<lparr>ro_count := ro_count ro + 1, ro_reserved := False\<rparr>) (gmem w1)\<rparr>);
     Some (ro, urt_global_sem_post w2)}"

text \<open>
  A pointer to a slot is its index. \<^verbatim>\<open>urt_get_object_by_id\<close> takes the address of an array
  element: the result is never NULL.
\<close>

definition urt_get_object_by_id :: "nat \<Rightarrow> nat option" where
  "urt_get_object_by_id i = Some i"

section \<open>Invariant and abstract view\<close>

text \<open>
  The registry invariant: \<^verbatim>\<open>objects_max_index\<close> is in range and bounds every used slot, names
  are 7 characters long, no two used slots carry the same name, and the next generated name
  is well formed.
\<close>

definition used_bounded :: "urt_internal \<Rightarrow> bool" where
  "used_bounded g \<longleftrightarrow> (\<forall>i<URT_MAX_OBJECTS g. ro_used (objects g ! i) \<longrightarrow> i \<le> objects_max_index g)"

definition used_distinct :: "urt_internal \<Rightarrow> bool" where
  "used_distinct g \<longleftrightarrow> (\<forall>i<URT_MAX_OBJECTS g. \<forall>j<URT_MAX_OBJECTS g.
     ro_used (objects g ! i) \<longrightarrow> ro_used (objects g ! j) \<longrightarrow>
     cname (ro_name (objects g ! i)) = cname (ro_name (objects g ! j)) \<longrightarrow> i = j)"

definition registry_inv :: "urt_internal \<Rightarrow> bool" where
  "registry_inv g \<longleftrightarrow> objects_max_index g < URT_MAX_OBJECTS g
     \<and> used_bounded g \<and> used_distinct g
     \<and> (\<forall>i<URT_MAX_OBJECTS g. length (ro_name (objects g ! i)) = 7)
     \<and> gen_name (next_free_name g)"

text \<open>\<^verbatim>\<open>objects_max_index\<close> is exact: 0 or a used slot.\<close>

definition max_index_tight :: "urt_internal \<Rightarrow> bool" where
  "max_index_tight g \<longleftrightarrow> objects_max_index g = 0 \<or> ro_used (objects g ! objects_max_index g)"

text \<open>The abstract registry: a partial map from canonical names to slots.\<close>

definition name_table :: "urt_internal \<Rightarrow> string \<Rightarrow> nat option" where
  "name_table g n = List.find (\<lambda>i. ro_used (objects g ! i) \<and> cname (ro_name (objects g ! i)) = n)
     [0..<URT_MAX_OBJECTS g]"

section \<open>Basic lemmas\<close>

lemma ro_used_iff: "ro_used ro \<longleftrightarrow> \<not> (\<not> ro_reserved ro \<and> ro_count ro = 0)"
  by (auto simp: ro_used_def)

lemma ro_zero_simps [simp]:
  "ro_name ro_zero = replicate 7 NUL" "ro_reserved ro_zero = False" "ro_count ro_zero = 0"
  "\<not> ro_used ro_zero"
  by (simp_all add: ro_zero_def ro_used_def numeral_eq_Suc)

lemma ro_update_simps [simp]:
  "URT_MAX_OBJECTS (ro_update i f g) = URT_MAX_OBJECTS g"
  "objects_max_index (ro_update i f g) = objects_max_index g"
  "next_free_name (ro_update i f g) = next_free_name g"
  "names_exhausted (ro_update i f g) = names_exhausted g"
  "initialized (ro_update i f g) = initialized g"
  by (simp_all add: ro_update_def)

lemma objects_ro_update: "objects (ro_update i f g) = (objects g)[i := f (objects g ! i)]"
  by (simp add: ro_update_def)

lemma mem_check_upto_objects: "objects (fst (mem_check_upto n (g, e))) = objects g"
  by (induction n) (auto simp: Let_def split: prod.splits)

lemma mem_check_upto_id:
  "\<forall>j<n. ro_used (objects g ! j) \<longrightarrow> j \<le> objects_max_index g \<Longrightarrow> mem_check_upto n (g, e) = (g, e)"
  by (induction n) (auto simp: ro_used_def)

lemma internal_mem_check_objects [simp]: "objects (fst (internal_mem_check g)) = objects g"
  by (simp add: internal_mem_check_def mem_check_upto_objects)

lemma internal_mem_check_id: "used_bounded g \<Longrightarrow> internal_mem_check g = (g, False)"
  by (simp add: internal_mem_check_def used_bounded_def mem_check_upto_id)

lemma lower_index_le: "lower_index objs i \<le> i"
  by (induction i) auto

lemma lower_index_free: "lower_index objs i < j \<Longrightarrow> j \<le> i \<Longrightarrow> \<not> ro_used (objs ! j)"
  by (induction i) (auto simp: ro_used_iff le_Suc_eq split: if_splits)

lemma lower_index_used: "lower_index objs i = 0 \<or> ro_used (objs ! lower_index objs i)"
  by (induction i) (auto simp: ro_used_iff)

section \<open>Forced removal\<close>

lemma dec_count_common_slot:
  "i < URT_MAX_OBJECTS (gmem w) \<Longrightarrow>
   objects (gmem (dec_count_common i rel w)) =
     (objects (gmem w))[i := (objects (gmem w) ! i)
        \<lparr>ro_count := (if ro_count (objects (gmem w) ! i) = 0 then 0 else ro_count (objects (gmem w) ! i) - 1),
         ro_reserved := False\<rparr>]"
  by (auto simp: dec_count_common_def Let_def objects_ro_update)

text \<open>
  The \<^verbatim>\<open>do ... while (ro->count > 0)\<close> loop of \<^verbatim>\<open>urt_force_clear_name\<close>: every round
  decrements the 32-bit counter, so the counter itself bounds the rounds. The index comes
  from \<^verbatim>\<open>_find_by_name\<close> and is in range.
\<close>

function force_clear_loop :: "nat \<Rightarrow> 'os urt_global \<Rightarrow> 'os urt_global" where
  "force_clear_loop i w =
     (let w' = dec_count_common i None w
      in if i < URT_MAX_OBJECTS (gmem w) \<and> ro_count (objects (gmem w') ! i) > 0
         then force_clear_loop i w' else w')"
  by pat_completeness auto
termination
  by (relation "measure (\<lambda>(i, w). unat (ro_count (objects (gmem w) ! i)))")
     (auto simp: dec_count_common_slot intro!: unat_dec split: if_splits)

declare force_clear_loop.simps [simp del]

text \<open>\<open>sys_clear\<close> is \<^verbatim>\<open>urt_sys_force_clear_name\<close> of the back-end.\<close>

definition urt_force_clear_name :: "'os release \<Rightarrow> string \<Rightarrow> 'os urt_global \<Rightarrow> 'os urt_global option" where
  "urt_force_clear_name sys_clear name w = do {
     w1 \<leftarrow> urt_global_sem_wait w;
     let w2 = (case find_by_name (gmem w1) name of None \<Rightarrow> w1
               | Some i \<Rightarrow> force_clear_loop i (w1\<lparr>gos := sys_clear (objects (gmem w1) ! i) (gos w1)\<rparr>));
     Some (urt_global_sem_post w2)}"

section \<open>Lookup\<close>

lemma used_distinctD:
  "used_distinct g \<Longrightarrow> i < URT_MAX_OBJECTS g \<Longrightarrow> j < URT_MAX_OBJECTS g \<Longrightarrow>
   ro_used (objects g ! i) \<Longrightarrow> ro_used (objects g ! j) \<Longrightarrow>
   cname (ro_name (objects g ! i)) = cname (ro_name (objects g ! j)) \<Longrightarrow> i = j"
  unfolding used_distinct_def by blast

lemma used_boundedD:
  "used_bounded g \<Longrightarrow> i < URT_MAX_OBJECTS g \<Longrightarrow> ro_used (objects g ! i) \<Longrightarrow> i \<le> objects_max_index g"
  unfolding used_bounded_def by blast

lemma registry_invD:
  assumes "registry_inv g"
  shows "objects_max_index g < URT_MAX_OBJECTS g" and "used_bounded g" and "used_distinct g"
    and "i < URT_MAX_OBJECTS g \<Longrightarrow> length (ro_name (objects g ! i)) = 7"
    and "gen_name (next_free_name g)"
  using assms by (auto simp: registry_inv_def)

lemma find_by_name_Some_iff:
  assumes "registry_inv g"
  shows "find_by_name g name = Some i \<longleftrightarrow>
    i < URT_MAX_OBJECTS g \<and> ro_used (objects g ! i) \<and> cname (ro_name (objects g ! i)) = cname name"
proof -
  define P where "P = (\<lambda>i. ro_used (objects g ! i) \<and> cname (ro_name (objects g ! i)) = cname name)"
  define k where "k = for_break P 0 (objects_max_index g + 1)"
  have find: "find_by_name g name = (if k > objects_max_index g then None else Some k)"
    by (simp add: find_by_name_def k_def P_def Let_def ro_used_def name_eq_cname)
  have hit: "k \<le> objects_max_index g \<Longrightarrow> P k"
    unfolding k_def by (rule for_break_hit) simp
  have uniq: "i < URT_MAX_OBJECTS g \<Longrightarrow> P i \<Longrightarrow> k = i"
  proof -
    assume i: "i < URT_MAX_OBJECTS g" "P i"
    then have "i \<le> objects_max_index g"
      using used_boundedD [OF registry_invD(2) [OF assms]] by (simp add: P_def)
    moreover have "\<not> P j" if "j < i" for j
      using that i used_distinctD [OF registry_invD(3) [OF assms], of j i] by (auto simp: P_def)
    ultimately show "k = i" unfolding k_def using i by (intro for_break_unique) auto
  qed
  show ?thesis
  proof
    assume "find_by_name g name = Some i"
    then have "k \<le> objects_max_index g" "k = i" by (simp_all add: find split: if_splits)
    with hit registry_invD(1) [OF assms]
    show "i < URT_MAX_OBJECTS g \<and> ro_used (objects g ! i) \<and> cname (ro_name (objects g ! i)) = cname name"
      by (auto simp: P_def)
  next
    assume r: "i < URT_MAX_OBJECTS g \<and> ro_used (objects g ! i) \<and> cname (ro_name (objects g ! i)) = cname name"
    then have "k = i" by (intro uniq) (auto simp: P_def)
    moreover have "i \<le> objects_max_index g"
      using r used_boundedD [OF registry_invD(2) [OF assms]] by blast
    ultimately show "find_by_name g name = Some i" by (simp add: find)
  qed
qed

lemma name_table_Some_iff:
  assumes "used_distinct g"
  shows "name_table g n = Some i \<longleftrightarrow>
    i < URT_MAX_OBJECTS g \<and> ro_used (objects g ! i) \<and> cname (ro_name (objects g ! i)) = n"
proof
  assume "name_table g n = Some i"
  then show "i < URT_MAX_OBJECTS g \<and> ro_used (objects g ! i) \<and> cname (ro_name (objects g ! i)) = n"
    by (auto simp: name_table_def find_Some_iff)
next
  assume r: "i < URT_MAX_OBJECTS g \<and> ro_used (objects g ! i) \<and> cname (ro_name (objects g ! i)) = n"
  then have "\<not> (ro_used (objects g ! j) \<and> cname (ro_name (objects g ! j)) = n)" if "j < i" for j
    using that used_distinctD [OF assms, of j i] by auto
  with r show "name_table g n = Some i"
    by (auto simp: name_table_def find_Some_iff intro!: exI [of _ i])
qed

lemma find_by_name_table: "registry_inv g \<Longrightarrow> find_by_name g name = name_table g (cname name)"
  using find_by_name_Some_iff [of g name] name_table_Some_iff [of g "cname name"] registry_invD(3) [of g]
  by (metis option.exhaust)

lemma find_free_slot_le: "find_free_slot g \<le> URT_MAX_OBJECTS g"
  by (simp add: find_free_slot_def for_break_le)

lemma find_free_slot_free:
  assumes "find_free_slot g < URT_MAX_OBJECTS g"
  shows "\<not> ro_used (objects g ! find_free_slot g)"
  using for_break_hit [OF assms [unfolded find_free_slot_def]]
  by (simp add: find_free_slot_def ro_used_iff)

lemma find_free_slot_full:
  assumes "find_free_slot g = URT_MAX_OBJECTS g" and "i < URT_MAX_OBJECTS g"
  shows "ro_used (objects g ! i)"
  using assms for_break_before [of 0 i "\<lambda>i. \<not> ro_reserved (objects g ! i) \<and> ro_count (objects g ! i) = 0"
      "URT_MAX_OBJECTS g"]
  unfolding find_free_slot_def ro_used_iff by simp

section \<open>Each operation on an available semaphore\<close>

definition reserved_slot :: "string \<Rightarrow> urt_registered_object" where
  "reserved_slot name = ro_zero\<lparr>ro_reserved := True, ro_name := name_cpy (replicate 7 NUL) name\<rparr>"

definition put_slot :: "nat \<Rightarrow> urt_registered_object \<Rightarrow> nat \<Rightarrow> urt_internal \<Rightarrow> urt_internal" where
  "put_slot i ro m g = g\<lparr>objects := (objects g)[i := ro], objects_max_index := m\<rparr>"

definition counted_slot :: "urt_registered_object \<Rightarrow> urt_registered_object" where
  "counted_slot ro = ro\<lparr>ro_count := ro_count ro + 1, ro_reserved := False\<rparr>"

definition released_slot :: "urt_registered_object \<Rightarrow> urt_registered_object" where
  "released_slot ro = ro\<lparr>ro_count := (if ro_count ro = 0 then 0 else ro_count ro - 1), ro_reserved := False\<rparr>"

lemma sem_wait_run: "urt_global_sem_wait w = (if gsem w = 0 then None else Some (w\<lparr>gsem := gsem w - 1\<rparr>))"
  by (simp add: urt_global_sem_wait_def)

lemma sem_restored: "0 < gsem w \<Longrightarrow> w\<lparr>gsem := Suc (gsem w - Suc 0)\<rparr> = w"
  by simp

lemma urt_reserve_name_run:
  assumes "0 < gsem w"
  shows "urt_reserve_name name w = Some
    (if find_by_name (gmem w) name \<noteq> None then (Inl EEXIST, w)
     else if find_free_slot (gmem w) = URT_MAX_OBJECTS (gmem w) then (Inl ENOSPC, w)
     else (Inr (find_free_slot (gmem w)),
           w\<lparr>gmem := put_slot (find_free_slot (gmem w)) (reserved_slot name)
                (max (objects_max_index (gmem w)) (find_free_slot (gmem w))) (gmem w)\<rparr>))"
  using assms
  by (auto simp: urt_reserve_name_def sem_wait_run urt_global_sem_post_def Let_def put_slot_def
      reserved_slot_def max_def sem_restored split: if_splits)

lemma urt_inc_name_count_run:
  "0 < gsem w \<Longrightarrow> urt_inc_name_count i w = Some (w\<lparr>gmem := ro_update i counted_slot (gmem w)\<rparr>)"
  by (simp add: urt_inc_name_count_def sem_wait_run urt_global_sem_post_def Let_def
      counted_slot_def [abs_def])

lemma urt_get_object_run:
  "0 < gsem w \<Longrightarrow> urt_get_object_by_name_and_inc_count name w = Some
    (find_by_name (gmem w) name,
     case find_by_name (gmem w) name of None \<Rightarrow> w
     | Some i \<Rightarrow> w\<lparr>gmem := ro_update i counted_slot (gmem w)\<rparr>)"
  by (auto simp: urt_get_object_by_name_and_inc_count_def sem_wait_run urt_global_sem_post_def Let_def
      counted_slot_def [abs_def] sem_restored split: option.splits)

lemma dec_count_common_sem: "dec_count_common i rel (w\<lparr>gsem := n\<rparr>) = (dec_count_common i rel w)\<lparr>gsem := n\<rparr>"
  by (cases rel) (simp_all add: dec_count_common_def Let_def)

lemma gsem_dec_count_common [simp]: "gsem (dec_count_common i rel w) = gsem w"
  by (simp add: dec_count_common_def Let_def)

lemma urt_dec_name_count_run:
  "0 < gsem w \<Longrightarrow> urt_dec_name_count i rel w = Some (dec_count_common i rel w)"
  by (simp add: urt_dec_name_count_def sem_wait_run urt_global_sem_post_def dec_count_common_sem)

lemmas registry_run = urt_reserve_name_run urt_inc_name_count_run urt_get_object_run
  urt_dec_name_count_run urt_deregister_def

text \<open>A process that finds the semaphore taken does not get past the entry of any operation.\<close>

lemma registry_blocked:
  assumes "gsem w = 0"
  shows "urt_reserve_name name w = None" "urt_inc_name_count i w = None"
    "urt_get_object_by_name_and_inc_count name w = None" "urt_dec_name_count i rel w = None"
    "urt_force_clear_name clr name w = None"
  using assms
  by (simp_all add: urt_reserve_name_def urt_inc_name_count_def urt_dec_name_count_def
      urt_get_object_by_name_and_inc_count_def urt_force_clear_name_def sem_wait_run)

section \<open>Writing one slot\<close>

lemma put_slot_simps [simp]:
  "objects (put_slot i ro m g) = (objects g)[i := ro]"
  "objects_max_index (put_slot i ro m g) = m"
  "next_free_name (put_slot i ro m g) = next_free_name g"
  "names_exhausted (put_slot i ro m g) = names_exhausted g"
  "initialized (put_slot i ro m g) = initialized g"
  "sizeof_urt_internal (put_slot i ro m g) = sizeof_urt_internal g"
  "sizeof_urt_registered_object (put_slot i ro m g) = sizeof_urt_registered_object g"
  by (simp_all add: put_slot_def)

lemma ro_update_put: "ro_update i f g = put_slot i (f (objects g ! i)) (objects_max_index g) g"
  by (simp add: ro_update_def put_slot_def)

lemma slot_field_simps [simp]:
  "ro_name (counted_slot ro) = ro_name ro" "ro_name (released_slot ro) = ro_name ro"
  "ro_type (counted_slot ro) = ro_type ro" "ro_type (released_slot ro) = ro_type ro"
  "ro_size (counted_slot ro) = ro_size ro" "ro_size (released_slot ro) = ro_size ro"
  "ro_count (counted_slot ro) = ro_count ro + 1" "\<not> ro_reserved (counted_slot ro)"
  "\<not> ro_reserved (released_slot ro)"
  "ro_count (released_slot ro) = (if ro_count ro = 0 then 0 else ro_count ro - 1)"
  "ro_reserved (reserved_slot name)" "ro_count (reserved_slot name) = 0" "ro_used (reserved_slot name)"
  "length (ro_name (reserved_slot name)) = 7" "cname (ro_name (reserved_slot name)) = cname name"
  by (simp_all add: counted_slot_def released_slot_def reserved_slot_def ro_used_def)

lemma ro_used_counted: "ro_used (counted_slot ro) \<longleftrightarrow> ro_count ro \<noteq> -1"
  by (simp add: ro_used_def eq_neg_iff_add_eq_0)

lemma ro_used_released: "ro_used (released_slot ro) \<longleftrightarrow> ro_count ro \<noteq> 0 \<and> ro_count ro \<noteq> 1"
  by (auto simp: ro_used_def)

lemma registry_inv_put:
  assumes "registry_inv g" and "i < URT_MAX_OBJECTS g" and "length (ro_name ro) = 7"
    and m: "m < URT_MAX_OBJECTS g" "ro_used ro \<Longrightarrow> i \<le> m"
      "\<And>j. j < URT_MAX_OBJECTS g \<Longrightarrow> j \<noteq> i \<Longrightarrow> ro_used (objects g ! j) \<Longrightarrow> j \<le> m"
    and fresh: "\<And>j. j < URT_MAX_OBJECTS g \<Longrightarrow> j \<noteq> i \<Longrightarrow> ro_used ro \<Longrightarrow> ro_used (objects g ! j) \<Longrightarrow>
      cname (ro_name (objects g ! j)) \<noteq> cname (ro_name ro)"
  shows "registry_inv (put_slot i ro m g)"
proof -
  have "used_bounded (put_slot i ro m g)"
    using assms by (auto simp: used_bounded_def nth_list_update)
  moreover have "used_distinct (put_slot i ro m g)"
    unfolding used_distinct_def
  proof (intro allI impI)
    fix a b
    assume ab: "a < URT_MAX_OBJECTS (put_slot i ro m g)" "b < URT_MAX_OBJECTS (put_slot i ro m g)"
      "ro_used (objects (put_slot i ro m g) ! a)" "ro_used (objects (put_slot i ro m g) ! b)"
      "cname (ro_name (objects (put_slot i ro m g) ! a)) = cname (ro_name (objects (put_slot i ro m g) ! b))"
    show "a = b"
    proof (cases "a = i \<or> b = i")
      case True
      with ab fresh [of a] fresh [of b] show ?thesis by (auto simp: nth_list_update split: if_splits)
    next
      case False
      with ab used_distinctD [OF registry_invD(3) [OF assms(1)], of a b] show ?thesis by simp
    qed
  qed
  ultimately show ?thesis
    using assms(1-3) m(1) by (auto simp: registry_inv_def nth_list_update)
qed

text \<open>A slot that keeps its name and does not come into use keeps the invariant.\<close>

lemma registry_inv_same_name:
  assumes "registry_inv g" and "i < URT_MAX_OBJECTS g" and "ro_name ro = ro_name (objects g ! i)"
    and "ro_used ro \<Longrightarrow> ro_used (objects g ! i)"
    and m: "m < URT_MAX_OBJECTS g" "ro_used ro \<Longrightarrow> i \<le> m"
      "\<And>j. j < URT_MAX_OBJECTS g \<Longrightarrow> j \<noteq> i \<Longrightarrow> ro_used (objects g ! j) \<Longrightarrow> j \<le> m"
  shows "registry_inv (put_slot i ro m g)"
proof (rule registry_inv_put [OF assms(1,2) _ m])
  show "length (ro_name ro) = 7" using assms(1-3) by (simp add: registry_invD)
  fix j assume "j < URT_MAX_OBJECTS g" "j \<noteq> i" "ro_used ro" "ro_used (objects g ! j)"
  then show "cname (ro_name (objects g ! j)) \<noteq> cname (ro_name ro)"
    using assms(2-4) used_distinctD [OF registry_invD(3) [OF assms(1)], of j i] by auto
qed

lemma name_table_eqI:
  assumes "used_distinct g" and "used_distinct g'"
    and "\<And>n i. i < URT_MAX_OBJECTS g' \<and> ro_used (objects g' ! i) \<and> cname (ro_name (objects g' ! i)) = n
      \<longleftrightarrow> t n = Some i"
  shows "name_table g' = t"
proof
  fix n show "name_table g' n = t n"
    using name_table_Some_iff [OF assms(2), of n] assms(3) [of _ n] by (cases "t n"; cases "name_table g' n") auto
qed

lemma name_table_put_used:
  assumes g: "registry_inv g" and g': "registry_inv (put_slot i ro m g)" and i: "i < URT_MAX_OBJECTS g"
    and "ro_used ro" and "ro_used (objects g ! i) \<Longrightarrow> cname (ro_name (objects g ! i)) = cname (ro_name ro)"
  shows "name_table (put_slot i ro m g) = (name_table g)(cname (ro_name ro) \<mapsto> i)"
proof (rule name_table_eqI [OF registry_invD(3) [OF g] registry_invD(3) [OF g']])
  fix n j
  have other: "cname (ro_name (objects g ! j)) \<noteq> cname (ro_name ro)"
    if "j \<noteq> i" "j < URT_MAX_OBJECTS g" "ro_used (objects g ! j)"
    using used_distinctD [OF registry_invD(3) [OF g'], of j i] that i assms(4) by auto
  show "j < URT_MAX_OBJECTS (put_slot i ro m g) \<and> ro_used (objects (put_slot i ro m g) ! j)
      \<and> cname (ro_name (objects (put_slot i ro m g) ! j)) = n
    \<longleftrightarrow> ((name_table g)(cname (ro_name ro) \<mapsto> i)) n = Some j"
    using other i assms(4,5) name_table_Some_iff [OF registry_invD(3) [OF g], of n j]
    by (cases "j = i") auto
qed

lemma name_table_put_free:
  assumes g: "registry_inv g" and g': "registry_inv (put_slot i ro m g)" and i: "i < URT_MAX_OBJECTS g"
    and "\<not> ro_used ro"
  shows "name_table (put_slot i ro m g) =
    (if ro_used (objects g ! i) then (name_table g)(cname (ro_name (objects g ! i)) := None) else name_table g)"
proof (rule name_table_eqI [OF registry_invD(3) [OF g] registry_invD(3) [OF g']])
  fix n j
  have other: "cname (ro_name (objects g ! j)) \<noteq> cname (ro_name (objects g ! i))"
    if "j \<noteq> i" "j < URT_MAX_OBJECTS g" "ro_used (objects g ! j)" "ro_used (objects g ! i)"
    using used_distinctD [OF registry_invD(3) [OF g], of j i] that i by auto
  show "j < URT_MAX_OBJECTS (put_slot i ro m g) \<and> ro_used (objects (put_slot i ro m g) ! j)
      \<and> cname (ro_name (objects (put_slot i ro m g) ! j)) = n
    \<longleftrightarrow> (if ro_used (objects g ! i) then (name_table g)(cname (ro_name (objects g ! i)) := None)
          else name_table g) n = Some j"
    using other i assms(4) name_table_Some_iff [OF registry_invD(3) [OF g], of n j]
    by (cases "j = i") auto
qed

section \<open>The operations keep the invariant\<close>

text \<open>The index \<^verbatim>\<open>_dec_count_common\<close> leaves in \<^verbatim>\<open>objects_max_index\<close>.\<close>

definition lowered_max :: "nat \<Rightarrow> urt_internal \<Rightarrow> nat" where
  "lowered_max i g =
     (if ro_count (released_slot (objects g ! i)) = 0 \<and> i = objects_max_index g
      then lower_index ((objects g)[i := released_slot (objects g ! i)]) i else objects_max_index g)"

lemma lowered_max_bounds:
  assumes "registry_inv g" and "i < URT_MAX_OBJECTS g"
  shows "lowered_max i g < URT_MAX_OBJECTS g"
    and "ro_used (released_slot (objects g ! i)) \<Longrightarrow> ro_used (objects g ! i) \<Longrightarrow> i \<le> lowered_max i g"
    and "j < URT_MAX_OBJECTS g \<Longrightarrow> j \<noteq> i \<Longrightarrow> ro_used (objects g ! j) \<Longrightarrow> j \<le> lowered_max i g"
proof -
  show "lowered_max i g < URT_MAX_OBJECTS g"
    using assms registry_invD(1) [OF assms(1)] lower_index_le [of _ i]
    by (auto simp: lowered_max_def intro: le_less_trans)
  show "i \<le> lowered_max i g" if "ro_used (released_slot (objects g ! i))" "ro_used (objects g ! i)"
    using that assms(2) used_boundedD [OF registry_invD(2) [OF assms(1)], of i]
    by (auto simp: lowered_max_def ro_used_def)
  show "j \<le> lowered_max i g" if j: "j < URT_MAX_OBJECTS g" "j \<noteq> i" "ro_used (objects g ! j)"
  proof (cases "lowered_max i g = objects_max_index g")
    case True
    with j used_boundedD [OF registry_invD(2) [OF assms(1)], of j] show ?thesis by simp
  next
    case False
    then have low: "lowered_max i g = lower_index ((objects g)[i := released_slot (objects g ! i)]) i"
      and "i = objects_max_index g" by (auto simp: lowered_max_def split: if_splits)
    with j used_boundedD [OF registry_invD(2) [OF assms(1)], of j] have "j \<le> i" by simp
    with j low lower_index_free [of "(objects g)[i := released_slot (objects g ! i)]" i j]
    show ?thesis by (auto simp: not_le [symmetric])
  qed
qed

lemma registry_inv_released [inv_intro]:
  assumes "registry_inv g" and "i < URT_MAX_OBJECTS g"
  shows "registry_inv (put_slot i (released_slot (objects g ! i)) (lowered_max i g) g)"
proof -
  have "ro_used (released_slot (objects g ! i)) \<Longrightarrow> ro_used (objects g ! i)"
    by (auto simp: ro_used_def split: if_splits)
  then show ?thesis
    using lowered_max_bounds [OF assms] by (intro registry_inv_same_name [OF assms]) auto
qed

lemma dec_count_common_eq:
  assumes "registry_inv (gmem w)" and "i < URT_MAX_OBJECTS (gmem w)"
  shows "dec_count_common i rel w =
    w\<lparr>gmem := put_slot i (released_slot (objects (gmem w) ! i)) (lowered_max i (gmem w)) (gmem w),
      gos := (case rel of None \<Rightarrow> gos w | Some f \<Rightarrow> f (released_slot (objects (gmem w) ! i)) (gos w))\<rparr>"
proof -
  let ?g = "gmem w" and ?ro = "released_slot (objects (gmem w) ! i)"
  have "used_bounded (put_slot i ?ro (lowered_max i ?g) ?g)"
    using registry_inv_released [OF assms] by (rule registry_invD(2))
  then have chk: "internal_mem_check (put_slot i ?ro (lowered_max i ?g) ?g) = (put_slot i ?ro (lowered_max i ?g) ?g, False)"
    by (rule internal_mem_check_id)
  have upd: "ro_update i (\<lambda>ro. ro\<lparr>ro_count := (if ro_count ro > 0 then ro_count ro - 1 else ro_count ro),
      ro_reserved := False\<rparr>) ?g = put_slot i ?ro (objects_max_index ?g) ?g"
    by (simp add: ro_update_put released_slot_def)
  have slot: "objects (put_slot i ?ro (objects_max_index ?g) ?g) ! i = ?ro"
    using assms(2) by simp
  show ?thesis
  proof (cases "ro_count ?ro = 0")
    case True
    then have "(if i = objects_max_index (put_slot i ?ro (objects_max_index ?g) ?g)
        then (put_slot i ?ro (objects_max_index ?g) ?g)
          \<lparr>objects_max_index := lower_index (objects (put_slot i ?ro (objects_max_index ?g) ?g)) i\<rparr>
        else put_slot i ?ro (objects_max_index ?g) ?g) = put_slot i ?ro (lowered_max i ?g) ?g"
      by (simp add: lowered_max_def put_slot_def)
    with True chk show ?thesis
      unfolding dec_count_common_def Let_def upd slot by simp
  next
    case False
    then show ?thesis
      unfolding dec_count_common_def Let_def upd slot by (simp add: lowered_max_def)
  qed
qed

lemma registry_inv_dec [inv_intro]:
  "registry_inv (gmem w) \<Longrightarrow> i < URT_MAX_OBJECTS (gmem w) \<Longrightarrow> registry_inv (gmem (dec_count_common i rel w))"
  by (simp add: dec_count_common_eq registry_inv_released)

lemma registry_inv_inc [inv_intro]:
  assumes "registry_inv g" and "i < URT_MAX_OBJECTS g" and "ro_used (objects g ! i)"
  shows "registry_inv (ro_update i counted_slot g)"
  unfolding ro_update_put
  using assms registry_invD(1) [OF assms(1)] used_boundedD [OF registry_invD(2) [OF assms(1)]]
  by (intro registry_inv_same_name) auto

lemma registry_inv_reserve [inv_intro]:
  assumes "registry_inv g" and "find_by_name g name = None"
    and "find_free_slot g < URT_MAX_OBJECTS g"
  shows "registry_inv (put_slot (find_free_slot g) (reserved_slot name)
    (max (objects_max_index g) (find_free_slot g)) g)"
proof (rule registry_inv_put [OF assms(1,3)])
  show "max (objects_max_index g) (find_free_slot g) < URT_MAX_OBJECTS g"
    using assms(3) registry_invD(1) [OF assms(1)] by simp
  fix j assume j: "j < URT_MAX_OBJECTS g" "ro_used (objects g ! j)"
  then show "j \<le> max (objects_max_index g) (find_free_slot g)"
    using used_boundedD [OF registry_invD(2) [OF assms(1)], of j] by simp
  show "cname (ro_name (objects g ! j)) \<noteq> cname (ro_name (reserved_slot name))"
    using assms(2) j find_by_name_Some_iff [OF assms(1), of name j] by auto
qed auto

lemma registry_inv_init:
  assumes "0 < URT_MAX_OBJECTS g" and "initialized g \<Longrightarrow> registry_inv g"
  shows "registry_inv (snd (urt_registry_init si so g))"
proof (cases "initialized g")
  case False
  have "gen_name (reset_name (replicate 7 NUL))"
    using gen_name_reset [of "replicate 7 NUL"] by simp
  moreover have "\<not> ro_used ro_zero" by simp
  ultimately show ?thesis
    using False assms(1)
    by (simp add: urt_registry_init_def registry_inv_def used_bounded_def used_distinct_def)
qed (simp add: urt_registry_init_def assms)

section \<open>Exactness of the maximum index\<close>

lemma tight_released:
  assumes "registry_inv g" and "i < URT_MAX_OBJECTS g" and "max_index_tight g"
  shows "max_index_tight (put_slot i (released_slot (objects g ! i)) (lowered_max i g) g)"
proof -
  let ?objs = "(objects g)[i := released_slot (objects g ! i)]"
  show ?thesis
  proof (cases "ro_count (released_slot (objects g ! i)) = 0 \<and> i = objects_max_index g")
    case True
    then have "lowered_max i g = lower_index ?objs i" unfolding lowered_max_def by (rule if_P)
    then show ?thesis
      using lower_index_used [of ?objs i] by (simp add: max_index_tight_def)
  next
    case False
    then show ?thesis
      using assms by (auto simp: max_index_tight_def lowered_max_def nth_list_update ro_used_def)
  qed
qed

lemma tight_reserve:
  "max_index_tight g \<Longrightarrow> i < URT_MAX_OBJECTS g \<Longrightarrow> \<not> ro_used (objects g ! i) \<Longrightarrow>
   max_index_tight (put_slot i (reserved_slot name) (max (objects_max_index g) i) g)"
  by (auto simp: max_index_tight_def max_def nth_list_update)

lemma tight_counted:
  "max_index_tight g \<Longrightarrow> i < URT_MAX_OBJECTS g \<Longrightarrow> ro_count (objects g ! i) \<noteq> -1 \<Longrightarrow>
   max_index_tight (ro_update i counted_slot g)"
  by (auto simp: max_index_tight_def ro_update_put nth_list_update ro_used_counted)

section \<open>Forced removal empties the slot\<close>

definition cleared_slot :: "urt_registered_object \<Rightarrow> urt_registered_object" where
  "cleared_slot ro = ro\<lparr>ro_count := 0, ro_reserved := False\<rparr>"

lemma cleared_slot_simps [simp]:
  "\<not> ro_used (cleared_slot ro)" "ro_name (cleared_slot ro) = ro_name ro"
  "cleared_slot (released_slot ro) = cleared_slot ro"
  "ro_count ro = 0 \<Longrightarrow> released_slot ro = cleared_slot ro"
  "ro_count (released_slot ro) = 0 \<Longrightarrow> released_slot ro = cleared_slot ro"
  by (simp_all add: cleared_slot_def released_slot_def ro_used_def)

lemma put_slot_put_slot [simp]: "put_slot i a m (put_slot i b m' g) = put_slot i a m g"
  by (simp add: put_slot_def)

lemma force_clear_loop_eq:
  assumes "registry_inv (gmem w)" and "i < URT_MAX_OBJECTS (gmem w)"
  shows "\<exists>m. force_clear_loop i w = w\<lparr>gmem := put_slot i (cleared_slot (objects (gmem w) ! i)) m (gmem w)\<rparr>
    \<and> registry_inv (put_slot i (cleared_slot (objects (gmem w) ! i)) m (gmem w))
    \<and> (max_index_tight (gmem w) \<longrightarrow> max_index_tight (put_slot i (cleared_slot (objects (gmem w) ! i)) m (gmem w)))"
  using assms
proof (induction i w rule: force_clear_loop.induct)
  case (1 i w)
  let ?w = "dec_count_common i None w" and ?ro = "objects (gmem w) ! i"
  have dec: "?w = w\<lparr>gmem := put_slot i (released_slot ?ro) (lowered_max i (gmem w)) (gmem w)\<rparr>"
    using "1.prems" by (simp add: dec_count_common_eq)
  have inv: "registry_inv (put_slot i (released_slot ?ro) (lowered_max i (gmem w)) (gmem w))"
    using "1.prems" by (rule registry_inv_released)
  have tight: "max_index_tight (gmem w) \<Longrightarrow>
      max_index_tight (put_slot i (released_slot ?ro) (lowered_max i (gmem w)) (gmem w))"
    using "1.prems" by (rule tight_released)
  show ?case
  proof (cases "ro_count (objects (gmem ?w) ! i) > 0")
    case True
    with "1.prems" have "force_clear_loop i w = force_clear_loop i ?w"
      by (simp add: force_clear_loop.simps [of i w] Let_def)
    moreover have "\<exists>m. force_clear_loop i ?w = ?w\<lparr>gmem := put_slot i (cleared_slot (objects (gmem ?w) ! i)) m (gmem ?w)\<rparr>
        \<and> registry_inv (put_slot i (cleared_slot (objects (gmem ?w) ! i)) m (gmem ?w))
        \<and> (max_index_tight (gmem ?w) \<longrightarrow> max_index_tight (put_slot i (cleared_slot (objects (gmem ?w) ! i)) m (gmem ?w)))"
      using True "1.prems" inv dec by (intro "1.IH") simp_all
    ultimately show ?thesis using "1.prems"(2) tight by (auto simp: dec)
  next
    case False
    then have "force_clear_loop i w = ?w"
      by (simp add: force_clear_loop.simps [of i w] Let_def)
    moreover have "released_slot ?ro = cleared_slot ?ro"
      using False "1.prems"(2) by (intro cleared_slot_simps(5)) (simp add: dec)
    ultimately show ?thesis using dec inv tight by auto
  qed
qed

section \<open>The registry as a table of names\<close>

text \<open>
  What a client may rely on, stated once over abstract operations: the table after a
  reservation, a count, a lookup and a release. \<open>users\<close> is the number of users of a slot,
  \<open>held\<close> says that a slot is counted or reserved.
\<close>

locale name_service =
  fixes inv :: "'g \<Rightarrow> bool"
    and table :: "'g \<Rightarrow> string \<Rightarrow> nat option"
    and users :: "'g \<Rightarrow> nat \<Rightarrow> u32"
    and reserve :: "string \<Rightarrow> 'g \<Rightarrow> (int + nat) \<times> 'g"
    and inc :: "nat \<Rightarrow> 'g \<Rightarrow> 'g"
    and dec :: "nat \<Rightarrow> 'g \<Rightarrow> 'g"
  assumes reserve_dup: "inv g \<Longrightarrow> table g (cname n) \<noteq> None \<Longrightarrow> reserve n g = (Inl EEXIST, g)"
    and reserve_new: "inv g \<Longrightarrow> reserve n g = (Inr i, g') \<Longrightarrow>
      inv g' \<and> table g (cname n) = None \<and> table g' = (table g)(cname n \<mapsto> i) \<and> users g' i = 0
      \<and> (\<forall>j. j \<noteq> i \<longrightarrow> users g' j = users g j)"
    and inc_table: "inv g \<Longrightarrow> table g n = Some i \<Longrightarrow> users g i \<noteq> -1 \<Longrightarrow>
      inv (inc i g) \<and> table (inc i g) = table g \<and> users (inc i g) i = users g i + 1
      \<and> (\<forall>j. j \<noteq> i \<longrightarrow> users (inc i g) j = users g j)"
    and dec_last: "inv g \<Longrightarrow> table g n = Some i \<Longrightarrow> users g i \<in> {0, 1} \<Longrightarrow>
      inv (dec i g) \<and> table (dec i g) = (table g)(n := None)"
    and dec_shared: "inv g \<Longrightarrow> table g n = Some i \<Longrightarrow> users g i \<notin> {0, 1} \<Longrightarrow>
      inv (dec i g) \<and> table (dec i g) = table g \<and> users (dec i g) i = users g i - 1"
begin

text \<open>Creating and then giving up an object leaves the table as it was.\<close>

lemma create_destroy:
  assumes "inv g" and "reserve n g = (Inr i, g')"
  shows "table (dec i (inc i g')) = table g"
proof -
  note r = reserve_new [OF assms]
  then have i: "inv (inc i g') \<and> table (inc i g') = table g' \<and> users (inc i g') i = 1"
    using inc_table [of g' "cname n" i] by auto
  then have "table (dec i (inc i g')) = (table g')(cname n := None)"
    using r dec_last [of "inc i g'" "cname n" i] by auto
  with r show ?thesis by (auto simp: fun_eq_iff)
qed

text \<open>An abandoned reservation leaves the table as it was.\<close>

lemma reserve_cancel:
  assumes "inv g" and "reserve n g = (Inr i, g')"
  shows "inv (dec i g') \<and> table (dec i g') = table g"
proof -
  note r = reserve_new [OF assms]
  with dec_last [of g' "cname n" i] have "inv (dec i g')" "table (dec i g') = (table g')(cname n := None)"
    by auto
  with r show ?thesis by (auto simp: fun_eq_iff)
qed

text \<open>A second reservation of a name in the table fails and changes nothing.\<close>

lemma reserve_twice:
  assumes "inv g" and "reserve n g = (Inr i, g')" and "cname n' = cname n"
  shows "reserve n' g' = (Inl EEXIST, g')"
  using reserve_new [OF assms(1,2)] assms(3) by (intro reserve_dup) auto

text \<open>Attaching and detaching again changes neither the table nor the number of users.\<close>

lemma attach_detach:
  assumes "inv g" and "table g n = Some i" and "users g i \<noteq> 0" and "users g i \<noteq> -1"
  shows "table (dec i (inc i g)) = table g" and "users (dec i (inc i g)) i = users g i"
proof -
  have i: "inv (inc i g)" "table (inc i g) = table g" "users (inc i g) i = users g i + 1"
    using inc_table [OF assms(1,2,4)] by auto
  have "users (inc i g) i \<notin> {0, 1}"
    using assms(3,4) u32_inc_nonzero by (auto simp: i(3))
  from dec_shared [OF i(1) _ this, of n] i assms(2)
  show "table (dec i (inc i g)) = table g" and "users (dec i (inc i g)) i = users g i" by auto
qed

end

lemma name_table_invD:
  assumes "registry_inv g" and "name_table g n = Some i"
  shows "i < URT_MAX_OBJECTS g" and "ro_used (objects g ! i)" and "cname (ro_name (objects g ! i)) = n"
  using assms name_table_Some_iff [OF registry_invD(3) [OF assms(1)]] by auto

lemma name_table_inc:
  assumes "registry_inv g" and "i < URT_MAX_OBJECTS g" and "ro_used (objects g ! i)"
    and "ro_count (objects g ! i) \<noteq> -1"
  shows "name_table (ro_update i counted_slot g) = name_table g"
proof -
  let ?n = "cname (ro_name (objects g ! i))"
  have "name_table (ro_update i counted_slot g) = (name_table g)(?n \<mapsto> i)"
    using assms registry_inv_inc [OF assms(1-3)] name_table_put_used [OF assms(1) _ assms(2), of "counted_slot (objects g ! i)"]
    by (simp add: ro_update_put ro_used_counted)
  moreover have "name_table g ?n = Some i"
    using assms by (simp add: name_table_Some_iff registry_invD)
  ultimately show ?thesis by (simp add: map_upd_triv)
qed

lemma name_table_released:
  assumes "registry_inv g" and "i < URT_MAX_OBJECTS g" and "ro_used (objects g ! i)"
  shows "name_table (put_slot i (released_slot (objects g ! i)) (lowered_max i g) g) =
    (if ro_count (objects g ! i) \<in> {0, 1} then (name_table g)(cname (ro_name (objects g ! i)) := None)
     else name_table g)"
proof (cases "ro_count (objects g ! i) \<in> {0, 1}")
  case True
  then show ?thesis
    using assms registry_inv_released [OF assms(1,2)]
    by (subst name_table_put_free) (auto simp: ro_used_released)
next
  case False
  have "name_table g (cname (ro_name (objects g ! i))) = Some i"
    using assms by (simp add: name_table_Some_iff registry_invD)
  then show ?thesis
    using False assms registry_inv_released [OF assms(1,2)]
    by (subst name_table_put_used) (auto simp: ro_used_released map_upd_triv)
qed

lemma name_table_reserved:
  assumes "registry_inv g" and "find_by_name g name = None" and "find_free_slot g < URT_MAX_OBJECTS g"
  shows "name_table (put_slot (find_free_slot g) (reserved_slot name) (max (objects_max_index g) (find_free_slot g)) g)
    = (name_table g)(cname name \<mapsto> find_free_slot g)"
  using assms registry_inv_reserve [OF assms] find_free_slot_free [OF assms(3)]
  by (subst name_table_put_used) auto

interpretation reg: name_service
  "\<lambda>w. registry_inv (gmem w) \<and> 0 < gsem w" "\<lambda>w. name_table (gmem w)"
  "\<lambda>w i. ro_count (objects (gmem w) ! i)"
  "\<lambda>n w. the (urt_reserve_name n w)" "\<lambda>i w. the (urt_inc_name_count i w)"
  "\<lambda>i w. the (urt_dec_name_count i rel w)" for rel
proof (unfold_locales, goal_cases)
  case (1 w n)
  then show ?case by (simp add: urt_reserve_name_run find_by_name_table)
next
  case (2 w n i w')
  then have w': "find_by_name (gmem w) n = None" "find_free_slot (gmem w) < URT_MAX_OBJECTS (gmem w)"
    "i = find_free_slot (gmem w)"
    "gmem w' = put_slot i (reserved_slot n) (max (objects_max_index (gmem w)) i) (gmem w)" "gsem w' = gsem w"
    using find_free_slot_le [of "gmem w"] by (auto simp: urt_reserve_name_run split: if_splits)
  with 2 show ?case
    using registry_inv_reserve name_table_reserved by (auto simp: find_by_name_table [symmetric])
next
  case (3 w n i)
  then show ?case
    using name_table_invD [of "gmem w" n i]
    by (auto simp: urt_inc_name_count_run registry_inv_inc name_table_inc objects_ro_update)
next
  case (4 w n i)
  then show ?case
    using name_table_invD [of "gmem w" n i]
    by (simp add: urt_dec_name_count_run dec_count_common_eq registry_inv_released name_table_released)
next
  case (5 w n i)
  then show ?case
    using name_table_invD [of "gmem w" n i]
    by (simp add: urt_dec_name_count_run dec_count_common_eq registry_inv_released name_table_released)
qed

section \<open>Reachable registries\<close>

text \<open>
  The critical sections as steps. A counted slot is in use (it was reserved by the caller
  or found by name) and its 32-bit counter is not at its maximum.
\<close>

inductive registry_step :: "'os urt_global \<Rightarrow> 'os urt_global \<Rightarrow> bool" where
  reserve: "urt_reserve_name name w = Some (r, w') \<Longrightarrow> registry_step w w'"
| count: "i < URT_MAX_OBJECTS (gmem w) \<Longrightarrow> ro_used (objects (gmem w) ! i) \<Longrightarrow>
    ro_count (objects (gmem w) ! i) \<noteq> -1 \<Longrightarrow> urt_inc_name_count i w = Some w' \<Longrightarrow> registry_step w w'"
| lookup: "urt_get_object_by_name_and_inc_count name w = Some (r, w') \<Longrightarrow>
    (\<forall>i. r = Some i \<longrightarrow> ro_count (objects (gmem w) ! i) \<noteq> -1) \<Longrightarrow> registry_step w w'"
| release: "i < URT_MAX_OBJECTS (gmem w) \<Longrightarrow> urt_dec_name_count i rel w = Some w' \<Longrightarrow> registry_step w w'"
| clear: "urt_force_clear_name clr name w = Some w' \<Longrightarrow> registry_step w w'"

inductive registry_reachable :: "u64 \<Rightarrow> u64 \<Rightarrow> nat \<Rightarrow> 'os urt_global \<Rightarrow> bool" for si so n where
  start: "0 < n \<Longrightarrow> \<not> initialized g \<Longrightarrow> URT_MAX_OBJECTS g = n \<Longrightarrow>
    registry_reachable si so n \<lparr>gmem = snd (urt_registry_init si so g), gsem = 1, gos = os\<rparr>"
| step: "registry_reachable si so n w \<Longrightarrow> registry_step w w' \<Longrightarrow> registry_reachable si so n w'"

inductive_cases registry_stepE: "registry_step w w'"

lemma gsem_some:
  "urt_reserve_name name w = Some (r, w') \<Longrightarrow> 0 < gsem w"
  "urt_inc_name_count i w = Some w'' \<Longrightarrow> 0 < gsem w"
  "urt_get_object_by_name_and_inc_count name w = Some (r', w') \<Longrightarrow> 0 < gsem w"
  "urt_dec_name_count i rel w = Some w'' \<Longrightarrow> 0 < gsem w"
  "urt_force_clear_name clr name w = Some w'' \<Longrightarrow> 0 < gsem w"
  using registry_blocked by (metis gr0I option.distinct(1))+

lemma urt_force_clear_name_run:
  assumes "registry_inv (gmem w)" and "0 < gsem w"
  shows "\<exists>m. urt_force_clear_name clr name w = Some
    (case find_by_name (gmem w) name of None \<Rightarrow> w
     | Some i \<Rightarrow> w\<lparr>gmem := put_slot i (cleared_slot (objects (gmem w) ! i)) m (gmem w),
                   gos := clr (objects (gmem w) ! i) (gos w)\<rparr>)
    \<and> (\<forall>i. find_by_name (gmem w) name = Some i \<longrightarrow>
        registry_inv (put_slot i (cleared_slot (objects (gmem w) ! i)) m (gmem w))
        \<and> (max_index_tight (gmem w) \<longrightarrow> max_index_tight (put_slot i (cleared_slot (objects (gmem w) ! i)) m (gmem w))))"
proof (cases "find_by_name (gmem w) name")
  case None
  then show ?thesis
    using assms(2) by (simp add: urt_force_clear_name_def sem_wait_run urt_global_sem_post_def Let_def)
next
  case (Some i)
  then have i: "i < URT_MAX_OBJECTS (gmem w)" using find_by_name_Some_iff [OF assms(1)] by simp
  let ?w = "w\<lparr>gsem := gsem w - 1, gos := clr (objects (gmem w) ! i) (gos w)\<rparr>"
  from force_clear_loop_eq [of ?w i] assms(1) i obtain m where
    m: "force_clear_loop i ?w = ?w\<lparr>gmem := put_slot i (cleared_slot (objects (gmem w) ! i)) m (gmem w)\<rparr>"
      "registry_inv (put_slot i (cleared_slot (objects (gmem w) ! i)) m (gmem w))
       \<and> (max_index_tight (gmem w) \<longrightarrow> max_index_tight (put_slot i (cleared_slot (objects (gmem w) ! i)) m (gmem w)))"
    by auto
  then show ?thesis
    using assms(2) Some
    by (intro exI [of _ m]) (simp add: urt_force_clear_name_def sem_wait_run urt_global_sem_post_def Let_def)
qed

lemma force_clear_known:
  assumes "registry_inv (gmem w)" and "0 < gsem w" and "name_table (gmem w) (cname name) = Some i"
  shows "\<exists>g. urt_force_clear_name clr name w = Some (w\<lparr>gmem := g, gos := clr (objects (gmem w) ! i) (gos w)\<rparr>)
    \<and> registry_inv g \<and> name_table g = (name_table (gmem w))(cname name := None)
    \<and> objects g = (objects (gmem w))[i := cleared_slot (objects (gmem w) ! i)]"
proof -
  have f: "find_by_name (gmem w) name = Some i" using assms(1,3) by (simp add: find_by_name_table)
  with urt_force_clear_name_run [OF assms(1,2), of clr name] obtain m where
    m: "urt_force_clear_name clr name w = Some (w\<lparr>gmem := put_slot i (cleared_slot (objects (gmem w) ! i)) m (gmem w),
          gos := clr (objects (gmem w) ! i) (gos w)\<rparr>)"
      "registry_inv (put_slot i (cleared_slot (objects (gmem w) ! i)) m (gmem w))"
    by auto
  note i = name_table_invD [OF assms(1,3)]
  have "name_table (put_slot i (cleared_slot (objects (gmem w) ! i)) m (gmem w)) = (name_table (gmem w))(cname name := None)"
    using name_table_put_free [OF assms(1) m(2) i(1)] i(2,3) by simp
  with m show ?thesis by (auto simp: put_slot_def)
qed

lemma force_clear_unknown:
  assumes "registry_inv (gmem w)" and "0 < gsem w" and "name_table (gmem w) (cname name) = None"
  shows "urt_force_clear_name clr name w = Some w"
  using urt_force_clear_name_run [OF assms(1,2), of clr name] assms by (auto simp: find_by_name_table)

lemma registry_step_inv:
  assumes "registry_step w w'" and "registry_inv (gmem w) \<and> max_index_tight (gmem w)"
  shows "registry_inv (gmem w') \<and> max_index_tight (gmem w') \<and> gsem w' = gsem w
    \<and> URT_MAX_OBJECTS (gmem w') = URT_MAX_OBJECTS (gmem w)"
  using assms
proof (induction rule: registry_step.induct)
  case (reserve name w r w')
  then show ?case
    using gsem_some(1) [OF reserve.hyps] find_free_slot_le [of "gmem w"] find_free_slot_free [of "gmem w"]
    by (auto simp: urt_reserve_name_run registry_inv_reserve tight_reserve split: if_splits)
next
  case (count i w w')
  then show ?case
    using gsem_some(2) [OF count.hyps(4)] by (auto simp: urt_inc_name_count_run registry_inv_inc tight_counted)
next
  case (lookup name w r w')
  then have w': "w' = (case find_by_name (gmem w) name of None \<Rightarrow> w
      | Some i \<Rightarrow> w\<lparr>gmem := ro_update i counted_slot (gmem w)\<rparr>)" and r: "r = find_by_name (gmem w) name"
    using gsem_some(3) [OF lookup.hyps(1)] by (auto simp: urt_get_object_run)
  show ?case
  proof (cases "find_by_name (gmem w) name")
    case (Some i)
    with lookup.prems have "i < URT_MAX_OBJECTS (gmem w)" "ro_used (objects (gmem w) ! i)"
      by (simp_all add: find_by_name_Some_iff)
    with lookup.prems lookup.hyps(2) Some r show ?thesis by (simp add: w' registry_inv_inc tight_counted)
  qed (simp add: w' lookup.prems)
next
  case (release i w rel w')
  then show ?case
    using gsem_some(4) [OF release.hyps(2)]
    by (auto simp: urt_dec_name_count_run dec_count_common_eq registry_inv_released tight_released)
next
  case (clear clr name w w')
  then show ?case
    using urt_force_clear_name_run [of w clr name] gsem_some(5) [OF clear.hyps]
    by (auto split: option.splits)
qed

lemma registry_reachable_inv:
  "registry_reachable si so n w \<Longrightarrow>
   registry_inv (gmem w) \<and> max_index_tight (gmem w) \<and> gsem w = 1 \<and> URT_MAX_OBJECTS (gmem w) = n"
proof (induction rule: registry_reachable.induct)
  case (start g os)
  then show ?case
    using registry_inv_init [of g si so] by (auto simp: urt_registry_init_def max_index_tight_def)
next
  case (step w w')
  then show ?case using registry_step_inv [of w w'] by simp
qed

section \<open>Example states\<close>

text \<open>
  A registry of two slots in freshly created (zero-filled) memory, initialised; then with the
  name \<^verbatim>\<open>AB\<close> reserved, and counted once.
\<close>

definition zero_memory :: "nat \<Rightarrow> urt_internal" where
  "zero_memory n = \<lparr>sizeof_urt_internal = 0, sizeof_urt_registered_object = 0,
     objects = replicate n ro_zero, objects_max_index = 0,
     next_free_name = replicate (URT_NAME_LEN + 1) NUL, names_exhausted = False, initialized = False\<rparr>"

definition demo_empty :: "unit urt_global" where
  "demo_empty = \<lparr>gmem = snd (urt_registry_init 96 32 (zero_memory 2)), gsem = 1, gos = ()\<rparr>"

definition demo_reserved :: "unit urt_global" where
  "demo_reserved = snd (the (urt_reserve_name ''AB'' demo_empty))"

definition demo_shared :: "unit urt_global" where
  "demo_shared = the (urt_inc_name_count 0 demo_reserved)"

lemma demo_empty_reachable: "registry_reachable 96 32 2 demo_empty"
  unfolding demo_empty_def by (rule registry_reachable.start) (simp_all add: zero_memory_def)

lemma demo_reserved_run: "urt_reserve_name ''AB'' demo_empty = Some (Inr 0, demo_reserved)"
  by code_simp

lemma demo_reserved_reachable: "registry_reachable 96 32 2 demo_reserved"
  using registry_reachable.step [OF demo_empty_reachable registry_step.reserve [OF demo_reserved_run]] .

lemma demo_shared_run: "urt_inc_name_count 0 demo_reserved = Some demo_shared"
  by code_simp

lemma demo_shared_reachable: "registry_reachable 96 32 2 demo_shared"
proof (rule registry_reachable.step [OF demo_reserved_reachable registry_step.count])
  show "0 < URT_MAX_OBJECTS (gmem demo_reserved)" by code_simp
  show "ro_used (objects (gmem demo_reserved) ! 0)" by code_simp
  show "ro_count (objects (gmem demo_reserved) ! 0) \<noteq> -1" by code_simp
  show "urt_inc_name_count 0 demo_reserved = Some demo_shared" by (rule demo_shared_run)
qed

lemmas demo_inv = registry_reachable_inv [OF demo_empty_reachable]
  registry_reachable_inv [OF demo_reserved_reachable] registry_reachable_inv [OF demo_shared_reachable]

section \<open>Properties\<close>



text \<open>
  C9: The scan of \<^verbatim>\<open>_find_by_name\<close>, which stops at \<^verbatim>\<open>objects_max_index\<close> and compares at
  most six characters, returns exactly what the table of all slots in use gives for the
  canonical name.
\<close>

theorem find_by_name_is_table_lookup:
  assumes "registry_inv g"
  shows "find_by_name g name = name_table g (cname name)"
  using assms by (rule find_by_name_table)

theorem find_by_name_is_table_lookup_witness:
  "find_by_name (gmem demo_shared) ''AB'' = Some 0 \<and> name_table (gmem demo_shared) ''AB'' = Some 0"
proof -
  have "find_by_name (gmem demo_shared) ''AB'' = name_table (gmem demo_shared) (cname ''AB'')"
    using demo_inv by (intro find_by_name_is_table_lookup) blast
  moreover have "cname ''AB'' = ''AB''" "find_by_name (gmem demo_shared) ''AB'' = Some 0"
    by code_simp+
  ultimately show ?thesis by simp
qed

text \<open>
  C18: \<^verbatim>\<open>urt_reserve_name\<close> on every branch: a name already in the table fails with
  \<^verbatim>\<open>EEXIST\<close> and changes nothing; otherwise, with every slot in use, it fails with
  \<^verbatim>\<open>ENOSPC\<close> and changes nothing; otherwise the lowest unused slot is reserved under
  exactly that name with count 0, every other entry and slot stays as it is, and the
  invariant is kept.
\<close>

theorem reserve_name_behaviour:
  assumes "registry_inv (gmem w)" and "0 < gsem w"
  shows "if name_table (gmem w) (cname name) \<noteq> None then urt_reserve_name name w = Some (Inl EEXIST, w)
    else if \<forall>i<URT_MAX_OBJECTS (gmem w). ro_used (objects (gmem w) ! i)
    then urt_reserve_name name w = Some (Inl ENOSPC, w)
    else \<exists>i w'. urt_reserve_name name w = Some (Inr i, w') \<and> i < URT_MAX_OBJECTS (gmem w)
      \<and> \<not> ro_used (objects (gmem w) ! i) \<and> (\<forall>j<i. ro_used (objects (gmem w) ! j))
      \<and> ro_reserved (objects (gmem w') ! i) \<and> ro_count (objects (gmem w') ! i) = 0
      \<and> name_table (gmem w') = (name_table (gmem w))(cname name \<mapsto> i)
      \<and> (\<forall>j. j \<noteq> i \<longrightarrow> objects (gmem w') ! j = objects (gmem w) ! j)
      \<and> registry_inv (gmem w') \<and> gsem w' = gsem w \<and> gos w' = gos w"
proof -
  let ?g = "gmem w" and ?i = "find_free_slot (gmem w)"
  have low: "\<forall>j<?i. ro_used (objects ?g ! j)"
    using for_break_before [of 0 _ "\<lambda>i. \<not> ro_reserved (objects ?g ! i) \<and> ro_count (objects ?g ! i) = 0"]
    unfolding find_free_slot_def ro_used_iff by blast
  show ?thesis
  proof (cases "name_table ?g (cname name)")
    case (Some k)
    then show ?thesis using assms by (simp add: urt_reserve_name_run find_by_name_table)
  next
    case None
    then have none: "find_by_name ?g name = None" using assms(1) by (simp add: find_by_name_table)
    show ?thesis
    proof (cases "?i = URT_MAX_OBJECTS ?g")
      case True
      then show ?thesis
        using none None assms low by (simp add: urt_reserve_name_run)
    next
      case False
      with find_free_slot_le [of ?g] have i: "?i < URT_MAX_OBJECTS ?g" by simp
      note free = find_free_slot_free [OF i]
      from i free have "\<not> (\<forall>i<URT_MAX_OBJECTS ?g. ro_used (objects ?g ! i))" by blast
      with none None i free low assms show ?thesis
        by (simp add: urt_reserve_name_run registry_inv_reserve name_table_reserved)
    qed
  qed
qed

theorem reserve_name_behaviour_witness:
  "urt_reserve_name ''AB'' demo_shared = Some (Inl EEXIST, demo_shared)
   \<and> (\<exists>w'. urt_reserve_name ''C'' demo_shared = Some (Inr 1, w')
        \<and> name_table (gmem w') = (name_table (gmem demo_shared))(''C'' \<mapsto> 1))"
proof -
  have h: "registry_inv (gmem demo_shared)" "0 < gsem demo_shared" using demo_inv by simp_all
  have ev: "name_table (gmem demo_shared) (cname ''AB'') \<noteq> None"
    "\<not> name_table (gmem demo_shared) (cname ''C'') \<noteq> None"
    "\<not> (\<forall>i<URT_MAX_OBJECTS (gmem demo_shared). ro_used (objects (gmem demo_shared) ! i))"
    "map_option fst (urt_reserve_name ''C'' demo_shared) = Some (Inr 1)" "cname ''C'' = ''C''"
    by code_simp+
  have "urt_reserve_name ''AB'' demo_shared = Some (Inl EEXIST, demo_shared)"
    using reserve_name_behaviour [OF h, of "''AB''", unfolded if_P [OF ev(1)]] .
  moreover have "\<exists>w'. urt_reserve_name ''C'' demo_shared = Some (Inr 1, w')
        \<and> name_table (gmem w') = (name_table (gmem demo_shared))(''C'' \<mapsto> 1)"
    using reserve_name_behaviour [OF h, of "''C''", unfolded if_not_P [OF ev(2)] if_not_P [OF ev(3)]] ev(4,5)
    by (elim exE conjE) (simp del: fun_upd_apply)
  ultimately show ?thesis ..
qed

text \<open>
  C19: Releasing a user of a named slot (\<^verbatim>\<open>urt_dec_name_count\<close>): the callback runs exactly
  once and sees the count already decremented; the name leaves the table exactly when the
  released user was the last one, other slots are untouched and the invariant is kept.
\<close>

theorem release_behaviour:
  assumes "registry_inv (gmem w)" and "0 < gsem w" and "name_table (gmem w) n = Some i"
    and "unat (ro_count (objects (gmem w) ! i)) = Suc c"
  shows "\<exists>w'. urt_dec_name_count i (Some f) w = Some w'
    \<and> unat (ro_count (objects (gmem w') ! i)) = c
    \<and> gos w' = f (objects (gmem w') ! i) (gos w)
    \<and> name_table (gmem w') = (if c = 0 then (name_table (gmem w))(n := None) else name_table (gmem w))
    \<and> (\<forall>j. j \<noteq> i \<longrightarrow> objects (gmem w') ! j = objects (gmem w) ! j)
    \<and> registry_inv (gmem w') \<and> gsem w' = gsem w"
proof -
  let ?c = "ro_count (objects (gmem w) ! i)"
  note i = name_table_invD [OF assms(1,3)]
  have c: "?c \<noteq> 0" "unat (?c - 1) = c" "?c = 1 \<longleftrightarrow> c = 0"
    using assms(4) by (auto simp: unat_minus_one word_unat_eq_iff)
  let ?w = "dec_count_common i (Some f) w"
  have w: "urt_dec_name_count i (Some f) w = Some ?w" using assms(2) by (rule urt_dec_name_count_run)
  have "objects (gmem ?w) ! i = released_slot (objects (gmem w) ! i)"
    "gos ?w = f (released_slot (objects (gmem w) ! i)) (gos w)"
    "\<forall>j. j \<noteq> i \<longrightarrow> objects (gmem ?w) ! j = objects (gmem w) ! j"
    "name_table (gmem ?w) = (if c = 0 then (name_table (gmem w))(n := None) else name_table (gmem w))"
    using assms(1) i c by (simp_all add: dec_count_common_eq name_table_released)
  with w c show ?thesis
    using registry_inv_dec [OF assms(1) i(1)] by simp
qed

theorem release_behaviour_witness:
  "\<exists>w'. urt_dec_name_count 0 (Some (\<lambda>ro os. os)) demo_shared = Some w'
    \<and> name_table (gmem w') = (name_table (gmem demo_shared))(''AB'' := None) \<and> registry_inv (gmem w')"
proof -
  have h: "registry_inv (gmem demo_shared)" "0 < gsem demo_shared" using demo_inv by simp_all
  have ev: "name_table (gmem demo_shared) ''AB'' = Some 0"
    "unat (ro_count (objects (gmem demo_shared) ! 0)) = Suc 0"
    by code_simp+
  show ?thesis using release_behaviour [OF h ev, of "\<lambda>ro os. os"] by auto
qed

text \<open>
  \<^verbatim>\<open>urt_force_clear_name\<close> returns whatever the counter of the named slot is, runs the
  back-end's cleanup exactly once with the slot as it was, takes the name out of the table and
  keeps the invariant; a name that is not in the table changes nothing.
\<close>

theorem force_clear_behaviour:
  assumes "registry_inv (gmem w)" and "0 < gsem w"
  shows "\<exists>w'. urt_force_clear_name clr name w = Some w' \<and> registry_inv (gmem w') \<and> gsem w' = gsem w
    \<and> name_table (gmem w') = (name_table (gmem w))(cname name := None)
    \<and> (case name_table (gmem w) (cname name) of None \<Rightarrow> w' = w
        | Some i \<Rightarrow> gos w' = clr (objects (gmem w) ! i) (gos w) \<and> \<not> ro_used (objects (gmem w') ! i)
            \<and> (\<forall>j. j \<noteq> i \<longrightarrow> objects (gmem w') ! j = objects (gmem w) ! j))"
proof (cases "name_table (gmem w) (cname name)")
  case None
  with force_clear_unknown [OF assms None] assms show ?thesis by (auto simp: fun_eq_iff)
next
  case (Some i)
  from force_clear_known [OF assms Some, of clr] obtain g where
    "urt_force_clear_name clr name w = Some (w\<lparr>gmem := g, gos := clr (objects (gmem w) ! i) (gos w)\<rparr>)"
    "registry_inv g" "name_table g = (name_table (gmem w))(cname name := None)"
    "objects g = (objects (gmem w))[i := cleared_slot (objects (gmem w) ! i)]" by blast
  with Some name_table_invD(1) [OF assms(1) Some] show ?thesis by simp
qed

theorem force_clear_behaviour_witness:
  "\<exists>w'. urt_force_clear_name (\<lambda>ro os. os) ''AB'' demo_shared = Some w'
    \<and> name_table (gmem w') = (name_table (gmem demo_shared))(''AB'' := None)"
proof -
  have h: "registry_inv (gmem demo_shared)" "0 < gsem demo_shared" using demo_inv by simp_all
  have "cname ''AB'' = ''AB''" by code_simp
  with force_clear_behaviour [OF h, of "\<lambda>ro os. os" "''AB''"] show ?thesis by auto
qed

text \<open>
  Round trips over the table: an object that is created (reserved, counted) and given up
  again leaves the table of names as it was before, whatever callback the release runs; so
  does an abandoned reservation.
\<close>

theorem create_then_release_restores_table:
  assumes "registry_inv (gmem w)" and "0 < gsem w" and "urt_reserve_name name w = Some (Inr i, w1)"
  shows "name_table (gmem (the (urt_dec_name_count i rel (the (urt_inc_name_count i w1))))) = name_table (gmem w)
    \<and> name_table (gmem (the (urt_dec_name_count i rel w1))) = name_table (gmem w)"
  using reg.create_destroy [of w name i w1] reg.reserve_cancel [of w name i w1] assms by auto

theorem create_then_release_restores_table_witness:
  "name_table (gmem (the (urt_dec_name_count 0 None (the (urt_inc_name_count 0 demo_reserved)))))
     = name_table (gmem demo_empty)"
proof (rule create_then_release_restores_table [THEN conjunct1])
  show "registry_inv (gmem demo_empty)" "0 < gsem demo_empty" using demo_inv by simp_all
  show "urt_reserve_name ''AB'' demo_empty = Some (Inr 0, demo_reserved)" by (rule demo_reserved_run)
qed

text \<open>
  C38: The counter of users is a 32-bit value without an overflow check: one more attach to a
  slot that already has \<open>2 ^ 32 - 1\<close> users makes the slot look unused and takes its name out
  of the table while all of them still hold it.
\<close>

theorem attach_overflow_drops_object:
  assumes "registry_inv (gmem w)" and "0 < gsem w" and "name_table (gmem w) (cname name) = Some i"
    and "unat (ro_count (objects (gmem w) ! i)) = 2 ^ 32 - 1"
  shows "\<exists>w'. urt_get_object_by_name_and_inc_count name w = Some (Some i, w')
    \<and> \<not> ro_used (objects (gmem w') ! i) \<and> name_table (gmem w') (cname name) = None"
proof -
  note i = name_table_invD [OF assms(1,3)]
  have c: "ro_count (objects (gmem w) ! i) = -1"
    using assms(4) by (rule u32_max)
  let ?g = "ro_update i counted_slot (gmem w)"
  have u: "\<not> ro_used (counted_slot (objects (gmem w) ! i))" using c by (simp add: ro_used_counted)
  have "name_table ?g (cname name) = None"
    using name_table_put_free [OF assms(1) _ i(1) u] registry_inv_inc [OF assms(1) i(1,2)] i(2,3)
    by (simp add: ro_update_put)
  then show ?thesis
    using assms i u by (simp add: urt_get_object_run find_by_name_table objects_ro_update)
qed

definition demo_full :: "unit urt_global" where
  "demo_full = demo_shared\<lparr>gmem := ro_update 0 (\<lambda>ro. ro\<lparr>ro_count := -1\<rparr>) (gmem demo_shared)\<rparr>"

lemma demo_full_inv: "registry_inv (gmem demo_full)"
proof -
  have pos: "0 < URT_MAX_OBJECTS (gmem demo_shared)" by code_simp
  have "registry_inv (put_slot 0 ((objects (gmem demo_shared) ! 0)\<lparr>ro_count := -1\<rparr>) 0 (gmem demo_shared))"
  proof (rule registry_inv_same_name)
    show "0 < URT_MAX_OBJECTS (gmem demo_shared)" by (rule pos)
    show "registry_inv (gmem demo_shared)" using demo_inv by blast
    show "0 < URT_MAX_OBJECTS (gmem demo_shared)" by (rule pos)
    show "ro_used (objects (gmem demo_shared) ! 0)" by code_simp
    show "j \<le> 0" if "j < URT_MAX_OBJECTS (gmem demo_shared)" "ro_used (objects (gmem demo_shared) ! j)" for j
    proof -
      have "\<forall>j \<in> set [0..<URT_MAX_OBJECTS (gmem demo_shared)]. ro_used (objects (gmem demo_shared) ! j) \<longrightarrow> j = 0"
        by code_simp
      with that show ?thesis by simp
    qed
  qed simp_all
  moreover have "objects_max_index (gmem demo_shared) = 0" by code_simp
  ultimately show ?thesis by (simp add: demo_full_def ro_update_put)
qed

theorem attach_overflow_drops_object_witness:
  "\<exists>w'. urt_get_object_by_name_and_inc_count ''AB'' demo_full = Some (Some 0, w')
    \<and> name_table (gmem w') ''AB'' = None"
proof -
  have ev: "0 < gsem demo_full" "name_table (gmem demo_full) (cname ''AB'') = Some 0"
    "ro_count (objects (gmem demo_full) ! 0) = -1" "cname ''AB'' = ''AB''"
    by code_simp+
  then have "unat (ro_count (objects (gmem demo_full) ! 0)) = 2 ^ 32 - 1" by (simp add: u32_max_unat)
  from attach_overflow_drops_object [OF demo_full_inv ev(1,2) this] ev(4) show ?thesis by auto
qed

end
