(* ===== verification/Urt_Free_Names.thy ===== *)
theory Urt_Free_Names
  imports Urt_Registry
begin

text \<open>
  Generated names (\<^verbatim>\<open>urt_get_free_name\<close> and \<^verbatim>\<open>_check_and_get_free_name\<close> of
  \<^verbatim>\<open>src/registry.c\<close>). While the counter has not wrapped, every call returns a new name
  without looking at the registry; afterwards the names are tried in turn until one is not in
  use. The search is a loop with no bound of its own: it is a partial function, and the lemmas
  show that it returns whenever the registry has fewer than \<open>37 ^ 5\<close> slots.
\<close>

section \<open>Definitions\<close>

text \<open>\<^verbatim>\<open>strncpy(dst, src, n)\<close>: copies up to the NUL, pads with NUL to \<open>n\<close> characters.\<close>

definition strncpy :: "string \<Rightarrow> string \<Rightarrow> nat \<Rightarrow> string" where
  "strncpy dst src n = take n (cstr src @ replicate n NUL) @ drop n dst"

partial_function (option) check_and_get_free_name :: "string \<Rightarrow> urt_internal \<Rightarrow> (string \<times> urt_internal) option" where
  "check_and_get_free_name name g =
     (let name' = strncpy name (next_free_name g) URT_NAME_LEN;
          ret = fst (increment_name (next_free_name g));
          g' = g\<lparr>next_free_name := snd (increment_name (next_free_name g))\<rparr>
      in if ret < 0 \<or> find_by_name g' name' \<noteq> None then check_and_get_free_name name' g'
         else Some (name', g'))"

text \<open>The result is the return code, the caller's buffer and the state.\<close>

definition urt_get_free_name :: "string \<Rightarrow> 'os urt_global \<Rightarrow> (int \<times> string \<times> 'os urt_global) option" where
  "urt_get_free_name name w = do {
     w1 \<leftarrow> urt_global_sem_wait w;
     let g = gmem w1;
     if names_exhausted g
     then do {
       (name', g') \<leftarrow> check_and_get_free_name name g;
       Some (0, name', urt_global_sem_post (w1\<lparr>gmem := g'\<rparr>)) }
     else do {
       let name' = strncpy name (next_free_name g) URT_NAME_LEN;
       let ret = fst (increment_name (next_free_name g));
       let g1 = g\<lparr>next_free_name := snd (increment_name (next_free_name g))\<rparr>;
       let g2 = (if ret \<noteq> 0 then g1\<lparr>names_exhausted := True\<rparr> else g1);
       if ret < 0 then Some (ENOSPC, name', urt_global_sem_post (w1\<lparr>gmem := g2\<rparr>))
       else Some (0, name', urt_global_sem_post (w1\<lparr>gmem := g2\<rparr>)) }}"

text \<open>A sequence of calls with the same buffer, and the names it returned.\<close>

fun free_names :: "nat \<Rightarrow> string \<Rightarrow> 'os urt_global \<Rightarrow> (string list \<times> 'os urt_global) option" where
  "free_names 0 buf w = Some ([], w)"
| "free_names (Suc n) buf w = do {
     (r, name, w1) \<leftarrow> urt_get_free_name buf w;
     (ns, w2) \<leftarrow> free_names n buf w1;
     Some (name # ns, w2) }"

definition nth_free_name :: "nat \<Rightarrow> string \<Rightarrow> string" where
  "nth_free_name k name = ((\<lambda>n. snd (increment_name n)) ^^ k) name"

section \<open>Lemmas\<close>

lemma strncpy_gen_name:
  assumes "gen_name n"
  shows "strncpy buf n 6 = take 6 n @ drop 6 buf"
proof -
  have "take 6 (cstr n) = take 6 n" using cname_gen_name [OF assms] by (simp add: cname_def)
  moreover have "6 \<le> length (take 6 n)" using assms by (simp add: gen_name_def)
  ultimately have "6 \<le> length (cstr n)" by (metis length_take min.bounded_iff)
  with \<open>take 6 (cstr n) = take 6 n\<close> show ?thesis by (simp add: strncpy_def)
qed

lemma cname_strncpy:
  assumes "gen_name n"
  shows "cname (strncpy buf n 6) = cname n"
proof (rule cname_eqI)
  fix i :: nat assume "i < 6"
  moreover have "length n = 7" using assms by (simp add: gen_name_def)
  ultimately show "c_at (strncpy buf n 6) i = c_at n i"
    by (simp add: strncpy_gen_name [OF assms] c_at_def nth_append)
qed

lemma name_val_strncpy: "gen_name n \<Longrightarrow> name_val 5 (strncpy buf n 6) = name_val 5 n"
  by (rule name_val_cong) (simp add: strncpy_gen_name nth_append gen_name_def)

lemma nth_free_name_simps [simp]:
  "nth_free_name 0 n = n" "nth_free_name (Suc k) n = nth_free_name k (snd (increment_name n))"
  by (simp_all add: nth_free_name_def funpow_Suc_right del: funpow.simps(2))

lemma nth_free_name_spec:
  "gen_name n \<Longrightarrow> gen_name (nth_free_name k n) \<and> name_val 5 (nth_free_name k n) = (name_val 5 n + k) mod 37 ^ 5"
proof (induction k arbitrary: n)
  case 0
  then have "name_val 5 n < 37 ^ 5" by (intro name_val_bound) (simp add: gen_name_def)
  with 0 show ?case by simp
next
  case (Suc k)
  from Suc.IH [OF increment_name_spec(2) [OF Suc.prems]] Suc.prems show ?case
    by (simp add: increment_name_spec(3) mod_add_left_eq)
qed

text \<open>Among \<open>37 ^ 5\<close> successive names one is not in a table with fewer entries.\<close>

lemma free_name_exists:
  assumes "registry_inv g" and "URT_MAX_OBJECTS g < 37 ^ 5"
  shows "\<exists>k<37 ^ 5. name_table g (cname (nth_free_name k (next_free_name g))) = None"
proof (rule ccontr)
  let ?nm = "\<lambda>k. nth_free_name k (next_free_name g)"
  let ?slot = "\<lambda>k. the (name_table g (cname (?nm k)))"
  let ?K = "{..<37 ^ 5 :: nat}"
  assume "\<not> ?thesis"
  then have some: "name_table g (cname (?nm k)) = Some (?slot k)" if "k \<in> ?K" for k
    using that by force
  have gen: "gen_name (?nm k)" for k
    using nth_free_name_spec registry_invD(5) [OF assms(1)] by blast
  have "inj_on ?slot ?K"
  proof (rule inj_onI)
    fix a b assume ab: "a \<in> ?K" "b \<in> ?K" "?slot a = ?slot b"
    then have "cname (?nm a) = cname (?nm b)"
      using some [of a] some [of b] name_table_invD(3) [OF assms(1)] by metis
    then have "?nm a = ?nm b" using gen gen_name_cname_inject by blast
    then have "(name_val 5 (next_free_name g) + a) mod 37 ^ 5 = (name_val 5 (next_free_name g) + b) mod 37 ^ 5"
      using nth_free_name_spec registry_invD(5) [OF assms(1)] by metis
    with ab(1,2) show "a = b" by (auto intro: mod_shift_inject)
  qed
  moreover have "?slot ` ?K \<subseteq> {..<URT_MAX_OBJECTS g}"
    using some name_table_invD(1) [OF assms(1)] by blast
  ultimately have "card ?K \<le> card {..<URT_MAX_OBJECTS g}"
    by (intro card_inj_on_le [of ?slot]) auto
  with assms(2) show False by simp
qed

lemma next_free_name_frame [simp]:
  "find_by_name (g\<lparr>next_free_name := n\<rparr>) = find_by_name g"
  "name_table (g\<lparr>next_free_name := n\<rparr>) = name_table g"
  by (simp_all add: fun_eq_iff find_by_name_def name_table_def)

lemma registry_inv_next_name:
  "registry_inv g \<Longrightarrow> gen_name n \<Longrightarrow> registry_inv (g\<lparr>next_free_name := n\<rparr>)"
  by (simp add: registry_inv_def used_bounded_def used_distinct_def)

text \<open>The search stops at the first name that is not in the table.\<close>

lemma check_and_get_free_name_returns:
  assumes "registry_inv g" and "name_table g (cname (nth_free_name k (next_free_name g))) = None"
  shows "\<exists>j\<le>k. \<exists>name' n. check_and_get_free_name name g = Some (name', g\<lparr>next_free_name := n\<rparr>)
    \<and> gen_name n \<and> cname name' = cname (nth_free_name j (next_free_name g)) \<and> name_table g (cname name') = None"
  using assms
proof (induction k arbitrary: g name)
  case 0
  let ?n = "next_free_name g"
  have gen: "gen_name ?n" using 0(1) by (rule registry_invD)
  have "find_by_name g (strncpy name ?n 6) = None"
    using 0 gen by (simp add: find_by_name_table cname_strncpy)
  then have "check_and_get_free_name name g = Some (strncpy name ?n 6, g\<lparr>next_free_name := snd (increment_name ?n)\<rparr>)"
    using increment_name_spec(1) [OF gen]
    by (simp add: check_and_get_free_name.simps [of name g] Let_def)
  then show ?case
    using 0 gen increment_name_spec(2) [OF gen] by (auto simp: cname_strncpy)
next
  case (Suc k)
  let ?n = "next_free_name g" and ?g = "g\<lparr>next_free_name := snd (increment_name (next_free_name g))\<rparr>"
  have gen: "gen_name ?n" using Suc.prems(1) by (rule registry_invD)
  show ?case
  proof (cases "name_table g (cname ?n)")
    case None
    then show ?thesis using Suc.IH
    proof -
      have "find_by_name g (strncpy name ?n 6) = None"
        using Suc.prems None gen by (simp add: find_by_name_table cname_strncpy)
      then have "check_and_get_free_name name g = Some (strncpy name ?n 6, ?g)"
        using increment_name_spec(1) [OF gen]
        by (simp add: check_and_get_free_name.simps [of name g] Let_def)
      then show ?thesis
        using None gen increment_name_spec(2) [OF gen] by (intro exI [of _ 0]) (auto simp: cname_strncpy)
    qed
  next
    case (Some i)
    have inv: "registry_inv ?g"
      using Suc.prems(1) increment_name_spec(2) [OF gen] by (rule registry_inv_next_name)
    have "find_by_name g (strncpy name ?n 6) \<noteq> None"
      using Suc.prems Some gen by (simp add: find_by_name_table cname_strncpy)
    then have step: "check_and_get_free_name name g = check_and_get_free_name (strncpy name ?n 6) ?g"
      by (simp add: check_and_get_free_name.simps [of name g] Let_def)
    have "name_table ?g (cname (nth_free_name k (next_free_name ?g))) = None"
      using Suc.prems(2) by simp
    from Suc.IH [OF inv this, of "strncpy name ?n 6"] obtain j name' n where
      "j \<le> k" "check_and_get_free_name (strncpy name ?n 6) ?g = Some (name', ?g\<lparr>next_free_name := n\<rparr>)"
      "gen_name n" "cname name' = cname (nth_free_name j (next_free_name ?g))" "name_table g (cname name') = None"
      by auto
    with step show ?thesis by (intro exI [of _ "Suc j"]) auto
  qed
qed

lemma urt_get_free_name_fresh_run:
  assumes "registry_inv (gmem w)" and "0 < gsem w" and "\<not> names_exhausted (gmem w)"
  shows "urt_get_free_name buf w = Some (0, strncpy buf (next_free_name (gmem w)) 6,
    w\<lparr>gmem := (gmem w)\<lparr>next_free_name := snd (increment_name (next_free_name (gmem w))),
       names_exhausted := \<not> name_val 5 (next_free_name (gmem w)) + 1 < 37 ^ 5\<rparr>\<rparr>)"
proof -
  have gen: "gen_name (next_free_name (gmem w))" using assms(1) by (rule registry_invD)
  have "\<not> fst (increment_name (next_free_name (gmem w))) < 0"
    by (simp add: increment_name_spec(1) [OF gen])
  then show ?thesis
    using assms increment_name_spec(1) [OF gen]
    by (simp add: urt_get_free_name_def sem_wait_run urt_global_sem_post_def Let_def)
qed

lemma registry_inv_exhausted [simp]: "registry_inv (g\<lparr>names_exhausted := b\<rparr>) = registry_inv g"
  by (simp add: registry_inv_def used_bounded_def used_distinct_def)

text \<open>Successive calls return the names with successive values.\<close>

lemma free_names_values:
  assumes "registry_inv (gmem w)" and "0 < gsem w" and "\<not> names_exhausted (gmem w)"
    and "name_val 5 (next_free_name (gmem w)) + n \<le> 37 ^ 5"
  shows "\<exists>ns w'. free_names n buf w = Some (ns, w')
    \<and> map (name_val 5) ns = [name_val 5 (next_free_name (gmem w)) ..< name_val 5 (next_free_name (gmem w)) + n]"
  using assms
proof (induction n arbitrary: w)
  case (Suc n)
  let ?v = "name_val 5 (next_free_name (gmem w))"
  have gen: "gen_name (next_free_name (gmem w))" using Suc.prems(1) by (rule registry_invD)
  obtain w1 where w1: "urt_get_free_name buf w = Some (0, strncpy buf (next_free_name (gmem w)) 6, w1)"
    "gmem w1 = (gmem w)\<lparr>next_free_name := snd (increment_name (next_free_name (gmem w))),
       names_exhausted := \<not> ?v + 1 < 37 ^ 5\<rparr>" "gsem w1 = gsem w"
    using urt_get_free_name_fresh_run [OF Suc.prems(1-3)] by auto
  have inv1: "registry_inv (gmem w1)"
    using Suc.prems(1) increment_name_spec(2) [OF gen] w1(2) by (simp add: registry_inv_next_name)
  have head: "name_val 5 (strncpy buf (next_free_name (gmem w)) 6) = ?v"
    using gen by (rule name_val_strncpy)
  show ?case
  proof (cases n)
    case 0
    then show ?thesis using w1(1) head by simp
  next
    case (Suc m)
    with Suc.prems(4) have lt: "?v + 1 < 37 ^ 5" by simp
    then have v1: "name_val 5 (next_free_name (gmem w1)) = ?v + 1"
      using increment_name_spec(3) [OF gen] w1(2) by simp
    from Suc.IH [of w1] inv1 w1(2,3) lt Suc.prems v1 obtain ns w' where
      "free_names n buf w1 = Some (ns, w')" "map (name_val 5) ns = [?v + 1 ..< ?v + 1 + n]"
      by auto
    then show ?thesis using w1(1) head by (simp add: upt_conv_Cons)
  qed
qed simp

section \<open>Properties\<close>

text \<open>What \<^verbatim>\<open>urt_get_free_name\<close> does to the registry, in both modes.\<close>

lemma urt_get_free_name_effect:
  assumes "registry_inv (gmem w)" and "0 < gsem w" and "URT_MAX_OBJECTS (gmem w) < 37 ^ 5"
  shows "\<exists>name n e. urt_get_free_name buf w = Some (0, name, w\<lparr>gmem := (gmem w)\<lparr>next_free_name := n, names_exhausted := e\<rparr>\<rparr>)
    \<and> (names_exhausted (gmem w) \<longrightarrow> name_table (gmem w) (cname name) = None) \<and> gen_name n"
proof (cases "names_exhausted (gmem w)")
  case True
  from free_name_exists [OF assms(1,3)] obtain k where
    "name_table (gmem w) (cname (nth_free_name k (next_free_name (gmem w)))) = None" by blast
  from check_and_get_free_name_returns [OF assms(1) this, of buf] obtain name n where
    "check_and_get_free_name buf (gmem w) = Some (name, (gmem w)\<lparr>next_free_name := n\<rparr>)"
    "gen_name n" "name_table (gmem w) (cname name) = None"
    by blast
  with True assms show ?thesis
    by (intro exI [of _ name] exI [of _ n] exI [of _ True])
       (simp add: urt_get_free_name_def sem_wait_run urt_global_sem_post_def Let_def)
next
  case False
  have "gen_name (next_free_name (gmem w))" using assms(1) by (rule registry_invD)
  with False assms show ?thesis
    by (auto simp: urt_get_free_name_fresh_run increment_name_spec(2))
qed

text \<open>
  C22: \<^verbatim>\<open>urt_get_free_name\<close> always returns when the registry has fewer slots than there are
  generated names, with code 0 (never \<^verbatim>\<open>ENOSPC\<close>), although its search loop has no bound of
  its own; once the names have been used up (the exhausted mode) the name returned is not in
  the table. Neither mode touches the slots or loses the semaphore.
\<close>

theorem get_free_name_returns:
  assumes "registry_inv (gmem w)" and "0 < gsem w" and "URT_MAX_OBJECTS (gmem w) < 37 ^ 5"
  shows "\<exists>name w'. urt_get_free_name buf w = Some (0, name, w')
    \<and> (names_exhausted (gmem w) \<longrightarrow> name_table (gmem w) (cname name) = None)
    \<and> objects (gmem w') = objects (gmem w) \<and> registry_inv (gmem w') \<and> gsem w' = gsem w"
  using urt_get_free_name_effect [OF assms, of buf] assms(1) by (auto simp: registry_inv_next_name)

definition demo_exhausted :: "unit urt_global" where
  "demo_exhausted = demo_shared\<lparr>gmem := (gmem demo_shared)\<lparr>names_exhausted := True\<rparr>\<rparr>"

theorem get_free_name_returns_witness:
  "\<exists>name w'. urt_get_free_name (replicate 7 NUL) demo_exhausted = Some (0, name, w')
    \<and> name_table (gmem demo_exhausted) (cname name) = None"
proof -
  have h: "registry_inv (gmem demo_exhausted)" "0 < gsem demo_exhausted"
    "URT_MAX_OBJECTS (gmem demo_exhausted) < 37 ^ 5" "names_exhausted (gmem demo_exhausted)"
    using demo_inv by (simp_all add: demo_exhausted_def)
  from get_free_name_returns [OF h(1-3)] h(4) show ?thesis by blast
qed

text \<open>
  The first \<open>37 ^ 5\<close> names an application obtains from a fresh registry are pairwise
  different: the counter enumerates every generated name exactly once before it is reported
  exhausted.
\<close>

theorem free_names_pairwise_different:
  assumes "registry_inv (gmem w)" and "0 < gsem w" and "\<not> names_exhausted (gmem w)"
    and "next_free_name (gmem w) = reset_name (replicate 7 NUL)" and "n \<le> 37 ^ 5"
  shows "\<exists>ns w'. free_names n buf w = Some (ns, w') \<and> length ns = n \<and> distinct ns"
proof -
  have v: "name_val 5 (next_free_name (gmem w)) = 0"
    unfolding assms(4) by code_simp
  from free_names_values [OF assms(1-3), of n buf] assms(5) v obtain ns w' where
    ns: "free_names n buf w = Some (ns, w')" "map (name_val 5) ns = [0 ..< n]"
    by auto
  then have "distinct ns" by (metis distinct_map distinct_upt)
  moreover have "length ns = n" using arg_cong [OF ns(2), of length] by simp
  ultimately show ?thesis using ns(1) by blast
qed

theorem free_names_pairwise_different_witness:
  "\<exists>ns w'. free_names 1000 (replicate 7 NUL) demo_empty = Some (ns, w') \<and> length ns = 1000 \<and> distinct ns"
proof (rule free_names_pairwise_different)
  show "registry_inv (gmem demo_empty)" "0 < gsem demo_empty" using demo_inv by simp_all
  show "\<not> names_exhausted (gmem demo_empty)" by code_simp
  show "next_free_name (gmem demo_empty) = reset_name (replicate 7 NUL)" by code_simp
qed simp

end
