(* ===== verification/Urt_Interleaving.thy ===== *)
theory Urt_Interleaving
  imports Urt_Registry Urt_Free_Names
begin

text \<open>
  The critical sections of \<^verbatim>\<open>src/registry.c\<close> one access at a time. The operations of
  \<open>Urt_Registry\<close> and \<open>Urt_Free_Names\<close> take the global semaphore, work and post it in one piece;
  here a process is at a program point inside its operation and any process may take the next
  step.

  \<open>rest\<close> gives a program point its meaning, the part of the operation that is left, and
  \<open>rest_step\<close> says that a step does not change it. From there the interleavings refine the
  operations (\<open>serialized\<close>); \<open>section_ends\<close> holds of every point that can be reached, and \<open>sound\<close>
  says what holds of the registry at each point, which the theory \<open>Urt_Crash\<close> uses.
\<close>

section \<open>Requests and program points\<close>

datatype 'os request =
    Reserve_name string
  | Inc_name_count nat
  | Dec_name_count nat "'os release option"
  | Get_and_inc_count string
  | Force_clear_name "'os release" string
  | Get_free_name string

datatype outcome =
    Return
  | Return_object "int + nat"
  | Return_found "nat option"
  | Return_name int string

text \<open>Who calls \<^verbatim>\<open>_find_by_name\<close>, and so what follows it.\<close>

datatype 'os purpose = To_reserve | To_attach | To_clear "'os release" | To_generate

text \<open>
  The program points with the local variables that are alive there: of \<^verbatim>\<open>_find_by_name\<close>
  (\<open>Scan\<close>: \<^verbatim>\<open>max_index\<close>, \<^verbatim>\<open>i\<close>), of \<^verbatim>\<open>urt_reserve_name\<close> (\<open>Pick\<close> to \<open>Raise_index\<close>), of the two
  functions that count (\<open>Count\<close>, \<open>Unreserve\<close>), of \<^verbatim>\<open>_dec_count_common\<close> (\<open>Drop\<close> to \<open>Check\<close>; the flag
  tells whether \<^verbatim>\<open>urt_force_clear_name\<close> called it in its loop, whose test is \<open>Again\<close>) and of
  \<^verbatim>\<open>urt_get_free_name\<close> (\<open>Digit\<close> to \<open>Incremented\<close>; the flag tells whether
  \<^verbatim>\<open>_check_and_get_free_name\<close> is running). \<open>Leave\<close> is the call of \<^verbatim>\<open>urt_global_sem_post\<close>.
\<close>

datatype 'os point =
    Begin "'os request"
  | Scan "'os purpose" string nat nat
  | Scanned "'os purpose" string "nat option"
  | Pick string nat
  | Claim string nat
  | Copy string nat nat
  | Raise_index nat
  | Count nat outcome
  | Unreserve nat outcome
  | Drop nat "'os release option" bool
  | Drop_reserved nat "'os release option" bool
  | Call_release nat "'os release option" bool
  | Test_users nat bool
  | Lower nat nat bool
  | Check nat nat bool
  | Again nat bool
  | Digit string nat bool
  | Reset string nat int bool
  | Incremented string int bool
  | Leave outcome

section \<open>One step inside a critical section\<close>

text \<open>
  A step writes to the shared memory once at most; what it writes is one member, one character of
  a name, or, in \<open>Claim\<close>, the whole slot that the compound literal assigns. It may test several
  members of one slot, and \<^verbatim>\<open>strncpy\<close> into the caller's buffer is one step with the reading of
  the counter it starts from. A call of the back-end (the release callback,
  \<^verbatim>\<open>urt_sys_force_clear_name\<close>) is one step. The test in \<open>Again\<close> asks for an index in range as
  \<open>force_clear_loop\<close> does, and the index comes from \<^verbatim>\<open>_find_by_name\<close>.
\<close>

definition set_max :: "nat \<Rightarrow> 'os urt_global \<Rightarrow> 'os urt_global" where
  "set_max i w = w\<lparr>gmem := (gmem w)\<lparr>objects_max_index := i\<rparr>\<rparr>"

definition set_next_name :: "string \<Rightarrow> 'os urt_global \<Rightarrow> 'os urt_global" where
  "set_next_name n w = w\<lparr>gmem := (gmem w)\<lparr>next_free_name := n\<rparr>\<rparr>"

definition update_slot :: "nat \<Rightarrow> (urt_registered_object \<Rightarrow> urt_registered_object) \<Rightarrow> 'os urt_global \<Rightarrow> 'os urt_global" where
  "update_slot i f w = w\<lparr>gmem := ro_update i f (gmem w)\<rparr>"

fun point_step :: "'os point \<Rightarrow> 'os urt_global \<Rightarrow> 'os point \<times> 'os urt_global" where
  "point_step (Begin (Reserve_name n)) w = (Scan To_reserve n (objects_max_index (gmem w)) 0, w)"
| "point_step (Begin (Inc_name_count i)) w = (Count i Return, w)"
| "point_step (Begin (Dec_name_count i rel)) w = (Drop i rel False, w)"
| "point_step (Begin (Get_and_inc_count n)) w = (Scan To_attach n (objects_max_index (gmem w)) 0, w)"
| "point_step (Begin (Force_clear_name clr n)) w = (Scan (To_clear clr) n (objects_max_index (gmem w)) 0, w)"
| "point_step (Begin (Get_free_name buf)) w =
     (Digit (strncpy buf (next_free_name (gmem w)) URT_NAME_LEN) (URT_NAME_LEN - 1) (names_exhausted (gmem w)), w)"
| "point_step (Scan u n max_index i) w =
     (let ro = objects (gmem w) ! i
      in (if i > max_index then Scanned u n None
          else if (ro_reserved ro \<or> ro_count ro \<noteq> 0) \<and> name_eq (ro_name ro) n then Scanned u n (Some i)
          else Scan u n max_index (i + 1), w))"
| "point_step (Scanned To_reserve n r) w =
     (case r of None \<Rightarrow> (Pick n 0, w) | Some i \<Rightarrow> (Leave (Return_object (Inl EEXIST)), w))"
| "point_step (Scanned To_attach n r) w =
     (case r of None \<Rightarrow> (Leave (Return_found None), w) | Some i \<Rightarrow> (Count i (Return_found (Some i)), w))"
| "point_step (Scanned (To_clear clr) n r) w =
     (case r of None \<Rightarrow> (Leave Return, w)
      | Some i \<Rightarrow> (Drop i None True, w\<lparr>gos := clr (objects (gmem w) ! i) (gos w)\<rparr>))"
| "point_step (Scanned To_generate n r) w =
     (case r of None \<Rightarrow> (Leave (Return_name 0 n), w)
      | Some i \<Rightarrow> (Digit (strncpy n (next_free_name (gmem w)) URT_NAME_LEN) (URT_NAME_LEN - 1) True, w))"
| "point_step (Pick n i) w =
     (if i \<ge> URT_MAX_OBJECTS (gmem w) then Leave (Return_object (Inl ENOSPC))
      else if \<not> ro_reserved (objects (gmem w) ! i) \<and> ro_count (objects (gmem w) ! i) = 0 then Claim n i
      else Pick n (i + 1), w)"
| "point_step (Claim n i) w = (Copy n i 0, update_slot i (\<lambda>ro. ro_zero\<lparr>ro_reserved := True\<rparr>) w)"
| "point_step (Copy n i k) w =
     (if k < URT_NAME_LEN \<and> c_at n k \<noteq> NUL
      then (Copy n i (k + 1), update_slot i (\<lambda>ro. ro\<lparr>ro_name := (ro_name ro)[k := c_at n k]\<rparr>) w)
      else (Raise_index i, update_slot i (\<lambda>ro. ro\<lparr>ro_name := (ro_name ro)[k := NUL]\<rparr>) w))"
| "point_step (Raise_index i) w =
     (Leave (Return_object (Inr i)), if i > objects_max_index (gmem w) then set_max i w else w)"
| "point_step (Count i out) w = (Unreserve i out, update_slot i (\<lambda>ro. ro\<lparr>ro_count := ro_count ro + 1\<rparr>) w)"
| "point_step (Unreserve i out) w = (Leave out, update_slot i (\<lambda>ro. ro\<lparr>ro_reserved := False\<rparr>) w)"
| "point_step (Drop i rel again) w =
     (Drop_reserved i rel again,
      update_slot i (\<lambda>ro. if ro_count ro > 0 then ro\<lparr>ro_count := ro_count ro - 1\<rparr> else ro) w)"
| "point_step (Drop_reserved i rel again) w =
     (Call_release i rel again, update_slot i (\<lambda>ro. ro\<lparr>ro_reserved := False\<rparr>) w)"
| "point_step (Call_release i rel again) w =
     (Test_users i again,
      case rel of None \<Rightarrow> w | Some f \<Rightarrow> w\<lparr>gos := f (objects (gmem w) ! i) (gos w)\<rparr>)"
| "point_step (Test_users i again) w =
     (if ro_count (objects (gmem w) ! i) > 0 then Again i again
      else if i = objects_max_index (gmem w) then Lower i i again else Check i 0 again, w)"
| "point_step (Lower i j again) w =
     (if j > 0 \<and> \<not> ro_reserved (objects (gmem w) ! j) \<and> ro_count (objects (gmem w) ! j) = 0
      then (Lower i (j - 1) again, w) else (Check i 0 again, set_max j w))"
| "point_step (Check i k again) w =
     (if k \<ge> URT_MAX_OBJECTS (gmem w) then (Again i again, w)
      else (Check i (k + 1) again,
        if (ro_reserved (objects (gmem w) ! k) \<or> ro_count (objects (gmem w) ! k) > 0) \<and> k > objects_max_index (gmem w)
        then set_max k w else w))"
| "point_step (Again i again) w =
     (if again \<and> i < URT_MAX_OBJECTS (gmem w) \<and> ro_count (objects (gmem w) ! i) > 0
      then Drop i None True else Leave Return, w)"
| "point_step (Digit name 0 ex) w = (Reset name (URT_NAME_LEN - 1) 1 ex, w)"
| "point_step (Digit name (Suc i) ex) w =
     (case next_digit (c_at (next_free_name (gmem w)) i) of
        None \<Rightarrow> (Reset name (URT_NAME_LEN - 1) (-1) ex, w)
      | Some (digit, finished) \<Rightarrow>
          (if finished then Incremented name 0 ex else Digit name i ex,
           set_next_name ((next_free_name (gmem w))[i := digit]) w))"
| "point_step (Reset name 0 ret ex) w =
     (Incremented name ret ex, set_next_name ((next_free_name (gmem w))[URT_NAME_LEN - 1 := CHR ''$'']) w)"
| "point_step (Reset name (Suc k) ret ex) w =
     (Reset name k ret ex, set_next_name ((next_free_name (gmem w))[URT_NAME_LEN - 1 - Suc k := CHR ''_'']) w)"
| "point_step (Incremented name ret True) w =
     (if ret < 0 then Digit (strncpy name (next_free_name (gmem w)) URT_NAME_LEN) (URT_NAME_LEN - 1) True
      else Scan To_generate name (objects_max_index (gmem w)) 0, w)"
| "point_step (Incremented name ret False) w =
     (Leave (Return_name (if ret < 0 then ENOSPC else 0) name),
      if ret \<noteq> 0 then w\<lparr>gmem := (gmem w)\<lparr>names_exhausted := True\<rparr>\<rparr> else w)"
| "point_step (Leave out) w = (Leave out, w)"

section \<open>What is left of an operation\<close>

text \<open>The meaning of a program point: the rest of its operation in one piece, up to the post.\<close>

definition rest_count :: "nat \<Rightarrow> 'os urt_global \<Rightarrow> 'os urt_global" where
  "rest_count i w = update_slot i (\<lambda>ro. ro\<lparr>ro_count := ro_count ro + 1, ro_reserved := False\<rparr>) w"

definition rest_again :: "nat \<Rightarrow> bool \<Rightarrow> 'os urt_global \<Rightarrow> 'os urt_global" where
  "rest_again i again w =
     (if again \<and> i < URT_MAX_OBJECTS (gmem w) \<and> ro_count (objects (gmem w) ! i) > 0 then force_clear_loop i w else w)"

definition rest_pick :: "string \<Rightarrow> nat \<Rightarrow> 'os urt_global \<Rightarrow> outcome \<times> 'os urt_global" where
  "rest_pick n a w =
     (let i = for_break (\<lambda>i. \<not> ro_reserved (objects (gmem w) ! i) \<and> ro_count (objects (gmem w) ! i) = 0)
                a (URT_MAX_OBJECTS (gmem w))
      in if i \<ge> URT_MAX_OBJECTS (gmem w) then (Return_object (Inl ENOSPC), w)
         else (Return_object (Inr i), let w1 = update_slot i (\<lambda>ro. reserved_slot n) w
               in if i > objects_max_index (gmem w1) then set_max i w1 else w1))"

definition rest_search :: "string \<Rightarrow> bool \<Rightarrow> 'os urt_global \<Rightarrow> (outcome \<times> 'os urt_global) option" where
  "rest_search name taken w =
     (case (if taken then check_and_get_free_name name (gmem w) else Some (name, gmem w)) of
        None \<Rightarrow> None | Some (name', g') \<Rightarrow> Some (Return_name 0 name', w\<lparr>gmem := g'\<rparr>))"

definition rest_incremented :: "bool \<Rightarrow> string \<Rightarrow> int \<Rightarrow> 'os urt_global \<Rightarrow> (outcome \<times> 'os urt_global) option" where
  "rest_incremented ex name ret w =
     (if ex then rest_search name (ret < 0 \<or> find_by_name (gmem w) name \<noteq> None) w
      else Some (Return_name (if ret < 0 then ENOSPC else 0) name,
        if ret \<noteq> 0 then w\<lparr>gmem := (gmem w)\<lparr>names_exhausted := True\<rparr>\<rparr> else w))"

definition rest_scanned :: "'os purpose \<Rightarrow> string \<Rightarrow> nat option \<Rightarrow> 'os urt_global \<Rightarrow> (outcome \<times> 'os urt_global) option" where
  "rest_scanned u n r w =
     (case u of
        To_reserve \<Rightarrow> Some (if r \<noteq> None then (Return_object (Inl EEXIST), w) else rest_pick n 0 w)
      | To_attach \<Rightarrow> Some (Return_found r, case r of None \<Rightarrow> w | Some i \<Rightarrow> rest_count i w)
      | To_clear clr \<Rightarrow> Some (Return, case r of None \<Rightarrow> w
          | Some i \<Rightarrow> force_clear_loop i (w\<lparr>gos := clr (objects (gmem w) ! i) (gos w)\<rparr>))
      | To_generate \<Rightarrow> rest_search n (r \<noteq> None) w)"

definition found_from :: "urt_internal \<Rightarrow> string \<Rightarrow> nat \<Rightarrow> nat \<Rightarrow> nat option" where
  "found_from g name max_index a =
     (let i = for_break (\<lambda>i. (ro_reserved (objects g ! i) \<or> ro_count (objects g ! i) \<noteq> 0) \<and> name_eq (ro_name (objects g ! i)) name)
                a (max_index + 1)
      in if i > max_index then None else Some i)"

fun check_from :: "nat list \<Rightarrow> urt_internal \<Rightarrow> urt_internal" where
  "check_from [] g = g"
| "check_from (k # ks) g = check_from ks
     (if (ro_reserved (objects g ! k) \<or> ro_count (objects g ! k) > 0) \<and> k > objects_max_index g
      then g\<lparr>objects_max_index := k\<rparr> else g)"

definition rest_check :: "nat \<Rightarrow> 'os urt_global \<Rightarrow> 'os urt_global" where
  "rest_check k w = w\<lparr>gmem := check_from [k..<URT_MAX_OBJECTS (gmem w)] (gmem w)\<rparr>"

definition rest_test :: "nat \<Rightarrow> bool \<Rightarrow> 'os urt_global \<Rightarrow> 'os urt_global" where
  "rest_test i again w = rest_again i again
     (if ro_count (objects (gmem w) ! i) > 0 then w
      else rest_check 0 (if i = objects_max_index (gmem w) then set_max (lower_index (objects (gmem w)) i) w else w))"

definition call_release :: "nat \<Rightarrow> 'os release option \<Rightarrow> 'os urt_global \<Rightarrow> 'os urt_global" where
  "call_release i rel w = (case rel of None \<Rightarrow> w | Some f \<Rightarrow> w\<lparr>gos := f (objects (gmem w) ! i) (gos w)\<rparr>)"

fun rest :: "'os point \<Rightarrow> 'os urt_global \<Rightarrow> (outcome \<times> 'os urt_global) option" where
  "rest (Begin (Reserve_name n)) w = rest_scanned To_reserve n (find_by_name (gmem w) n) w"
| "rest (Begin (Inc_name_count i)) w = Some (Return, rest_count i w)"
| "rest (Begin (Dec_name_count i rel)) w = Some (Return, dec_count_common i rel w)"
| "rest (Begin (Get_and_inc_count n)) w = rest_scanned To_attach n (find_by_name (gmem w) n) w"
| "rest (Begin (Force_clear_name clr n)) w = rest_scanned (To_clear clr) n (find_by_name (gmem w) n) w"
| "rest (Begin (Get_free_name buf)) w =
     (let (ret, nn) = increment_name (next_free_name (gmem w))
      in rest_incremented (names_exhausted (gmem w)) (strncpy buf (next_free_name (gmem w)) URT_NAME_LEN) ret
           (set_next_name nn w))"
| "rest (Scan u n max_index i) w = rest_scanned u n (found_from (gmem w) n max_index i) w"
| "rest (Scanned u n r) w = rest_scanned u n r w"
| "rest (Pick n i) w = Some (rest_pick n i w)"
| "rest (Claim n i) w = Some (Return_object (Inr i), let w1 = update_slot i (\<lambda>ro. reserved_slot n) w
     in if i > objects_max_index (gmem w1) then set_max i w1 else w1)"
| "rest (Copy n i k) w = Some (Return_object (Inr i),
     let w1 = update_slot i (\<lambda>ro. ro\<lparr>ro_name := name_cpy_from k (ro_name ro) n\<rparr>) w
     in if i > objects_max_index (gmem w1) then set_max i w1 else w1)"
| "rest (Raise_index i) w = Some (Return_object (Inr i), if i > objects_max_index (gmem w) then set_max i w else w)"
| "rest (Count i out) w = Some (out, rest_count i w)"
| "rest (Unreserve i out) w = Some (out, update_slot i (\<lambda>ro. ro\<lparr>ro_reserved := False\<rparr>) w)"
| "rest (Drop i rel again) w = Some (Return, rest_again i again (dec_count_common i rel w))"
| "rest (Drop_reserved i rel again) w =
     Some (Return, rest_test i again (call_release i rel (update_slot i (\<lambda>ro. ro\<lparr>ro_reserved := False\<rparr>) w)))"
| "rest (Call_release i rel again) w = Some (Return, rest_test i again (call_release i rel w))"
| "rest (Test_users i again) w = Some (Return, rest_test i again w)"
| "rest (Lower i j again) w =
     Some (Return, rest_again i again (rest_check 0 (set_max (lower_index (objects (gmem w)) j) w)))"
| "rest (Check i k again) w = Some (Return, rest_again i again (rest_check k w))"
| "rest (Again i again) w = Some (Return, rest_again i again w)"
| "rest (Digit name k ex) w =
     (let (ret, nn) = increment_from k (next_free_name (gmem w)) in rest_incremented ex name ret (set_next_name nn w))"
| "rest (Reset name k ret ex) w = rest_incremented ex name ret (set_next_name (reset_from k (next_free_name (gmem w))) w)"
| "rest (Incremented name ret ex) w = rest_incremented ex name ret w"
| "rest (Leave out) w = Some (out, w)"

section \<open>Steps do not change what is left\<close>

lemma world_update_simps [simp]:
  "objects (gmem (set_max i w)) = objects (gmem w)" "objects_max_index (gmem (set_max i w)) = i"
  "next_free_name (gmem (set_max i w)) = next_free_name (gmem w)"
  "names_exhausted (gmem (set_max i w)) = names_exhausted (gmem w)" "gsem (set_max i w) = gsem w" "gos (set_max i w) = gos w"
  "objects (gmem (set_next_name n w)) = objects (gmem w)"
  "objects_max_index (gmem (set_next_name n w)) = objects_max_index (gmem w)"
  "next_free_name (gmem (set_next_name n w)) = n"
  "names_exhausted (gmem (set_next_name n w)) = names_exhausted (gmem w)"
  "gsem (set_next_name n w) = gsem w" "gos (set_next_name n w) = gos w"
  "objects (gmem (update_slot i f w)) = (objects (gmem w))[i := f (objects (gmem w) ! i)]"
  "objects_max_index (gmem (update_slot i f w)) = objects_max_index (gmem w)"
  "next_free_name (gmem (update_slot i f w)) = next_free_name (gmem w)"
  "names_exhausted (gmem (update_slot i f w)) = names_exhausted (gmem w)"
  "gsem (update_slot i f w) = gsem w" "gos (update_slot i f w) = gos w"
  "set_next_name n (set_next_name m w) = set_next_name n w"
  by (simp_all add: set_max_def set_next_name_def update_slot_def objects_ro_update)

lemma update_slot_twice: "update_slot i g (update_slot i f w) = update_slot i (\<lambda>ro. g (f ro)) w"
  by (cases "i < URT_MAX_OBJECTS (gmem w)") (simp_all add: update_slot_def ro_update_def list_update_beyond not_less)

lemma set_next_name_same [simp]: "set_next_name (next_free_name (gmem w)) w = w"
  by (simp add: set_next_name_def)

lemma find_by_name_next [simp]: "find_by_name (gmem (set_next_name n w)) name = find_by_name (gmem w) name"
  by (simp add: set_next_name_def find_by_name_def)

lemma find_by_name_from: "find_by_name g n = found_from g n (objects_max_index g) 0"
  by (simp add: find_by_name_def found_from_def Let_def)

lemma found_from_step:
  "found_from g n m i = (if i > m then None
     else if (ro_reserved (objects g ! i) \<or> ro_count (objects g ! i) \<noteq> 0) \<and> name_eq (ro_name (objects g ! i)) n then Some i
     else found_from g n m (i + 1))"
  by (simp add: found_from_def for_break.simps [of _ i] Let_def)

lemma rest_scan: "rest (fst (point_step (Scan u n m i) w)) (snd (point_step (Scan u n m i) w)) = rest (Scan u n m i) w"
  using found_from_step [of "gmem w" n m i] by (simp add: Let_def)

lemma check_from_upto: "check_from [0..<n] g = fst (mem_check_upto n (g, e))"
proof -
  have app: "check_from (xs @ ys) g = check_from ys (check_from xs g)" for xs ys g
    by (induction xs arbitrary: g) simp_all
  show ?thesis by (induction n) (auto simp: app Let_def split: prod.splits)
qed

lemma rest_check_internal: "rest_check 0 w = w\<lparr>gmem := fst (internal_mem_check (gmem w))\<rparr>"
  by (simp add: rest_check_def internal_mem_check_def check_from_upto)

lemma rest_check_gmem [simp]:
  "objects (gmem (rest_check 0 w)) = objects (gmem w)"
  by (simp add: rest_check_internal)

lemma dec_count_common_rest:
  "rest_again i again (dec_count_common i rel w)
   = rest_test i again (call_release i rel (update_slot i (\<lambda>ro. ro\<lparr>ro_count := (if ro_count ro > 0 then ro_count ro - 1 else ro_count ro),
                                    ro_reserved := False\<rparr>) w))"
  by (auto simp: dec_count_common_def rest_test_def call_release_def Let_def update_slot_def rest_check_internal
      set_max_def split: option.splits)

lemma force_clear_loop_rest: "force_clear_loop i w = rest_again i True (dec_count_common i None w)"
proof -
  have "URT_MAX_OBJECTS (gmem (dec_count_common i None w)) = URT_MAX_OBJECTS (gmem w)"
    by (cases "i < URT_MAX_OBJECTS (gmem w)")
       (simp_all add: dec_count_common_slot dec_count_common_def Let_def objects_ro_update)
  then show ?thesis by (subst force_clear_loop.simps) (simp add: rest_again_def Let_def)
qed


lemma rest_pick_step: "rest (fst (point_step (Pick n i) w)) (snd (point_step (Pick n i) w)) = rest (Pick n i) w"
  using for_break.simps [of "\<lambda>i. \<not> ro_reserved (objects (gmem w) ! i) \<and> ro_count (objects (gmem w) ! i) = 0" i "URT_MAX_OBJECTS (gmem w)"]
  by (simp add: rest_pick_def Let_def)

lemma rest_claim: "rest (fst (point_step (Claim n i) w)) (snd (point_step (Claim n i) w)) = rest (Claim n i) w"
  by (simp add: Let_def update_slot_twice reserved_slot_def name_cpy_def)

lemma rest_copy: "rest (fst (point_step (Copy n i k) w)) (snd (point_step (Copy n i k) w)) = rest (Copy n i k) w"
proof (cases "k < URT_NAME_LEN \<and> c_at n k \<noteq> NUL")
  case True
  then have "name_cpy_from k to n = name_cpy_from (k + 1) (to[k := c_at n k]) n" for to
    by (subst name_cpy_from.simps) simp
  with True show ?thesis by (simp add: Let_def update_slot_twice)
next
  case False
  then have "name_cpy_from k to n = to[k := NUL]" for to
    by (subst name_cpy_from.simps) auto
  moreover have "point_step (Copy n i k) w = (Raise_index i, update_slot i (\<lambda>ro. ro\<lparr>ro_name := (ro_name ro)[k := NUL]\<rparr>) w)"
    using False by auto
  ultimately show ?thesis by (simp add: Let_def del: point_step.simps)
qed

lemma rest_drop: "rest (fst (point_step (Drop i rel again) w)) (snd (point_step (Drop i rel again) w)) = rest (Drop i rel again) w"
proof -
  have eq: "(\<lambda>ro. (if ro_count ro > 0 then ro\<lparr>ro_count := ro_count ro - 1\<rparr> else ro)\<lparr>ro_reserved := False\<rparr>)
      = (\<lambda>ro. ro\<lparr>ro_count := (if ro_count ro > 0 then ro_count ro - 1 else ro_count ro), ro_reserved := False\<rparr>)"
    by (auto simp: fun_eq_iff)
  show ?thesis
    unfolding point_step.simps rest.simps fst_conv snd_conv update_slot_twice dec_count_common_rest eq ..
qed

lemma rest_counts:
  "rest (fst (point_step (Count i out) w)) (snd (point_step (Count i out) w)) = rest (Count i out) w"
  "rest (fst (point_step (Drop_reserved i rel again) w)) (snd (point_step (Drop_reserved i rel again) w)) = rest (Drop_reserved i rel again) w"
  "rest (fst (point_step (Call_release i rel again) w)) (snd (point_step (Call_release i rel again) w)) = rest (Call_release i rel again) w"
  by (simp_all only: point_step.simps rest.simps fst_conv snd_conv update_slot_twice rest_count_def call_release_def)

lemma rest_test_users:
  "rest (fst (point_step (Test_users i again) w)) (snd (point_step (Test_users i again) w)) = rest (Test_users i again) w"
  by (simp add: rest_test_def)

lemma rest_lower: "rest (fst (point_step (Lower i j again) w)) (snd (point_step (Lower i j again) w)) = rest (Lower i j again) w"
  by (cases j) simp_all

lemma rest_check_step:
  "rest (fst (point_step (Check i k again) w)) (snd (point_step (Check i k again) w)) = rest (Check i k again) w"
proof (cases "k < URT_MAX_OBJECTS (gmem w)")
  case True
  then have "[k..<URT_MAX_OBJECTS (gmem w)] = k # [k + 1..<URT_MAX_OBJECTS (gmem w)]" by (simp add: upt_conv_Cons)
  with True show ?thesis by (simp add: rest_check_def set_max_def)
qed (simp add: rest_check_def)

lemma rest_again_step:
  "rest (fst (point_step (Again i again) w)) (snd (point_step (Again i again) w)) = rest (Again i again) w"
  by (simp add: rest_again_def [of i again w] force_clear_loop_rest [of i w])

lemma rest_digit: "rest (fst (point_step (Digit name k ex) w)) (snd (point_step (Digit name k ex) w)) = rest (Digit name k ex) w"
  by (cases k) (auto simp: reset_name_def Let_def split: option.splits)

lemma rest_reset: "rest (fst (point_step (Reset name k r ex) w)) (snd (point_step (Reset name k r ex) w)) = rest (Reset name k r ex) w"
  by (cases k) simp_all

lemma rest_search_again:
  "rest_search name True w = rest (Digit (strncpy name (next_free_name (gmem w)) URT_NAME_LEN) (URT_NAME_LEN - 1) True) w"
proof -
  obtain ret nn where inc: "increment_name (next_free_name (gmem w)) = (ret, nn)" by fastforce
  then have "increment_from 5 (next_free_name (gmem w)) = (ret, nn)" by (simp add: increment_name_def)
  then show ?thesis
    using check_and_get_free_name.simps [of name "gmem w"] inc
    by (simp add: rest_search_def rest_incremented_def set_next_name_def find_by_name_def Let_def split: option.splits)
qed

lemma rest_increment:
  "rest (fst (point_step (Incremented name ret ex) w)) (snd (point_step (Incremented name ret ex) w)) = rest (Incremented name ret ex) w"
proof (cases ex)
  case True
  then show ?thesis
    using rest_search_again [of name w]
    by (simp add: rest_incremented_def rest_scanned_def find_by_name_from del: rest.simps(21))
qed (simp add: rest_incremented_def)

lemma rest_scanned_step:
  "rest (fst (point_step (Scanned u n r) w)) (snd (point_step (Scanned u n r) w)) = rest (Scanned u n r) w"
proof (cases u)
  case To_generate
  then show ?thesis
    using rest_search_again [of n w] by (auto simp: rest_scanned_def rest_search_def split: option.split)
qed (auto simp: rest_scanned_def force_clear_loop_rest split: option.splits)

lemma rest_begin: "rest (fst (point_step (Begin rq) w)) (snd (point_step (Begin rq) w)) = rest (Begin rq) w"
  by (cases rq) (simp_all add: find_by_name_from rest_again_def increment_name_def)

lemma rest_step: "rest (fst (point_step pc w)) (snd (point_step pc w)) = rest pc w"
proof (cases pc)
  case (Unreserve i out)
  then show ?thesis by simp
next
  case (Raise_index i)
  then show ?thesis by simp
next
  case (Leave out)
  then show ?thesis by simp
qed (simp_all only: rest_begin rest_scan rest_scanned_step rest_pick_step rest_claim rest_copy rest_drop rest_counts rest_test_users
      rest_lower rest_check_step rest_again_step rest_digit rest_reset rest_increment)

lemma gsem_point_step [simp]: "gsem (snd (point_step pc w)) = gsem w"
  by (cases "(pc, w)" rule: point_step.cases)
     (simp_all add: Let_def split: option.splits prod.splits)

section \<open>The operations in one piece\<close>

definition serve :: "'os request \<Rightarrow> 'os urt_global \<Rightarrow> (outcome \<times> 'os urt_global) option" where
  "serve rq w =
     (case rq of
        Reserve_name n \<Rightarrow> map_option (\<lambda>(r, w'). (Return_object r, w')) (urt_reserve_name n w)
      | Inc_name_count i \<Rightarrow> map_option (\<lambda>w'. (Return, w')) (urt_inc_name_count i w)
      | Dec_name_count i rel \<Rightarrow> map_option (\<lambda>w'. (Return, w')) (urt_dec_name_count i rel w)
      | Get_and_inc_count n \<Rightarrow> map_option (\<lambda>(r, w'). (Return_found r, w')) (urt_get_object_by_name_and_inc_count n w)
      | Force_clear_name clr n \<Rightarrow> map_option (\<lambda>w'. (Return, w')) (urt_force_clear_name clr n w)
      | Get_free_name buf \<Rightarrow> map_option (\<lambda>(r, n, w'). (Return_name r n, w')) (urt_get_free_name buf w))"

text \<open>An operation is: wait, the meaning of its first program point, post.\<close>

lemma serve_reserve:
  assumes "urt_global_sem_wait w = Some w1"
  shows "serve (Reserve_name n) w = map_option (\<lambda>(out, w2). (out, urt_global_sem_post w2)) (rest (Begin (Reserve_name n)) w1)"
  using assms find_free_slot_le [of "gmem w1"]
  by (auto simp: serve_def urt_reserve_name_def rest_scanned_def rest_pick_def find_free_slot_def reserved_slot_def
      Let_def update_slot_def ro_update_def set_max_def split: option.splits)

lemma serve_counting:
  assumes "urt_global_sem_wait w = Some w1"
  shows "serve (Inc_name_count i) w = map_option (\<lambda>(out, w2). (out, urt_global_sem_post w2)) (rest (Begin (Inc_name_count i)) w1)"
    and "serve (Dec_name_count i rel) w = map_option (\<lambda>(out, w2). (out, urt_global_sem_post w2)) (rest (Begin (Dec_name_count i rel)) w1)"
    and "serve (Get_and_inc_count n) w = map_option (\<lambda>(out, w2). (out, urt_global_sem_post w2)) (rest (Begin (Get_and_inc_count n)) w1)"
    and "serve (Force_clear_name clr n) w = map_option (\<lambda>(out, w2). (out, urt_global_sem_post w2)) (rest (Begin (Force_clear_name clr n)) w1)"
  using assms
  by (auto simp: serve_def urt_inc_name_count_def urt_dec_name_count_def urt_get_object_by_name_and_inc_count_def
      urt_force_clear_name_def rest_scanned_def rest_count_def Let_def update_slot_def split: option.splits)

lemma serve_free_name:
  assumes "urt_global_sem_wait w = Some w1"
  shows "serve (Get_free_name buf) w = map_option (\<lambda>(out, w2). (out, urt_global_sem_post w2)) (rest (Begin (Get_free_name buf)) w1)"
proof -
  obtain ret nn where inc: "increment_name (next_free_name (gmem w1)) = (ret, nn)" by fastforce
  show ?thesis
  proof (cases "names_exhausted (gmem w1)")
    case True
    then show ?thesis
      using assms inc check_and_get_free_name.simps [of buf "gmem w1"]
      by (auto simp: serve_def urt_get_free_name_def rest_incremented_def rest_search_def set_next_name_def find_by_name_def
          Let_def split: option.splits)
  next
    case False
    then show ?thesis
      using assms inc
      by (auto simp: serve_def urt_get_free_name_def rest_incremented_def set_next_name_def Let_def)
  qed
qed

lemma serve_rest:
  assumes "urt_global_sem_wait w = Some w1"
  shows "serve rq w = map_option (\<lambda>(out, w2). (out, urt_global_sem_post w2)) (rest (Begin rq) w1)"
  using serve_reserve [OF assms] serve_counting [OF assms] serve_free_name [OF assms] by (cases rq) simp_all


section \<open>Processes\<close>

datatype 'os process = Idle | Waiting "'os request" | Inside "'os request" "'os point"

text \<open>
  The shared state, where every process is, and the operations that are over, with the process
  that called them and their results, in the order in which they left.
\<close>

record ('p, 'os) urt_system =
  world :: "'os urt_global"
  procs :: "'p \<Rightarrow> 'os process"
  served :: "('p \<times> 'os request \<times> outcome) list"

inductive interleave :: "('p, 'os) urt_system \<Rightarrow> ('p, 'os) urt_system \<Rightarrow> bool" where
  call: "procs s p = Idle \<Longrightarrow> interleave s (s\<lparr>procs := (procs s)(p := Waiting rq)\<rparr>)"
| enter: "procs s p = Waiting rq \<Longrightarrow> urt_global_sem_wait (world s) = Some w \<Longrightarrow>
    interleave s (s\<lparr>world := w, procs := (procs s)(p := Inside rq (Begin rq))\<rparr>)"
| work: "procs s p = Inside rq pc \<Longrightarrow> \<forall>out. pc \<noteq> Leave out \<Longrightarrow> point_step pc (world s) = (pc', w) \<Longrightarrow>
    interleave s (s\<lparr>world := w, procs := (procs s)(p := Inside rq pc')\<rparr>)"
| leave: "procs s p = Inside rq (Leave out) \<Longrightarrow>
    interleave s (s\<lparr>world := urt_global_sem_post (world s), procs := (procs s)(p := Idle),
                   served := served s @ [(p, rq, out)]\<rparr>)"

inductive_cases interleaveE: "interleave s s'"

inductive interleave_reachable :: "'os urt_global \<Rightarrow> ('p, 'os) urt_system \<Rightarrow> bool" for w0 where
  start: "interleave_reachable w0 \<lparr>world = w0, procs = (\<lambda>p. Idle), served = []\<rparr>"
| step: "interleave_reachable w0 s \<Longrightarrow> interleave s s' \<Longrightarrow> interleave_reachable w0 s'"

fun inside :: "'os process \<Rightarrow> bool" where
  "inside (Inside rq pc) = True"
| "inside _ = False"

text \<open>The operations of a list one after the other, with the given results.\<close>

fun serial_run :: "'os urt_global \<Rightarrow> ('p \<times> 'os request \<times> outcome) list \<Rightarrow> 'os urt_global option" where
  "serial_run w [] = Some w"
| "serial_run w ((p, rq, out) # h) =
     (case serve rq w of None \<Rightarrow> None
      | Some (out', w') \<Rightarrow> if out' = out then serial_run w' h else None)"

definition run_points :: "nat \<Rightarrow> 'os point \<times> 'os urt_global \<Rightarrow> 'os point \<times> 'os urt_global" where
  "run_points k = (\<lambda>(pc, w). point_step pc w) ^^ k"

section \<open>Every interleaving is a sequence of operations\<close>

lemma run_points_simps [simp]:
  "run_points 0 x = x" "run_points (Suc k) x = point_step (fst (run_points k x)) (snd (run_points k x))"
  by (simp_all add: run_points_def split: prod.splits)

lemma run_points_add: "run_points (m + n) x = run_points m (run_points n x)"
  by (simp add: run_points_def funpow_add)

lemma run_points_Leave: "run_points k (Leave out, w) = (Leave out, w)"
  by (induction k) simp_all

lemma run_points_rest: "rest (fst (run_points k x)) (snd (run_points k x)) = rest (fst x) (snd x)"
  by (induction k) (simp_all add: rest_step)

lemma run_points_gsem: "gsem (snd (run_points k x)) = gsem (snd x)"
  by (induction k) simp_all

lemma serial_run_append:
  "serial_run w (h @ [(p, rq, out)]) =
     (case serial_run w h of None \<Rightarrow> None | Some w1 \<Rightarrow> serial_run w1 [(p, rq, out)])"
  by (induction w h rule: serial_run.induct) (auto split: option.splits)

text \<open>
  The serial state, which the operations that are over have produced, is the shared state when
  no process is inside; otherwise the one that is inside started from it and has come to
  where it is by its own steps alone.
\<close>

definition nobody_inside :: "('p, 'os) urt_system \<Rightarrow> bool" where
  "nobody_inside s \<longleftrightarrow> (\<forall>p. \<not> inside (procs s p))"

definition alone_inside :: "('p, 'os) urt_system \<Rightarrow> 'p \<Rightarrow> 'os request \<Rightarrow> 'os point \<Rightarrow> bool" where
  "alone_inside s p rq pc \<longleftrightarrow> procs s p = Inside rq pc \<and> (\<forall>q. q \<noteq> p \<longrightarrow> \<not> inside (procs s q))"

lemma alone_inside_not_nobody:
  "alone_inside s p rq pc \<Longrightarrow> \<not> nobody_inside s" "nobody_inside s \<Longrightarrow> procs s p \<noteq> Inside rq pc"
  by (metis alone_inside_def inside.simps(1) nobody_inside_def) (metis inside.simps(1) nobody_inside_def)

definition serialized :: "'os urt_global \<Rightarrow> ('p, 'os) urt_system \<Rightarrow> 'os urt_global \<Rightarrow> bool" where
  "serialized w0 s w \<longleftrightarrow> serial_run w0 (served s) = Some w \<and> gsem w = 1 \<and>
     (nobody_inside s \<and> world s = w \<or>
      (\<exists>p rq pc k. alone_inside s p rq pc \<and> run_points k (Begin rq, w\<lparr>gsem := 0\<rparr>) = (pc, world s)))"

lemma serialized_outside: "serialized w0 s w \<Longrightarrow> nobody_inside s \<Longrightarrow> world s = w"
  using alone_inside_not_nobody(1) [of s] by (auto simp: serialized_def)

lemma serialized_somebody:
  assumes "serialized w0 s w" and "\<not> nobody_inside s"
  obtains p rq pc k where "alone_inside s p rq pc" and "run_points k (Begin rq, w\<lparr>gsem := 0\<rparr>) = (pc, world s)"
  using assms unfolding serialized_def by blast

lemma serialized_aloneI:
  assumes "serialized w0 s w" and "alone_inside s' p rq pc" and "served s' = served s"
    and "run_points k (Begin rq, w\<lparr>gsem := 0\<rparr>) = (pc, world s')"
  shows "serialized w0 s' w"
proof -
  have "serial_run w0 (served s') = Some w \<and> gsem w = 1" using assms(1,3) by (simp add: serialized_def)
  with assms(2,4) show ?thesis unfolding serialized_def by blast
qed

lemma serialized_gsem:
  assumes "serialized w0 s w"
  shows "gsem (world s) = (if nobody_inside s then 1 else 0)"
proof (cases "nobody_inside s")
  case True
  with serialized_outside [OF assms] assms show ?thesis by (simp add: serialized_def)
next
  case False
  with assms obtain p rq pc k where "run_points k (Begin rq, w\<lparr>gsem := 0\<rparr>) = (pc, world s)"
    by (rule serialized_somebody)
  with run_points_gsem [of k "(Begin rq, w\<lparr>gsem := 0\<rparr>)"] False show ?thesis by simp
qed

lemma serialized_call:
  assumes "serialized w0 s w" and "procs s p = Idle"
  shows "serialized w0 (s\<lparr>procs := (procs s)(p := Waiting rq)\<rparr>) w"
proof -
  have i: "inside (((procs s)(p := Waiting rq)) q) = inside (procs s q)" for q using assms(2) by simp
  have "nobody_inside (s\<lparr>procs := (procs s)(p := Waiting rq)\<rparr>) = nobody_inside s"
    unfolding nobody_inside_def using i by simp
  moreover have "alone_inside (s\<lparr>procs := (procs s)(p := Waiting rq)\<rparr>) q r pc = alone_inside s q r pc" for q r pc
    unfolding alone_inside_def using i assms(2) by auto
  ultimately show ?thesis using assms(1) by (simp add: serialized_def)
qed

lemma serialized_enter:
  assumes "serialized w0 s w" and "procs s p = Waiting rq" and "urt_global_sem_wait (world s) = Some w'"
  shows "serialized w0 (s\<lparr>world := w', procs := (procs s)(p := Inside rq (Begin rq))\<rparr>) w"
proof -
  have n: "nobody_inside s" "w' = (world s)\<lparr>gsem := gsem (world s) - 1\<rparr>"
    using assms(3) serialized_gsem [OF assms(1)] by (auto simp: sem_wait_run split: if_splits)
  with assms(1) serialized_outside [OF assms(1)] have w: "world s = w" "serial_run w0 (served s) = Some w" "gsem w = 1"
    by (auto simp: serialized_def)
  show ?thesis
  proof (rule serialized_aloneI [OF assms(1)])
    show "alone_inside (s\<lparr>world := w', procs := (procs s)(p := Inside rq (Begin rq))\<rparr>) p rq (Begin rq)"
      using n(1) by (simp add: alone_inside_def nobody_inside_def)
    show "run_points 0 (Begin rq, w\<lparr>gsem := 0\<rparr>) = (Begin rq, world (s\<lparr>world := w', procs := (procs s)(p := Inside rq (Begin rq))\<rparr>))"
      using w n(2) by simp
  qed simp
qed

lemma serialized_inside:
  assumes "serialized w0 s w" and "procs s p = Inside rq pc"
  shows "alone_inside s p rq pc" and "\<exists>k. run_points k (Begin rq, w\<lparr>gsem := 0\<rparr>) = (pc, world s)"
proof -
  from assms(2) have "\<not> nobody_inside s" using alone_inside_not_nobody(2) [of s p rq pc] by blast
  with assms(1) obtain q r c k where q: "alone_inside s q r c" "run_points k (Begin r, w\<lparr>gsem := 0\<rparr>) = (c, world s)"
    by (rule serialized_somebody)
  with assms(2) have "q = p" unfolding alone_inside_def by (metis inside.simps(1))
  with q assms(2) show "alone_inside s p rq pc" "\<exists>k. run_points k (Begin rq, w\<lparr>gsem := 0\<rparr>) = (pc, world s)"
    by (auto simp: alone_inside_def)
qed

lemma serialized_work:
  assumes "serialized w0 s w" and "procs s p = Inside rq pc" and "point_step pc (world s) = (pc', w')"
  shows "serialized w0 (s\<lparr>world := w', procs := (procs s)(p := Inside rq pc')\<rparr>) w"
proof -
  from serialized_inside [OF assms(1,2)] obtain k where
    k: "alone_inside s p rq pc" "run_points k (Begin rq, w\<lparr>gsem := 0\<rparr>) = (pc, world s)" by blast
  show ?thesis
  proof (rule serialized_aloneI [OF assms(1)])
    show "alone_inside (s\<lparr>world := w', procs := (procs s)(p := Inside rq pc')\<rparr>) p rq pc'"
      using k(1) by (simp add: alone_inside_def)
    show "run_points (Suc k) (Begin rq, w\<lparr>gsem := 0\<rparr>) = (pc', world (s\<lparr>world := w', procs := (procs s)(p := Inside rq pc')\<rparr>))"
      using k(2) assms(3) by simp
  qed simp
qed

lemma serialized_leave:
  assumes "serialized w0 s w" and "procs s p = Inside rq (Leave out)"
  shows "serialized w0 (s\<lparr>world := urt_global_sem_post (world s), procs := (procs s)(p := Idle),
    served := served s @ [(p, rq, out)]\<rparr>) (urt_global_sem_post (world s))"
proof -
  from serialized_inside [OF assms] obtain k where
    k: "alone_inside s p rq (Leave out)" "run_points k (Begin rq, w\<lparr>gsem := 0\<rparr>) = (Leave out, world s)" by blast
  have w: "serial_run w0 (served s) = Some w" "gsem w = 1" using assms(1) by (simp_all add: serialized_def)
  then have wait: "urt_global_sem_wait w = Some (w\<lparr>gsem := 0\<rparr>)" by (simp add: sem_wait_run)
  have "rest (Begin rq) (w\<lparr>gsem := 0\<rparr>) = Some (out, world s)"
    using run_points_rest [of k "(Begin rq, w\<lparr>gsem := 0\<rparr>)"] k(2) by simp
  then have "serve rq w = Some (out, urt_global_sem_post (world s))" using serve_rest [OF wait] by simp
  moreover have "gsem (world s) = 0" using run_points_gsem [of k "(Begin rq, w\<lparr>gsem := 0\<rparr>)"] k(2) by simp
  ultimately show ?thesis
    using w k(1) by (simp add: serialized_def serial_run_append nobody_inside_def alone_inside_def urt_global_sem_post_def)
qed

lemma serialized_step:
  assumes "interleave s s'" and "serialized w0 s w"
  shows "\<exists>w'. serialized w0 s' w'"
  using assms
proof (induction rule: interleave.induct)
  case (call s p rq)
  show ?case by (rule exI [of _ w], rule serialized_call [OF call(2,1)])
next
  case (enter s p rq w')
  show ?case by (rule exI [of _ w], rule serialized_enter [OF enter(3,1,2)])
next
  case (work s p rq pc pc' w')
  show ?case by (rule exI [of _ w], rule serialized_work [OF work(4,1,3)])
next
  case (leave s p rq out)
  show ?case by (rule exI, rule serialized_leave [OF leave(2,1)])
qed

lemma reachable_serialized:
  assumes "interleave_reachable w0 s" and "gsem w0 = 1"
  shows "\<exists>w. serialized w0 s w"
  using assms(1)
proof induction
  case start
  show ?case using assms(2) by (auto simp: serialized_def nobody_inside_def)
next
  case (step s s')
  then show ?case using serialized_step by blast
qed

section \<open>Every critical section ends\<close>

definition reaches :: "'os point \<times> 'os urt_global \<Rightarrow> 'os point \<times> 'os urt_global \<Rightarrow> bool" where
  "reaches x y \<longleftrightarrow> (\<exists>n. run_points n x = y)"

definition section_ends :: "'os point \<times> 'os urt_global \<Rightarrow> bool" where
  "section_ends x \<longleftrightarrow> (\<exists>out w. reaches x (Leave out, w))"

lemma reaches_refl: "reaches x x"
  unfolding reaches_def by (rule exI [of _ 0]) simp

lemma reaches_trans: "reaches x y \<Longrightarrow> reaches y z \<Longrightarrow> reaches x z"
  unfolding reaches_def using run_points_add by metis

lemma reaches_step: "reaches (point_step pc w) y \<Longrightarrow> reaches (pc, w) y"
proof (rule reaches_trans)
  show "reaches (pc, w) (point_step pc w)" unfolding reaches_def by (rule exI [of _ "Suc 0"]) simp
qed

lemma section_ends_from: "reaches x y \<Longrightarrow> section_ends y \<Longrightarrow> section_ends x"
  unfolding section_ends_def using reaches_trans by blast

lemma section_ends_step: "section_ends (point_step pc w) \<Longrightarrow> section_ends (pc, w)"
  unfolding section_ends_def using reaches_step by blast

lemma section_ends_Leave: "section_ends (Leave out, w)"
  unfolding section_ends_def using reaches_refl by blast

lemma scan_reaches: "reaches (Scan u n m i, w) (Scanned u n (found_from (gmem w) n m i), w)"
proof (induction "Suc m - i" arbitrary: i)
  case 0
  then show ?case by (intro reaches_step) (simp add: found_from_step reaches_refl Let_def)
next
  case (Suc k)
  show ?case
  proof (cases "(ro_reserved (objects (gmem w) ! i) \<or> ro_count (objects (gmem w) ! i) \<noteq> 0)
      \<and> name_eq (ro_name (objects (gmem w) ! i)) n")
    case True
    then show ?thesis using Suc(2) found_from_step [of "gmem w" n m i]
      by (intro reaches_step) (auto simp: reaches_refl Let_def)
  next
    case False
    have "reaches (Scan u n m (i + 1), w) (Scanned u n (found_from (gmem w) n m (i + 1)), w)"
      using Suc by simp
    moreover have "point_step (Scan u n m i) w = (Scan u n m (i + 1), w)"
      and "found_from (gmem w) n m i = found_from (gmem w) n m (i + 1)"
      using False Suc(2) by (auto simp: Let_def found_from_step [of "gmem w" n m i])
    ultimately show ?thesis by (intro reaches_step) (simp only:)
  qed
qed

lemma reset_reaches:
  "reaches (Reset name k ret ex, w) (Incremented name ret ex, set_next_name (reset_from k (next_free_name (gmem w))) w)"
proof (induction k arbitrary: w)
  case 0
  show ?case by (intro reaches_step) (simp add: reaches_refl)
next
  case (Suc k)
  show ?case
    using Suc [of "set_next_name ((next_free_name (gmem w))[URT_NAME_LEN - 1 - Suc k := CHR ''_'']) w"]
    by (intro reaches_step) simp
qed

lemma digit_reaches:
  assumes "increment_from k (next_free_name (gmem w)) = (ret, nn)"
  shows "reaches (Digit name k ex, w) (Incremented name ret ex, set_next_name nn w)"
  using assms
proof (induction k arbitrary: w)
  case 0
  then show ?case using reset_reaches [of name 5 1 ex w] by (intro reaches_step) (simp add: reset_name_def)
next
  case (Suc k)
  show ?case
  proof (cases "next_digit (c_at (next_free_name (gmem w)) k)")
    case None
    then show ?thesis
      using Suc(2) reset_reaches [of name 5 "-1" ex w] by (intro reaches_step) (simp add: reset_name_def)
  next
    case (Some df)
    obtain d fin where df: "df = (d, fin)" by fastforce
    show ?thesis
    proof (cases fin)
      case True
      then show ?thesis using Some df Suc(2) by (intro reaches_step) (simp add: reaches_refl Let_def)
    next
      case False
      then show ?thesis
        using Some df Suc(2) Suc(1) [of "set_next_name ((next_free_name (gmem w))[k := d]) w"]
        by (intro reaches_step) (simp add: Let_def)
    qed
  qed
qed

lemma section_ends_copy: "section_ends (Copy n i k, w)"
proof (induction "URT_NAME_LEN - k" arbitrary: k w)
  case 0
  then show ?case by (intro section_ends_step) (auto intro!: section_ends_step section_ends_Leave simp: section_ends_Leave)
next
  case (Suc m)
  then show ?case by (intro section_ends_step) (auto intro!: section_ends_step section_ends_Leave simp: section_ends_Leave)
qed

lemma section_ends_pick: "section_ends (Pick n i, w)"
proof (induction "URT_MAX_OBJECTS (gmem w) - i" arbitrary: i)
  case 0
  then show ?case by (intro section_ends_step) (simp add: section_ends_Leave)
next
  case (Suc m)
  have "section_ends (Claim n i, w)" by (rule section_ends_step) (simp add: section_ends_copy)
  moreover have "section_ends (Pick n (i + 1), w)" using Suc by simp
  ultimately show ?case by (intro section_ends_step) (simp add: section_ends_Leave)
qed

lemma section_ends_count: "section_ends (Count i out, w)"
  by (intro section_ends_step, simp, intro section_ends_step, simp add: section_ends_Leave)

text \<open>The clean-up of \<^verbatim>\<open>_dec_count_common\<close> does not touch the slots.\<close>

lemma check_reaches: "\<exists>w'. reaches (Check i k again, w) (Again i again, w') \<and> objects (gmem w') = objects (gmem w)"
proof (induction "URT_MAX_OBJECTS (gmem w) - k" arbitrary: k w)
  case 0
  have "reaches (Check i k again, w) (Again i again, w)" using 0 by (intro reaches_step) (simp add: reaches_refl)
  then show ?case by blast
next
  case (Suc m)
  let ?w1 = "if (ro_reserved (objects (gmem w) ! k) \<or> ro_count (objects (gmem w) ! k) > 0) \<and> k > objects_max_index (gmem w)
    then set_max k w else w"
  have "k < URT_MAX_OBJECTS (gmem w)" using Suc(2) by simp
  then have "point_step (Check i k again) w = (Check i (k + 1) again, ?w1)" "objects (gmem ?w1) = objects (gmem w)"
    by simp_all
  then obtain w1 where s: "point_step (Check i k again) w = (Check i (k + 1) again, w1)" "objects (gmem w1) = objects (gmem w)"
    by blast
  then have m: "m = URT_MAX_OBJECTS (gmem w1) - (k + 1)" using Suc(2) by simp
  from Suc(1) [OF m] s(2) obtain w' where
    w': "reaches (Check i (k + 1) again, w1) (Again i again, w')" "objects (gmem w') = objects (gmem w)" by auto
  then have "reaches (Check i k again, w) (Again i again, w')" by (intro reaches_step) (simp only: s(1))
  with w'(2) show ?case by blast
qed

lemma lower_reaches: "\<exists>w'. reaches (Lower i j again, w) (Again i again, w') \<and> objects (gmem w') = objects (gmem w)"
proof (induction j)
  case 0
  obtain w' where "reaches (Check i 0 again, set_max 0 w) (Again i again, w')" "objects (gmem w') = objects (gmem w)"
    using check_reaches [of i 0 again "set_max 0 w"] by auto
  then show ?case by (intro exI [of _ w'] conjI reaches_step) simp_all
next
  case (Suc j)
  obtain w1 where w1: "reaches (Check i 0 again, set_max (Suc j) w) (Again i again, w1)" "objects (gmem w1) = objects (gmem w)"
    using check_reaches [of i 0 again "set_max (Suc j) w"] by auto
  from Suc obtain w2 where w2: "reaches (Lower i j again, w) (Again i again, w2)" "objects (gmem w2) = objects (gmem w)" by auto
  show ?case
  proof (cases "\<not> ro_reserved (objects (gmem w) ! Suc j) \<and> ro_count (objects (gmem w) ! Suc j) = 0")
    case True
    with w2 show ?thesis by (intro exI [of _ w2] conjI reaches_step) simp_all
  next
    case False
    with w1 show ?thesis by (intro exI [of _ w1] conjI reaches_step) auto
  qed
qed

lemma test_reaches: "\<exists>w'. reaches (Test_users i again, w) (Again i again, w') \<and> objects (gmem w') = objects (gmem w)"
proof -
  have "\<exists>w'. reaches (point_step (Test_users i again) w) (Again i again, w') \<and> objects (gmem w') = objects (gmem w)"
    using lower_reaches [of i i again w] check_reaches [of i 0 again w] reaches_refl [of "(Again i again, w)"] by auto
  then show ?thesis using reaches_step by blast
qed

lemma count_unchanged: "ro_count ro = c \<Longrightarrow> ro\<lparr>ro_count := c, ro_reserved := b\<rparr> = ro\<lparr>ro_reserved := b\<rparr>"
  by auto

lemma drop_reaches:
  "\<exists>w'. reaches (Drop i rel again, w) (Again i again, w') \<and> objects (gmem w') = (objects (gmem w))[i :=
     (objects (gmem w) ! i)\<lparr>ro_count := (if ro_count (objects (gmem w) ! i) > 0 then ro_count (objects (gmem w) ! i) - 1 else 0),
        ro_reserved := False\<rparr>]"
proof -
  let ?w1 = "snd (point_step (Drop i rel again) w)"
  let ?w2 = "snd (point_step (Drop_reserved i rel again) ?w1)"
  let ?w3 = "snd (point_step (Call_release i rel again) ?w2)"
  have r: "reaches (Drop i rel again, w) (Test_users i again, ?w3)"
    by (rule reaches_step, simp, rule reaches_step, simp, rule reaches_step, simp add: reaches_refl)
  have o: "objects (gmem ?w3) = (objects (gmem w))[i :=
     (objects (gmem w) ! i)\<lparr>ro_count := (if ro_count (objects (gmem w) ! i) > 0 then ro_count (objects (gmem w) ! i) - 1 else 0),
        ro_reserved := False\<rparr>]"
    by (cases "i < URT_MAX_OBJECTS (gmem w)")
       (auto simp: list_update_beyond not_less count_unchanged split: option.splits)
  obtain w4 where "reaches (Test_users i again, ?w3) (Again i again, w4)" "objects (gmem w4) = objects (gmem ?w3)"
    using test_reaches [of i again ?w3] by blast
  with r o show ?thesis by (intro exI [of _ w4]) (simp only: reaches_trans)
qed

lemma section_ends_drop: "section_ends (Drop i rel again, w)"
proof (induction "unat (ro_count (objects (gmem w) ! i))" arbitrary: w rel again rule: less_induct)
  case less
  obtain w' where r: "reaches (Drop i rel again, w) (Again i again, w')" and o: "objects (gmem w') = (objects (gmem w))[i :=
     (objects (gmem w) ! i)\<lparr>ro_count := (if ro_count (objects (gmem w) ! i) > 0 then ro_count (objects (gmem w) ! i) - 1 else 0),
        ro_reserved := False\<rparr>]"
    using drop_reaches by blast
  have "section_ends (Again i again, w')"
  proof (cases "again \<and> i < URT_MAX_OBJECTS (gmem w') \<and> ro_count (objects (gmem w') ! i) > 0")
    case False
    then show ?thesis by (intro section_ends_step) (auto simp: section_ends_Leave)
  next
    case True
    then have "unat (ro_count (objects (gmem w') ! i)) < unat (ro_count (objects (gmem w) ! i))"
      using o by (auto intro!: unat_dec split: if_splits)
    from less [OF this] True show ?thesis by (intro section_ends_step) simp
  qed
  with r show ?case by (rule section_ends_from)
qed


text \<open>
  With the generated names exhausted, \<^verbatim>\<open>_check_and_get_free_name\<close> ends when its meaning, the
  partial function, is defined.
\<close>

lemma section_ends_search:
  assumes "check_and_get_free_name name (gmem w) = Some r"
  shows "section_ends (Digit (strncpy name (next_free_name (gmem w)) URT_NAME_LEN) (URT_NAME_LEN - 1) True, w)"
proof -
  have "\<forall>w. gmem w = g \<longrightarrow> section_ends (Digit (strncpy name (next_free_name (gmem w)) URT_NAME_LEN) (URT_NAME_LEN - 1) True, w :: 'a urt_global)"
    if "check_and_get_free_name name g = Some r" for name g r
    using that
  proof (induction name g r rule: check_and_get_free_name.raw_induct [rotated, consumes 1, case_names 1])
    case (1 cagfn name g r)
    let ?name = "strncpy name (next_free_name g) URT_NAME_LEN"
    obtain ret nn where inc: "increment_name (next_free_name g) = (ret, nn)" by fastforce
    show ?case
    proof (intro allI impI)
      fix w :: "'a urt_global" assume w: "gmem w = g"
      let ?w = "set_next_name nn w"
      have g': "gmem ?w = g\<lparr>next_free_name := nn\<rparr>" using w by (simp add: set_next_name_def)
      have r: "reaches (Digit ?name (URT_NAME_LEN - 1) True, w) (Incremented ?name ret True, ?w)"
        using digit_reaches [of 5 w ret nn ?name True] inc w by (simp add: increment_name_def)
      have "section_ends (Incremented ?name ret True, ?w)"
      proof (cases "ret < 0 \<or> find_by_name (gmem ?w) ?name \<noteq> None")
        case False
        have "section_ends (Scanned To_generate ?name (found_from (gmem ?w) ?name (objects_max_index (gmem ?w)) 0), ?w)"
          using False by (intro section_ends_step) (simp add: find_by_name_from section_ends_Leave)
        from section_ends_from [OF scan_reaches this] show ?thesis using False by (intro section_ends_step) simp
      next
        case True
        then have "cagfn ?name (g\<lparr>next_free_name := nn\<rparr>) = Some r"
          using 1(2) inc g' by (simp add: Let_def)
        from 1(1) [OF this] g' have d: "section_ends (Digit (strncpy ?name (next_free_name (gmem ?w)) URT_NAME_LEN) (URT_NAME_LEN - 1) True, ?w)"
          by blast
        show ?thesis
        proof (cases "ret < 0")
          case True
          with d show ?thesis by (intro section_ends_step) simp
        next
          case False
          with True obtain i where "found_from (gmem ?w) ?name (objects_max_index (gmem ?w)) 0 = Some i"
            by (auto simp: find_by_name_from)
          with d have "section_ends (Scanned To_generate ?name (found_from (gmem ?w) ?name (objects_max_index (gmem ?w)) 0), ?w)"
            by (intro section_ends_step) simp
          from section_ends_from [OF scan_reaches this] show ?thesis using False by (intro section_ends_step) simp
        qed
      qed
      with r show "section_ends (Digit (strncpy name (next_free_name (gmem w)) URT_NAME_LEN) (URT_NAME_LEN - 1) True, w)"
        using w section_ends_from by auto
    qed
  qed
  with assms show ?thesis by blast
qed

lemma section_ends_scan: "u \<noteq> To_generate \<Longrightarrow> section_ends (Scan u n m i, w)"
proof (rule section_ends_from [OF scan_reaches])
  assume "u \<noteq> To_generate"
  then show "section_ends (Scanned u n (found_from (gmem w) n m i), w)"
    by (cases u) (auto intro!: section_ends_step
        simp: section_ends_Leave section_ends_pick section_ends_count section_ends_drop split: option.split)
qed

lemma critical_section_ends:
  assumes "rest (Begin rq) w \<noteq> None"
  shows "section_ends (Begin rq, w)"
proof (cases rq)
  case (Get_free_name buf)
  let ?name = "strncpy buf (next_free_name (gmem w)) URT_NAME_LEN"
  show ?thesis
  proof (cases "names_exhausted (gmem w)")
    case True
    from assms Get_free_name True rest_step [of "Begin rq" w]
    have "rest (Digit ?name (URT_NAME_LEN - 1) True) w \<noteq> None" by (simp del: rest.simps)
    then have "rest_search buf True w \<noteq> None" using rest_search_again [of buf w] by (simp del: rest.simps)
    then obtain r where "check_and_get_free_name buf (gmem w) = Some r" by (auto simp: rest_search_def split: option.splits)
    from section_ends_search [OF this] True Get_free_name show ?thesis by (intro section_ends_step) simp
  next
    case False
    obtain ret nn where inc: "increment_from (URT_NAME_LEN - 1) (next_free_name (gmem w)) = (ret, nn)" by fastforce
    have "section_ends (Incremented ?name ret False, set_next_name nn w)"
      by (intro section_ends_step) (simp add: section_ends_Leave)
    from section_ends_from [OF digit_reaches [OF inc] this] show ?thesis
      using False Get_free_name by (intro section_ends_step) simp
  qed
qed (auto intro!: section_ends_step [of "Begin _"] section_ends_scan section_ends_count section_ends_drop)

section \<open>The slots at every program point\<close>

text \<open>The registry invariant without the index, and that a name is not in use.\<close>

definition slots_ok :: "urt_internal \<Rightarrow> bool" where
  "slots_ok g \<longleftrightarrow> used_distinct g \<and> (\<forall>i<URT_MAX_OBJECTS g. length (ro_name (objects g ! i)) = 7)
     \<and> gen_name (next_free_name g)"

definition absent :: "string \<Rightarrow> urt_internal \<Rightarrow> bool" where
  "absent n g \<longleftrightarrow> (\<forall>j<URT_MAX_OBJECTS g. ro_used (objects g ! j) \<longrightarrow> cname (ro_name (objects g ! j)) \<noteq> cname n)"

abbreviation without :: "nat \<Rightarrow> urt_internal \<Rightarrow> urt_internal" where
  "without i g \<equiv> ro_update i (\<lambda>ro. ro_zero) g"

text \<open>A slot that is being reserved, when \<open>k\<close> characters of its name have been copied.\<close>

definition torn_slot :: "string \<Rightarrow> nat \<Rightarrow> urt_registered_object" where
  "torn_slot n k = ro_zero\<lparr>ro_reserved := True, ro_name := take k (cname n) @ replicate (7 - k) NUL\<rparr>"

text \<open>
  What holds at each program point. While a name is being copied into a new slot, it holds of the
  registry without that slot.
\<close>

fun sound :: "'os point \<Rightarrow> 'os urt_global \<Rightarrow> bool" where
  "sound (Begin rq) w = (registry_inv (gmem w) \<and>
     (\<forall>i. rq = Inc_name_count i \<longrightarrow> i < URT_MAX_OBJECTS (gmem w) \<and> ro_used (objects (gmem w) ! i)))"
| "sound (Scan u n m i) w = (registry_inv (gmem w) \<and> found_from (gmem w) n m i = find_by_name (gmem w) n)"
| "sound (Scanned u n r) w = (registry_inv (gmem w) \<and> r = find_by_name (gmem w) n)"
| "sound (Pick n i) w = (slots_ok (gmem w) \<and> absent n (gmem w))"
| "sound (Claim n i) w = (slots_ok (gmem w) \<and> absent n (gmem w) \<and> i < URT_MAX_OBJECTS (gmem w))"
| "sound (Copy n i k) w = (slots_ok (without i (gmem w)) \<and> absent n (without i (gmem w)) \<and> i < URT_MAX_OBJECTS (gmem w) \<and>
     k \<le> length (cname n) \<and> objects (gmem w) ! i = torn_slot n k)"
| "sound (Count i out) w = (slots_ok (gmem w) \<and> i < URT_MAX_OBJECTS (gmem w) \<and> ro_used (objects (gmem w) ! i))"
| "sound (Digit name k ex) w = (registry_inv (gmem w) \<and> k \<le> 5)"
| "sound (Reset name k ret ex) w = (registry_inv (gmem w) \<and> k \<le> 5)"
| "sound (Incremented name ret ex) w = registry_inv (gmem w)"
| "sound _ w = slots_ok (gmem w)"

fun copying :: "'os point \<Rightarrow> bool" where
  "copying (Copy n i k) = True"
| "copying _ = False"

lemma slots_ok_inv: "registry_inv g \<Longrightarrow> slots_ok g"
  by (simp add: registry_inv_def slots_ok_def)

lemma sound_slots_ok: "sound pc w \<Longrightarrow> \<not> copying pc \<Longrightarrow> slots_ok (gmem w)"
  by (cases "(pc, w)" rule: sound.cases) (auto simp: slots_ok_inv)

lemma slots_ok_cong:
  "objects g' = objects g \<Longrightarrow> next_free_name g' = next_free_name g \<Longrightarrow> slots_ok g' = slots_ok g"
  by (simp add: slots_ok_def used_distinct_def)

lemma absent_found: "registry_inv g \<Longrightarrow> find_by_name g n = None \<Longrightarrow> absent n g"
  using find_by_name_Some_iff [of g n] by (auto simp: absent_def)

text \<open>A slot that keeps its name and does not come into use.\<close>

lemma slots_ok_update:
  assumes "slots_ok g" and "\<And>ro. ro_name (f ro) = ro_name ro"
    and "i < URT_MAX_OBJECTS g \<Longrightarrow> ro_used (f (objects g ! i)) \<Longrightarrow> ro_used (objects g ! i)"
  shows "slots_ok (ro_update i f g)"
proof -
  have old: "ro_used (objects (ro_update i f g) ! j) \<Longrightarrow> ro_used (objects g ! j)"
    "ro_name (objects (ro_update i f g) ! j) = ro_name (objects g ! j)" if "j < URT_MAX_OBJECTS g" for j
    using that assms(2,3) by (cases "i = j"; auto simp: objects_ro_update)+
  have "used_distinct (ro_update i f g)"
    unfolding used_distinct_def
  proof (intro allI impI)
    fix a b
    assume "a < URT_MAX_OBJECTS (ro_update i f g)" "b < URT_MAX_OBJECTS (ro_update i f g)"
      "ro_used (objects (ro_update i f g) ! a)" "ro_used (objects (ro_update i f g) ! b)"
      "cname (ro_name (objects (ro_update i f g) ! a)) = cname (ro_name (objects (ro_update i f g) ! b))"
    then show "a = b" using assms(1) old unfolding slots_ok_def used_distinct_def by simp
  qed
  then show ?thesis using assms(1) old by (simp add: slots_ok_def)
qed

text \<open>A new slot with a name that no other slot has.\<close>

lemma slots_ok_new:
  assumes "slots_ok (without i g)" and "absent (ro_name ro) (without i g)" and "length (ro_name ro) = 7"
  shows "slots_ok (ro_update i (\<lambda>_. ro) g)"
proof -
  let ?g = "ro_update i (\<lambda>_. ro) g"
  have same: "objects ?g ! j = objects (without i g) ! j" if "j \<noteq> i" for j
    using that by (simp add: objects_ro_update)
  have new: "objects ?g ! i = ro" if "i < URT_MAX_OBJECTS g" using that by (simp add: objects_ro_update)
  have "used_distinct ?g"
    unfolding used_distinct_def
  proof (intro allI impI)
    fix a b
    assume ab: "a < URT_MAX_OBJECTS ?g" "b < URT_MAX_OBJECTS ?g" "ro_used (objects ?g ! a)" "ro_used (objects ?g ! b)"
      "cname (ro_name (objects ?g ! a)) = cname (ro_name (objects ?g ! b))"
    then have l: "a < URT_MAX_OBJECTS g" "b < URT_MAX_OBJECTS g" by simp_all
    show "a = b"
    proof (cases "a = i \<or> b = i")
      case True
      show ?thesis
      proof (rule ccontr)
        assume "a \<noteq> b"
        with True l ab same new assms(2) show False unfolding absent_def by (metis ro_update_simps(1))
      qed
    next
      case False
      with ab same assms(1) l show ?thesis by (simp add: slots_ok_def used_distinct_def)
    qed
  qed
  moreover have "length (ro_name (objects ?g ! j)) = 7" if "j < URT_MAX_OBJECTS g" for j
    using that same new assms(1,3) by (cases "j = i") (auto simp: slots_ok_def)
  ultimately show ?thesis using assms(1) by (simp add: slots_ok_def)
qed

lemma slots_ok_without: "slots_ok g \<Longrightarrow> slots_ok (without i g)"
  "absent n g \<Longrightarrow> absent n (without i g)"
proof -
  assume s: "slots_ok g"
  have old: "ro_used (objects (without i g) ! j) \<Longrightarrow> objects (without i g) ! j = objects g ! j" if "j < URT_MAX_OBJECTS g" for j
    using that by (cases "j = i") (auto simp: objects_ro_update)
  have "length (ro_name (objects (without i g) ! j)) = 7" if "j < URT_MAX_OBJECTS g" for j
    using that s by (cases "j = i") (auto simp: objects_ro_update slots_ok_def)
  moreover have "used_distinct (without i g)"
    unfolding used_distinct_def using s old by (auto simp: slots_ok_def used_distinct_def)
  ultimately show "slots_ok (without i g)" using s by (simp add: slots_ok_def)
next
  assume "absent n g"
  moreover have "ro_used (objects (without i g) ! j) \<Longrightarrow> objects (without i g) ! j = objects g ! j" if "j < URT_MAX_OBJECTS g" for j
    using that by (cases "j = i") (auto simp: objects_ro_update)
  ultimately show "absent n (without i g)" unfolding absent_def by (metis ro_update_simps(1))
qed


lemma without_update: "without i (ro_update i f g) = without i g"
  by (cases "i < URT_MAX_OBJECTS g") (simp_all add: ro_update_def list_update_beyond not_less)

lemma gmem_simps [simp]:
  "gmem (update_slot i f w) = ro_update i f (gmem w)"
  "gmem (set_max m w) = (gmem w)\<lparr>objects_max_index := m\<rparr>"
  "gmem (set_next_name n w) = (gmem w)\<lparr>next_free_name := n\<rparr>"
  by (simp_all add: update_slot_def set_max_def set_next_name_def)

lemma slots_ok_index [simp]: "slots_ok (g\<lparr>objects_max_index := m\<rparr>) = slots_ok g"
  by (rule slots_ok_cong) simp_all

lemma slots_ok_exhausted [simp]: "slots_ok (g\<lparr>names_exhausted := e\<rparr>) = slots_ok g"
  by (rule slots_ok_cong) simp_all

lemma next_digit_digit: "c \<in> set digit_chars \<Longrightarrow> next_digit c = Some (d, fin) \<Longrightarrow> d \<in> set digit_chars"
proof -
  have "\<forall>c \<in> set digit_chars. \<forall>d fin. next_digit c = Some (d, fin) \<longrightarrow> d \<in> set digit_chars"
  proof -
    have "list_all (\<lambda>c. case next_digit c of None \<Rightarrow> True | Some (d, fin) \<Rightarrow> d \<in> set digit_chars) digit_chars"
      by code_simp
    then show ?thesis by (auto simp: list_all_iff split: option.splits prod.splits)
  qed
  then show "c \<in> set digit_chars \<Longrightarrow> next_digit c = Some (d, fin) \<Longrightarrow> d \<in> set digit_chars" by blast
qed

lemma gen_name_update:
  "gen_name n \<Longrightarrow> i < 5 \<Longrightarrow> d \<in> set digit_chars \<Longrightarrow> gen_name (n[i := d])" "gen_name n \<Longrightarrow> n[5 := CHR ''$''] = n"
  by (auto simp: gen_name_def nth_list_update) (metis list_update_id)

lemma sound_begin: "sound (Begin rq) w \<Longrightarrow> sound (fst (point_step (Begin rq) w)) (snd (point_step (Begin rq) w))"
  by (cases rq) (simp_all add: find_by_name_from slots_ok_inv)

lemma sound_scanned: "sound (Scanned u n r) w \<Longrightarrow> sound (fst (point_step (Scanned u n r) w)) (snd (point_step (Scanned u n r) w))"
  by (cases u; cases "find_by_name (gmem w) n") (auto simp: slots_ok_inv absent_found find_by_name_Some_iff)

lemma torn_slot_used: "ro_used (torn_slot n k)"
  by (simp add: torn_slot_def ro_used_def)

lemma torn_rest: "k \<le> length (cname n) \<Longrightarrow> replicate (7 - k) NUL = NUL # replicate (6 - k) NUL"
  using cname_length [of n] by (simp add: Suc_diff_le replicate_Suc [symmetric] del: replicate_Suc)

lemma torn_name:
  assumes "k \<le> length (cname n)"
  shows "length (ro_name (torn_slot n k)) = 7" and "cname (ro_name (torn_slot n k)) = take k (cname n)"
proof -
  have z: "NUL \<notin> set (take k (cname n))" using cname_no_NUL [of n] by (meson in_set_takeD)
  show "length (ro_name (torn_slot n k)) = 7" using assms cname_length [of n] by (simp add: torn_slot_def)
  show "cname (ro_name (torn_slot n k)) = take k (cname n)"
    using cstr_append_NUL [OF z, of "replicate (6 - k) NUL"] cname_length [of n] assms
    by (simp add: torn_slot_def torn_rest cname_def [of "_ @ _"] min_def)
qed

lemma torn_start: "ro_zero\<lparr>ro_reserved := True\<rparr> = torn_slot n 0"
  by (simp add: torn_slot_def ro_zero_def numeral_eq_Suc)

lemma torn_next:
  assumes "k < URT_NAME_LEN" and "c_at n k \<noteq> NUL" and "k \<le> length (cname n)"
  shows "(torn_slot n k)\<lparr>ro_name := (ro_name (torn_slot n k))[k := c_at n k]\<rparr> = torn_slot n (k + 1)"
    and "k + 1 \<le> length (cname n)"
proof -
  have k: "k < length (cname n)" using assms cname_end [of n] by (cases "k = length (cname n)") simp_all
  then show "k + 1 \<le> length (cname n)" by simp
  have "take (k + 1) (cname n) = take k (cname n) @ [c_at n k]"
    using k cname_nth [OF k] by (simp add: take_Suc_conv_app_nth)
  then show "(torn_slot n k)\<lparr>ro_name := (ro_name (torn_slot n k))[k := c_at n k]\<rparr> = torn_slot n (k + 1)"
    using k torn_rest [of k n] by (simp add: torn_slot_def list_update_append)
qed

lemma torn_end:
  assumes "\<not> (k < URT_NAME_LEN \<and> c_at n k \<noteq> NUL)" and "k \<le> length (cname n)"
  shows "k = length (cname n)" and "(torn_slot n k)\<lparr>ro_name := (ro_name (torn_slot n k))[k := NUL]\<rparr> = torn_slot n k"
proof -
  show "k = length (cname n)"
  proof (rule ccontr)
    assume "k \<noteq> length (cname n)"
    with assms(2) have k: "k < length (cname n)" by simp
    then have "cname n ! k \<noteq> NUL" using cname_no_NUL [of n] nth_mem by metis
    with assms(1) k cname_nth [OF k] cname_length [of n] show False by simp
  qed
  show "(torn_slot n k)\<lparr>ro_name := (ro_name (torn_slot n k))[k := NUL]\<rparr> = torn_slot n k"
    using assms(2) by (simp add: torn_slot_def torn_rest list_update_append)
qed

lemma sound_claim: "sound (Claim n i) w \<Longrightarrow> sound (fst (point_step (Claim n i) w)) (snd (point_step (Claim n i) w))"
  by (simp add: without_update slots_ok_without objects_ro_update torn_start)

lemma sound_copy: "sound (Copy n i k) w \<Longrightarrow> sound (fst (point_step (Copy n i k) w)) (snd (point_step (Copy n i k) w))"
proof (cases "k < URT_NAME_LEN \<and> c_at n k \<noteq> NUL")
  case True
  assume s: "sound (Copy n i k) w"
  then show ?thesis using True torn_next [of k n] by (simp add: without_update objects_ro_update)
next
  case False
  assume s: "sound (Copy n i k) w"
  then have k: "k = length (cname n)" using torn_end(1) [OF False] by simp
  have e: "(\<lambda>ro. ro\<lparr>ro_name := (ro_name ro)[k := NUL]\<rparr>) (objects (gmem w) ! i) = torn_slot n k"
    using s torn_end(2) [OF False] by simp
  have "slots_ok (ro_update i (\<lambda>_. torn_slot n k) (gmem w))"
  proof (rule slots_ok_new)
    show "slots_ok (without i (gmem w))" using s by simp
    show "absent (ro_name (torn_slot n k)) (without i (gmem w))"
      using s k torn_name(2) [of k n] by (simp add: absent_def)
    show "length (ro_name (torn_slot n k)) = 7" using torn_name(1) [of k n] k by simp
  qed
  moreover have "ro_update i (\<lambda>_. torn_slot n k) (gmem w) = ro_update i (\<lambda>ro. ro\<lparr>ro_name := (ro_name ro)[k := NUL]\<rparr>) (gmem w)"
    unfolding ro_update_def e ..
  moreover have "point_step (Copy n i k) w = (Raise_index i, update_slot i (\<lambda>ro. ro\<lparr>ro_name := (ro_name ro)[k := NUL]\<rparr>) w)"
    using False by auto
  ultimately show ?thesis by simp
qed

lemma sound_digit: "sound (Digit name k ex) w \<Longrightarrow> sound (fst (point_step (Digit name k ex) w)) (snd (point_step (Digit name k ex) w))"
proof (cases k)
  case (Suc j)
  assume s: "sound (Digit name k ex) w"
  then have g: "gen_name (next_free_name (gmem w))" using registry_invD(5) by simp
  then have "c_at (next_free_name (gmem w)) j \<in> set digit_chars" using s Suc by (auto simp: gen_name_def)
  then show ?thesis
    using s Suc g next_digit_digit [of "c_at (next_free_name (gmem w)) j"]
    by (auto simp: gen_name_update registry_inv_next_name split: option.splits)
qed simp

lemma sound_reset: "sound (Reset name k r ex) w \<Longrightarrow> sound (fst (point_step (Reset name k r ex) w)) (snd (point_step (Reset name k r ex) w))"
proof -
  assume s: "sound (Reset name k r ex) w"
  then have g: "gen_name (next_free_name (gmem w))" using registry_invD(5) by simp
  show ?thesis
    using s gen_name_update [OF g] underscore_digit by (cases k) (auto simp: registry_inv_next_name)
qed

text \<open>Each step keeps what holds.\<close>

lemma sound_step: "sound pc w \<Longrightarrow> sound (fst (point_step pc w)) (snd (point_step pc w))"
proof (cases pc)
  case (Scan u n m i)
  assume "sound pc w"
  with Scan show ?thesis using found_from_step [of "gmem w" n m i] by (auto simp: Let_def split: if_splits)
next
  case (Drop i rel again)
  assume "sound pc w"
  then have "slots_ok (ro_update i (\<lambda>ro. if ro_count ro > 0 then ro\<lparr>ro_count := ro_count ro - 1\<rparr> else ro) (gmem w))"
    using Drop by (intro slots_ok_update) (auto simp: ro_used_def split: if_splits)
  with Drop show ?thesis by simp
next
  case (Count i out)
  assume "sound pc w"
  then have "slots_ok (ro_update i (\<lambda>ro. ro\<lparr>ro_count := ro_count ro + 1\<rparr>) (gmem w))"
    using Count by (intro slots_ok_update) auto
  with Count show ?thesis by simp
next
  case (Unreserve i out)
  assume "sound pc w"
  then have "slots_ok (ro_update i (\<lambda>ro. ro\<lparr>ro_reserved := False\<rparr>) (gmem w))"
    using Unreserve by (intro slots_ok_update) (auto simp: ro_used_def)
  with Unreserve show ?thesis by simp
next
  case (Drop_reserved i rel again)
  assume "sound pc w"
  then have "slots_ok (ro_update i (\<lambda>ro. ro\<lparr>ro_reserved := False\<rparr>) (gmem w))"
    using Drop_reserved by (intro slots_ok_update) (auto simp: ro_used_def)
  with Drop_reserved show ?thesis by simp
next
  case (Incremented name ret ex)
  assume "sound pc w"
  with Incremented show ?thesis by (cases ex) (auto simp: find_by_name_from slots_ok_inv)
next
  case (Begin rq)
  assume "sound pc w" with Begin show ?thesis using sound_begin by blast
next
  case (Scanned u n r)
  assume "sound pc w" with Scanned show ?thesis using sound_scanned by blast
next
  case (Claim n i)
  assume "sound pc w" with Claim show ?thesis using sound_claim by blast
next
  case (Copy n i k)
  assume "sound pc w" with Copy show ?thesis using sound_copy by blast
next
  case (Digit name k ex)
  assume "sound pc w" with Digit show ?thesis using sound_digit by blast
next
  case (Reset name k r ex)
  assume "sound pc w" with Reset show ?thesis using sound_reset by blast
qed (auto split: option.splits)

section \<open>Lawful clients\<close>

text \<open>
  What the callers of the registry see to: a slot that is counted is in use and its counter is not
  at its maximum (\<open>attach_overflow_drops_object\<close> shows what happens when it is), a slot that is
  released exists. A list of operations is lawful if each was at its turn.
\<close>

definition obliged :: "'os request \<Rightarrow> 'os urt_global \<Rightarrow> bool" where
  "obliged rq w =
     (case rq of
        Inc_name_count i \<Rightarrow> i < URT_MAX_OBJECTS (gmem w) \<and> ro_used (objects (gmem w) ! i) \<and> ro_count (objects (gmem w) ! i) \<noteq> -1
      | Dec_name_count i rel \<Rightarrow> i < URT_MAX_OBJECTS (gmem w)
      | Get_and_inc_count n \<Rightarrow> (case find_by_name (gmem w) n of None \<Rightarrow> True | Some i \<Rightarrow> ro_count (objects (gmem w) ! i) \<noteq> -1)
      | _ \<Rightarrow> True)"

fun lawful :: "'os urt_global \<Rightarrow> ('p \<times> 'os request \<times> outcome) list \<Rightarrow> bool" where
  "lawful w [] = True"
| "lawful w ((p, rq, out) # h) =
     (obliged rq w \<and> (case serve rq w of None \<Rightarrow> True | Some (out', w') \<Rightarrow> lawful w' h))"

definition good_registry :: "'os urt_global \<Rightarrow> bool" where
  "good_registry w \<longleftrightarrow> registry_inv (gmem w) \<and> max_index_tight (gmem w) \<and> gsem w = 1 \<and> URT_MAX_OBJECTS (gmem w) < 37 ^ 5"

lemma find_by_name_sem: "find_by_name (gmem (w\<lparr>gsem := k\<rparr>)) n = find_by_name (gmem w) n"
  by simp

lemma serve_step:
  assumes "serve rq w = Some (out, w')" and "obliged rq w" and "\<And>buf. rq \<noteq> Get_free_name buf"
    and "registry_inv (gmem w)"
  shows "registry_step w w'"
proof (cases rq)
  case (Reserve_name n)
  with assms(1) show ?thesis by (auto simp: serve_def intro: registry_step.reserve)
next
  case (Inc_name_count i)
  with assms(1,2) show ?thesis by (auto simp: serve_def obliged_def intro: registry_step.count)
next
  case (Dec_name_count i rel)
  with assms(1,2) show ?thesis by (auto simp: serve_def obliged_def intro: registry_step.release)
next
  case (Get_and_inc_count n)
  with assms(1) obtain r where r: "urt_get_object_by_name_and_inc_count n w = Some (r, w')" by (auto simp: serve_def)
  then have "r = find_by_name (gmem w) n" using gsem_some(3) [OF r] by (simp add: urt_get_object_run)
  then have "\<forall>i. r = Some i \<longrightarrow> ro_count (objects (gmem w) ! i) \<noteq> -1"
    using assms(2) Get_and_inc_count by (auto simp: obliged_def)
  with r show ?thesis by (rule registry_step.lookup)
next
  case (Force_clear_name clr n)
  with assms(1) show ?thesis by (auto simp: serve_def intro: registry_step.clear)
next
  case (Get_free_name buf)
  with assms(3) show ?thesis by blast
qed

lemma serve_good:
  assumes "serve rq w = Some (out, w')" and "obliged rq w" and "good_registry w"
  shows "good_registry w'"
proof (cases "\<exists>buf. rq = Get_free_name buf")
  case False
  with assms have "registry_step w w'" by (intro serve_step) (auto simp: good_registry_def)
  from registry_step_inv [OF this] assms(3) show ?thesis by (simp add: good_registry_def)
next
  case True
  then obtain buf where rq: "rq = Get_free_name buf" by blast
  have "registry_inv (gmem w)" "0 < gsem w" "URT_MAX_OBJECTS (gmem w) < 37 ^ 5" using assms(3) by (simp_all add: good_registry_def)
  from urt_get_free_name_effect [OF this, of buf] obtain name n e where
    "urt_get_free_name buf w = Some (0, name, w\<lparr>gmem := (gmem w)\<lparr>next_free_name := n, names_exhausted := e\<rparr>\<rparr>)" "gen_name n"
    by blast
  with assms(1,3) rq show ?thesis
    by (auto simp: serve_def good_registry_def registry_inv_next_name max_index_tight_def)
qed

lemma serial_run_good:
  "serial_run w h = Some w' \<Longrightarrow> lawful w h \<Longrightarrow> good_registry w \<Longrightarrow> good_registry w'"
  by (induction w h rule: serial_run.induct) (auto dest: serve_good split: option.splits prod.splits if_splits)

lemma section_defined:
  assumes "good_registry w"
  shows "rest (Begin rq) (w\<lparr>gsem := 0\<rparr>) \<noteq> None"
proof (cases "\<exists>buf. rq = Get_free_name buf")
  case True
  then obtain buf where rq: "rq = Get_free_name buf" by blast
  have g: "registry_inv (gmem w)" "0 < gsem w" "URT_MAX_OBJECTS (gmem w) < 37 ^ 5" and w: "urt_global_sem_wait w = Some (w\<lparr>gsem := 0\<rparr>)"
    using assms by (simp_all add: good_registry_def sem_wait_run)
  have "serve rq w \<noteq> None" using urt_get_free_name_effect [OF g, of buf] rq by (auto simp: serve_def)
  then show ?thesis using serve_rest [OF w, of rq] by auto
next
  case False
  then show ?thesis by (cases rq) (simp_all add: rest_scanned_def)
qed

lemma lawful_append: "lawful w (h @ [(p, rq, out)]) \<Longrightarrow> serial_run w h = Some w' \<Longrightarrow> lawful w h \<and> obliged rq w'"
  by (induction w h rule: serial_run.induct) (auto split: option.splits if_splits)

lemma system_update_twice: "s\<lparr>world := a, procs := f\<rparr>\<lparr>world := b, procs := g\<rparr> = s\<lparr>world := b, procs := g\<rparr>"
  by simp

text \<open>The remaining steps of the process that is inside, taken one after the other.\<close>

lemma run_alone:
  assumes "procs s p = Inside rq pc" and "run_points n (pc, world s) = (pc', w)"
  shows "interleave\<^sup>*\<^sup>* s (s\<lparr>world := w, procs := (procs s)(p := Inside rq pc')\<rparr>)"
  using assms
proof (induction n arbitrary: s pc)
  case 0
  then have "s\<lparr>world := w, procs := (procs s)(p := Inside rq pc')\<rparr> = s" by (simp add: fun_upd_idem)
  then show ?case by (simp only: rtranclp.rtrancl_refl)
next
  case (Suc n)
  obtain pc1 w1 where s1: "point_step pc (world s) = (pc1, w1)" by fastforce
  then have n: "run_points n (pc1, w1) = (pc', w)"
    using Suc.prems(2) run_points_add [of n 1 "(pc, world s)"] by simp
  show ?case
  proof (cases "\<exists>out'. pc = Leave out'")
    case True
    then obtain out' where "pc = Leave out'" by blast
    then have "pc' = Leave out'" "w = world s" using Suc.prems(2) run_points_Leave [of "Suc n" out' "world s"] by simp_all
    then have "s\<lparr>world := w, procs := (procs s)(p := Inside rq pc')\<rparr> = s"
      using Suc.prems(1) \<open>pc = Leave out'\<close> by (simp add: fun_upd_idem)
    then show ?thesis by (simp only: rtranclp.rtrancl_refl)
  next
    case False
    let ?s = "s\<lparr>world := w1, procs := (procs s)(p := Inside rq pc1)\<rparr>"
    have "interleave s ?s" by (rule interleave.work [OF Suc.prems(1) _ s1]) (use False in blast)
    moreover have "interleave\<^sup>*\<^sup>* ?s (s\<lparr>world := w, procs := (procs s)(p := Inside rq pc')\<rparr>)"
    proof -
      have p: "procs ?s = (procs s)(p := Inside rq pc1)" by simp
      have "interleave\<^sup>*\<^sup>* ?s (?s\<lparr>world := w, procs := (procs ?s)(p := Inside rq pc')\<rparr>)"
        by (rule Suc.IH) (use n in simp_all)
      then show ?thesis unfolding p fun_upd_upd system_update_twice .
    qed
    ultimately show ?thesis by (rule converse_rtranclp_into_rtranclp)
  qed
qed

text \<open>An operation without interruption, and so every list of operations, is an interleaving.\<close>

lemma perform:
  assumes "procs s p = Idle" and "serve rq (world s) = Some (out, w)"
  shows "interleave\<^sup>*\<^sup>* s (s\<lparr>world := w, served := served s @ [(p, rq, out)]\<rparr>)"
proof -
  let ?s1 = "s\<lparr>procs := (procs s)(p := Waiting rq)\<rparr>"
  have "urt_global_sem_wait (world s) \<noteq> None"
  proof
    assume "urt_global_sem_wait (world s) = None"
    then have "serve rq (world s) = None"
      by (cases rq) (simp_all add: serve_def urt_reserve_name_def urt_inc_name_count_def urt_dec_name_count_def
          urt_get_object_by_name_and_inc_count_def urt_force_clear_name_def urt_get_free_name_def)
    with assms(2) show False by simp
  qed
  then obtain w1 where w1: "urt_global_sem_wait (world s) = Some w1" by blast
  let ?s2 = "s\<lparr>world := w1, procs := (procs s)(p := Inside rq (Begin rq))\<rparr>"
  have "map_option (\<lambda>(out, w2). (out, urt_global_sem_post w2)) (rest (Begin rq) w1) = Some (out, w)"
    using serve_rest [OF w1, of rq] assms(2) by simp
  then obtain w2 where w2: "rest (Begin rq) w1 = Some (out, w2)" "w = urt_global_sem_post w2"
    by auto
  with critical_section_ends [of rq w1] obtain n out' w3 where n: "run_points n (Begin rq, w1) = (Leave out', w3)"
    by (auto simp: section_ends_def reaches_def)
  with run_points_rest [of n "(Begin rq, w1)"] w2(1) have "out' = out" "w3 = w2" by simp_all
  with n have run: "run_points n (Begin rq, world ?s2) = (Leave out, w2)" by simp
  let ?s3 = "?s2\<lparr>world := w2, procs := (procs ?s2)(p := Inside rq (Leave out))\<rparr>"
  have "interleave s ?s1" using assms(1) by (rule interleave.call)
  moreover have "interleave ?s1 (?s1\<lparr>world := w1, procs := (procs ?s1)(p := Inside rq (Begin rq))\<rparr>)"
    by (rule interleave.enter) (simp_all add: w1)
  then have "interleave ?s1 ?s2" by simp
  moreover have "interleave\<^sup>*\<^sup>* ?s2 ?s3" by (rule run_alone [OF _ run]) simp
  moreover have "interleave ?s3 (?s3\<lparr>world := urt_global_sem_post (world ?s3), procs := (procs ?s3)(p := Idle),
      served := served ?s3 @ [(p, rq, out)]\<rparr>)"
    by (rule interleave.leave) simp
  then have "interleave ?s3 (s\<lparr>world := w, served := served s @ [(p, rq, out)]\<rparr>)"
    using assms(1) w2(2) by (simp add: fun_upd_idem)
  ultimately show ?thesis
    by (meson converse_rtranclp_into_rtranclp rtranclp.rtrancl_into_rtrancl)
qed

lemma interleave_reachable_trans:
  "interleave\<^sup>*\<^sup>* s s' \<Longrightarrow> interleave_reachable w0 s \<Longrightarrow> interleave_reachable w0 s'"
  by (induction rule: rtranclp_induct) (auto intro: interleave_reachable.step)

lemma serial_reachable:
  assumes "serial_run w0 h = Some w"
  shows "interleave_reachable w0 \<lparr>world = w, procs = (\<lambda>p. Idle), served = h\<rparr>"
  using assms
proof (induction h arbitrary: w rule: rev_induct)
  case Nil
  then show ?case by (simp add: interleave_reachable.start)
next
  case (snoc e h)
  obtain p rq out where e: "e = (p, rq, out)" by (cases e)
  with snoc(2) obtain w1 where w1: "serial_run w0 h = Some w1" "serve rq w1 = Some (out, w)"
    by (auto simp: serial_run_append split: option.splits if_splits)
  let ?s = "\<lparr>world = w1, procs = (\<lambda>p. Idle), served = h\<rparr>"
  have "interleave\<^sup>*\<^sup>* ?s (?s\<lparr>world := w, served := served ?s @ [(p, rq, out)]\<rparr>)"
    by (rule perform) (simp_all add: w1)
  from interleave_reachable_trans [OF this snoc(1) [OF w1(1)]] show ?case by (simp add: e)
qed

section \<open>Properties\<close>

text \<open>
  C2: The operations of the registry are atomic. Processes take turns at every single access to
  the shared memory; the global semaphore keeps all but one of them out, and what they do
  together is one operation after the other: the operations that are over, in the order in which
  they left, give from the initial state the same results and the same shared state when they are
  executed in one piece, and every such sequence occurs.
\<close>

theorem critical_sections_are_atomic:
  fixes s :: "('p, 'os) urt_system" and h :: "('p \<times> 'os request \<times> outcome) list"
  assumes "gsem w0 = 1"
  shows "((\<exists>s. interleave_reachable w0 s \<and> nobody_inside s \<and> served s = h \<and> world s = w) \<longleftrightarrow> serial_run w0 h = Some w) \<and>
    (interleave_reachable w0 s \<longrightarrow>
       (\<forall>p q. inside (procs s p) \<and> inside (procs s q) \<longrightarrow> p = q) \<and>
       gsem (world s) = (if nobody_inside s then 1 else 0) \<and> serial_run w0 (served s) \<noteq> None)"
proof (intro conjI impI)
  show "(\<exists>s. interleave_reachable w0 s \<and> nobody_inside s \<and> served s = h \<and> world s = w) \<longleftrightarrow> serial_run w0 h = Some w"
  proof
    assume "\<exists>s. interleave_reachable w0 s \<and> nobody_inside s \<and> served s = h \<and> world s = w"
    then obtain s where s: "interleave_reachable w0 s" "nobody_inside s" "served s = h" "world s = w" by blast
    from reachable_serialized [OF s(1) assms] obtain w1 where w1: "serialized w0 s w1" by blast
    with serialized_outside [OF w1 s(2)] s show "serial_run w0 h = Some w" by (simp add: serialized_def)
  next
    assume "serial_run w0 h = Some w"
    from serial_reachable [OF this] show "\<exists>s. interleave_reachable w0 s \<and> nobody_inside s \<and> served s = h \<and> world s = w"
      by (intro exI [of _ "\<lparr>world = w, procs = (\<lambda>p. Idle), served = h\<rparr>"]) (simp add: nobody_inside_def)
  qed
next
  assume "interleave_reachable w0 s"
  from reachable_serialized [OF this assms] obtain w1 where w1: "serialized w0 s w1" by blast
  show "gsem (world s) = (if nobody_inside s then 1 else 0)" using w1 by (rule serialized_gsem)
  show "serial_run w0 (served s) \<noteq> None" using w1 by (simp add: serialized_def)
  show "\<forall>p q. inside (procs s p) \<and> inside (procs s q) \<longrightarrow> p = q"
  proof (intro allI impI)
    fix p q assume i: "inside (procs s p) \<and> inside (procs s q)"
    then obtain rq pc where "procs s p = Inside rq pc" by (cases "procs s p") auto
    from serialized_inside(1) [OF w1 this] i show "p = q" by (auto simp: alone_inside_def)
  qed
qed

theorem critical_sections_are_atomic_witness:
  "\<exists>s. interleave_reachable demo_empty s \<and> nobody_inside s \<and> world s = demo_shared \<and>
     served s = [(0 :: nat, Reserve_name ''AB'', Return_object (Inr 0)), (1, Inc_name_count 0, Return)]"
proof -
  have g: "gsem demo_empty = 1" by (simp add: demo_empty_def)
  have "serial_run demo_empty [(0 :: nat, Reserve_name ''AB'', Return_object (Inr 0)), (1, Inc_name_count 0, Return)] = Some demo_shared"
    by (simp add: serve_def demo_reserved_run demo_shared_run)
  then show ?thesis using critical_sections_are_atomic [OF g, THEN conjunct1, THEN iffD2] by blast
qed

text \<open>
  C16: Nobody stays in a critical section. In every interleaving of lawful clients, the process
  that is inside leaves by finitely many steps of its own, whatever the others do, also out of the
  loops that have no bound of their own (the search for a generated name, the forced removal);
  the registry is then consistent again and the semaphore free for the next one.
\<close>

theorem critical_sections_end:
  assumes "interleave_reachable w0 s" and "good_registry w0" and "lawful w0 (served s)"
    and "procs s p = Inside rq pc"
  shows "\<exists>n out w. run_points n (pc, world s) = (Leave out, w) \<and>
    interleave\<^sup>*\<^sup>* s (s\<lparr>world := urt_global_sem_post w, procs := (procs s)(p := Idle), served := served s @ [(p, rq, out)]\<rparr>) \<and>
    gsem (urt_global_sem_post w) = 1 \<and>
    (lawful w0 (served s @ [(p, rq, out)]) \<longrightarrow> registry_inv (gmem w) \<and> max_index_tight (gmem w))"
proof -
  have g: "gsem w0 = 1" using assms(2) by (simp add: good_registry_def)
  from reachable_serialized [OF assms(1) g] obtain w1 where w1: "serialized w0 s w1" by blast
  then have good: "good_registry w1" using assms(2,3) serial_run_good by (auto simp: serialized_def)
  from serialized_inside(2) [OF w1 assms(4)] obtain k where k: "run_points k (Begin rq, w1\<lparr>gsem := 0\<rparr>) = (pc, world s)" by blast
  from critical_section_ends [OF section_defined [OF good, of rq]] obtain m out w where
    m: "run_points m (Begin rq, w1\<lparr>gsem := 0\<rparr>) = (Leave out, w)"
    by (auto simp: section_ends_def reaches_def)
  have n: "run_points m (pc, world s) = (Leave out, w)"
    using run_points_add [of m k "(Begin rq, w1\<lparr>gsem := 0\<rparr>)"] run_points_add [of k m "(Begin rq, w1\<lparr>gsem := 0\<rparr>)"] k m
    by (simp add: run_points_Leave add.commute)
  let ?s1 = "s\<lparr>world := w, procs := (procs s)(p := Inside rq (Leave out))\<rparr>"
  let ?s2 = "s\<lparr>world := urt_global_sem_post w, procs := (procs s)(p := Idle), served := served s @ [(p, rq, out)]\<rparr>"
  have "interleave ?s1 (?s1\<lparr>world := urt_global_sem_post (world ?s1), procs := (procs ?s1)(p := Idle), served := served ?s1 @ [(p, rq, out)]\<rparr>)"
    by (rule interleave.leave) simp
  then have steps: "interleave\<^sup>*\<^sup>* s ?s2" using run_alone [OF assms(4) n] by simp
  have w: "gsem w = 0" using run_points_gsem [of m "(Begin rq, w1\<lparr>gsem := 0\<rparr>)"] m by simp
  have "good_registry (urt_global_sem_post w)" if "lawful w0 (served s @ [(p, rq, out)])"
  proof -
    from reachable_serialized [OF interleave_reachable_trans [OF steps assms(1)] g] obtain w2 where w2: "serialized w0 ?s2 w2" by blast
    have "nobody_inside ?s2" using serialized_inside(1) [OF w1 assms(4)] by (auto simp: nobody_inside_def alone_inside_def)
    from serialized_outside [OF w2 this] w2 have "serial_run w0 (served s @ [(p, rq, out)]) = Some (urt_global_sem_post w)"
      by (simp add: serialized_def)
    from serial_run_good [OF this that assms(2)] show ?thesis .
  qed
  then have "lawful w0 (served s @ [(p, rq, out)]) \<longrightarrow> registry_inv (gmem w) \<and> max_index_tight (gmem w)"
    by (auto simp: good_registry_def urt_global_sem_post_def)
  with n steps w show ?thesis
    by (intro exI [of _ m] exI [of _ out] exI [of _ w]) (simp add: urt_global_sem_post_def)
qed

text \<open>Two processes want the name \<^verbatim>\<open>AB\<close>; the first one has come in.\<close>

definition demo_contended :: "(nat, unit) urt_system" where
  "demo_contended = \<lparr>world = demo_empty\<lparr>gsem := 0\<rparr>, procs = (\<lambda>p. Idle)
     (0 := Inside (Reserve_name ''AB'') (Begin (Reserve_name ''AB'')), 1 := Waiting (Get_and_inc_count ''AB'')), served = []\<rparr>"

lemma entered_reachable:
  assumes "gsem w = 1" and "p \<noteq> q"
  shows "interleave_reachable w \<lparr>world = w\<lparr>gsem := 0\<rparr>, procs = (\<lambda>p. Idle)(p := Inside rq (Begin rq), q := Waiting rq'), served = []\<rparr>"
proof -
  let ?s0 = "\<lparr>world = w, procs = (\<lambda>p. Idle), served = []\<rparr>"
  let ?s1 = "?s0\<lparr>procs := (procs ?s0)(p := Waiting rq)\<rparr>"
  let ?s2 = "?s1\<lparr>procs := (procs ?s1)(q := Waiting rq')\<rparr>"
  have "interleave ?s0 ?s1" by (rule interleave.call) simp
  moreover have "interleave ?s1 ?s2" by (rule interleave.call) (use assms(2) in simp)
  moreover have "interleave ?s2 (?s2\<lparr>world := w\<lparr>gsem := 0\<rparr>, procs := (procs ?s2)(p := Inside rq (Begin rq))\<rparr>)"
    by (rule interleave.enter) (use assms in \<open>simp_all add: sem_wait_run\<close>)
  ultimately have "interleave_reachable w (?s2\<lparr>world := w\<lparr>gsem := 0\<rparr>, procs := (procs ?s2)(p := Inside rq (Begin rq))\<rparr>)"
    by (blast intro: interleave_reachable.intros)
  then show ?thesis using assms(2) by (simp add: fun_upd_twist)
qed

lemma demo_contended_facts: "interleave_reachable demo_empty demo_contended" "good_registry demo_empty"
  "procs demo_contended 0 = Inside (Reserve_name ''AB'') (Begin (Reserve_name ''AB''))" "served demo_contended = []"
proof -
  show "interleave_reachable demo_empty demo_contended"
    unfolding demo_contended_def by (rule entered_reachable) (simp_all add: demo_empty_def)
qed (use demo_inv in \<open>simp_all add: demo_contended_def good_registry_def\<close>)

theorem critical_sections_end_witness:
  "\<exists>n out w. run_points n (Begin (Reserve_name ''AB''), world demo_contended) = (Leave out, w)"
  using critical_sections_end [OF demo_contended_facts(1,2) _ demo_contended_facts(3)]
  by (auto simp: demo_contended_facts(4))

end
