(* ===== verification/Posix_Os.thy ===== *)
theory Posix_Os
  imports Urt_Registry
begin

text \<open>
  The part of POSIX that the back-end under \<^verbatim>\<open>sys/posix\<close> calls for shared objects: shared
  memory objects, file descriptors, mappings, named semaphores and allocated semaphore
  handles. Objects, descriptors, mappings and heap blocks are numbered; the numbers come from
  one supply, so that a new one is always fresh. A mapping stands for the pair of a process
  and an address: mappings of all processes are kept in one table.

  Every call can fail for reasons that are not visible in this state (\<^verbatim>\<open>EMFILE\<close>,
  \<^verbatim>\<open>ENOMEM\<close>, \<^verbatim>\<open>EACCES\<close>): \<open>os_fault t\<close> is the error number that the \<open>t\<close>-th call fails with,
  0 if it does not. The lemmas and properties hold for every such sequence of faults.
\<close>

unbundle bit_operations_syntax

section \<open>State\<close>

type_synonym byte = "8 word"

text \<open>\<^verbatim>\<open>urt_sem\<close>: \<^verbatim>\<open>sem_ptr\<close> is the number of the semaphore object, \<^verbatim>\<open>id\<close> the registry slot.\<close>

record urt_sem =
  sem_ptr :: nat
  sem_id :: u32

text \<open>
  Locks of the thread library, by the place they are at (the number of the memory object or
  heap block, and the offset): a mutex with its owner, a read-write lock with the number of
  holds, a condition variable with the number of waiters, each with the attributes it was
  initialised with.
\<close>

record pt_attr =
  pshared :: bool
  prio_inherit :: bool

datatype pt_lock =
    Pt_mutex pt_attr "nat option"
  | Pt_rwlock pt_attr nat
  | Pt_cond pt_attr nat

record posix_os =
  os_fault :: "nat \<Rightarrow> int"
  os_tick :: nat
  os_next :: nat
  shm_names :: "string \<Rightarrow> nat option"
  shm_bytes :: "nat \<Rightarrow> byte list"
  fds :: "nat \<Rightarrow> nat option"
  maps :: "nat \<Rightarrow> (nat \<times> nat) option"
  sem_names :: "string \<Rightarrow> nat option"
  sem_value :: "nat \<Rightarrow> nat"
  sem_opens :: "nat \<Rightarrow> nat"
  sem_heap :: "nat \<Rightarrow> urt_sem option"
  heap :: "nat \<Rightarrow> u64 option"
  pt_locks :: "nat \<times> nat \<Rightarrow> pt_lock option"

type_synonym posix_global = "posix_os urt_global"

text \<open>A pointer into a mapping: the mapping and the byte offset.\<close>

type_synonym ptr = "nat \<times> nat"

section \<open>System calls\<close>

definition sys_fault :: "posix_os \<Rightarrow> int \<times> posix_os" where
  "sys_fault os = (os_fault os (os_tick os), os\<lparr>os_tick := Suc (os_tick os)\<rparr>)"

definition fresh :: "posix_os \<Rightarrow> nat \<times> posix_os" where
  "fresh os = (os_next os, os\<lparr>os_next := Suc (os_next os)\<rparr>)"

text \<open>\<^verbatim>\<open>shm_open(n, O_RDWR | ...)\<close>: \<open>cr\<close> and \<open>ex\<close> are the flags \<^verbatim>\<open>O_CREAT\<close> and \<^verbatim>\<open>O_EXCL\<close>.\<close>

definition shm_open :: "string \<Rightarrow> bool \<Rightarrow> bool \<Rightarrow> posix_os \<Rightarrow> (int + nat) \<times> posix_os" where
  "shm_open n cr ex os =
     (let (e, os1) = sys_fault os in
      if e \<noteq> 0 then (Inl e, os1)
      else (let (fd, os2) = fresh os1 in
        case shm_names os2 n of
          Some k \<Rightarrow> if cr \<and> ex then (Inl EEXIST, os2) else (Inr fd, os2\<lparr>fds := (fds os2)(fd \<mapsto> k)\<rparr>)
        | None \<Rightarrow>
            if \<not> cr then (Inl ENOENT, os2)
            else (let (k, os3) = fresh os2 in
              (Inr fd, os3\<lparr>shm_names := (shm_names os3)(n \<mapsto> k), shm_bytes := (shm_bytes os3)(k := []),
                 fds := (fds os3)(fd \<mapsto> k)\<rparr>))))"

text \<open>\<^verbatim>\<open>ftruncate\<close>: the length is an \<^verbatim>\<open>off_t\<close>; new bytes are zero.\<close>

definition ftruncate :: "nat \<Rightarrow> u64 \<Rightarrow> posix_os \<Rightarrow> (int + unit) \<times> posix_os" where
  "ftruncate fd len os =
     (let (e, os1) = sys_fault os; k = the (fds os1 fd); n = unat len in
      if e \<noteq> 0 then (Inl e, os1)
      else if sint len < 0 then (Inl EINVAL, os1)
      else (Inr (), os1\<lparr>shm_bytes := (shm_bytes os1)
             (k := take n (shm_bytes os1 k @ replicate (n - length (shm_bytes os1 k)) 0))\<rparr>))"

definition fstat_size :: "nat \<Rightarrow> posix_os \<Rightarrow> (int + nat) \<times> posix_os" where
  "fstat_size fd os =
     (let (e, os1) = sys_fault os in
      if e \<noteq> 0 then (Inl e, os1) else (Inr (length (shm_bytes os1 (the (fds os1 fd)))), os1))"

definition mmap_shared :: "nat \<Rightarrow> nat \<Rightarrow> posix_os \<Rightarrow> (int + nat) \<times> posix_os" where
  "mmap_shared fd len os =
     (let (e, os1) = sys_fault os in
      if e \<noteq> 0 then (Inl e, os1)
      else if len = 0 then (Inl EINVAL, os1)
      else (let (m, os2) = fresh os1 in
        (Inr m, os2\<lparr>maps := (maps os2)(m \<mapsto> (the (fds os2 fd), len))\<rparr>)))"

definition close_fd :: "nat \<Rightarrow> posix_os \<Rightarrow> posix_os" where
  "close_fd fd os = os\<lparr>fds := (fds os)(fd := None)\<rparr>"

definition shm_unlink :: "string \<Rightarrow> posix_os \<Rightarrow> posix_os" where
  "shm_unlink n os = os\<lparr>shm_names := (shm_names os)(n := None)\<rparr>"

text \<open>
  \<^verbatim>\<open>munmap(m, len)\<close> works on whole pages of 4096 bytes from the start of the mapping: the
  mapping is gone when they cover it, otherwise its tail stays. The result is the error
  number, 0 for success.
\<close>

definition pages :: "nat \<Rightarrow> nat" where
  "pages n = (n + 4095) div 4096"

definition munmap :: "nat \<Rightarrow> nat \<Rightarrow> posix_os \<Rightarrow> int \<times> posix_os" where
  "munmap m len os =
     (if len = 0 then (EINVAL, os)
      else case maps os m of
        None \<Rightarrow> (0, os)
      | Some (k, n) \<Rightarrow>
          if pages n \<le> pages len then (0, os\<lparr>maps := (maps os)(m := None)\<rparr>)
          else (0, os\<lparr>maps := (maps os)(m \<mapsto> (k, n - 4096 * pages len))\<rparr>))"

text \<open>
  \<^verbatim>\<open>sem_init\<close>, \<^verbatim>\<open>sem_open\<close>, \<^verbatim>\<open>sem_close\<close> and \<^verbatim>\<open>sem_unlink\<close>; \<open>sem_opens\<close> counts the open handles of a
  semaphore object.
\<close>

definition SEM_VALUE_MAX :: int where
  "SEM_VALUE_MAX = 2147483647"

definition sem_init :: "nat \<Rightarrow> nat \<Rightarrow> posix_os \<Rightarrow> int \<times> posix_os" where
  "sem_init k init os =
     (let (e, os1) = sys_fault os in
      if e \<noteq> 0 then (e, os1)
      else if int init > SEM_VALUE_MAX then (EINVAL, os1)
      else (0, os1\<lparr>sem_value := (sem_value os1)(k := init)\<rparr>))"

text \<open>A destroyed semaphore has no value any more; it is kept as 0.\<close>

definition sem_destroy :: "nat \<Rightarrow> posix_os \<Rightarrow> posix_os" where
  "sem_destroy k os = os\<lparr>sem_value := (sem_value os)(k := 0)\<rparr>"

definition sem_open :: "string \<Rightarrow> bool \<Rightarrow> bool \<Rightarrow> nat \<Rightarrow> posix_os \<Rightarrow> (int + nat) \<times> posix_os" where
  "sem_open n cr ex init os =
     (let (e, os1) = sys_fault os in
      if e \<noteq> 0 then (Inl e, os1)
      else case sem_names os1 n of
          Some k \<Rightarrow> if cr \<and> ex then (Inl EEXIST, os1)
                    else (Inr k, os1\<lparr>sem_opens := (sem_opens os1)(k := Suc (sem_opens os1 k))\<rparr>)
        | None \<Rightarrow>
            if \<not> cr then (Inl ENOENT, os1)
            else if int init > SEM_VALUE_MAX then (Inl EINVAL, os1)
            else (let (k, os2) = fresh os1 in
              (Inr k, os2\<lparr>sem_names := (sem_names os2)(n \<mapsto> k), sem_value := (sem_value os2)(k := init),
                 sem_opens := (sem_opens os2)(k := 1)\<rparr>)))"

definition sem_close :: "nat \<Rightarrow> posix_os \<Rightarrow> posix_os" where
  "sem_close k os = os\<lparr>sem_opens := (sem_opens os)(k := sem_opens os k - 1)\<rparr>"

definition sem_unlink :: "string \<Rightarrow> posix_os \<Rightarrow> posix_os" where
  "sem_unlink n os = os\<lparr>sem_names := (sem_names os)(n := None)\<rparr>"

section \<open>Thread library\<close>

text \<open>
  Initialisation can fail like every call. \<^verbatim>\<open>*_destroy\<close> refuses an object in use with
  \<^verbatim>\<open>EBUSY\<close>; unlocking is refused with \<^verbatim>\<open>EPERM\<close> to anyone but a holder; \<^verbatim>\<open>broadcast\<close> wakes
  all waiters. The result is the error number, 0 for success.
\<close>

definition pthread_init :: "(pt_attr \<Rightarrow> pt_lock) \<Rightarrow> pt_attr \<Rightarrow> nat \<times> nat \<Rightarrow> posix_os \<Rightarrow> int \<times> posix_os" where
  "pthread_init mk attr at os =
     (let (e, os1) = sys_fault os in
      if e \<noteq> 0 then (e, os1) else (0, os1\<lparr>pt_locks := (pt_locks os1)(at \<mapsto> mk attr)\<rparr>))"

definition pthread_mutex_init :: "pt_attr \<Rightarrow> nat \<times> nat \<Rightarrow> posix_os \<Rightarrow> int \<times> posix_os" where
  "pthread_mutex_init = pthread_init (\<lambda>a. Pt_mutex a None)"

definition pthread_rwlock_init :: "pt_attr \<Rightarrow> nat \<times> nat \<Rightarrow> posix_os \<Rightarrow> int \<times> posix_os" where
  "pthread_rwlock_init = pthread_init (\<lambda>a. Pt_rwlock a 0)"

definition pthread_cond_init :: "pt_attr \<Rightarrow> nat \<times> nat \<Rightarrow> posix_os \<Rightarrow> int \<times> posix_os" where
  "pthread_cond_init = pthread_init (\<lambda>a. Pt_cond a 0)"

fun pt_busy :: "pt_lock \<Rightarrow> nat" where
  "pt_busy (Pt_mutex a owner) = (if owner = None then 0 else 1)"
| "pt_busy (Pt_rwlock a holds) = holds"
| "pt_busy (Pt_cond a waiters) = waiters"

definition pthread_destroy :: "nat \<times> nat \<Rightarrow> posix_os \<Rightarrow> int \<times> posix_os" where
  "pthread_destroy at os =
     (case pt_locks os at of
        None \<Rightarrow> (EINVAL, os)
      | Some l \<Rightarrow> if pt_busy l > 0 then (EBUSY, os) else (0, os\<lparr>pt_locks := (pt_locks os)(at := None)\<rparr>))"

fun pt_release :: "nat \<Rightarrow> pt_lock \<Rightarrow> pt_lock option" where
  "pt_release self (Pt_mutex a owner) = (if owner = Some self then Some (Pt_mutex a None) else None)"
| "pt_release self (Pt_rwlock a holds) = (if holds > 0 then Some (Pt_rwlock a (holds - 1)) else None)"
| "pt_release self (Pt_cond a waiters) = Some (Pt_cond a 0)"

text \<open>
  \<^verbatim>\<open>pthread_mutex_unlock\<close>, \<^verbatim>\<open>pthread_rwlock_unlock\<close> and \<^verbatim>\<open>pthread_cond_broadcast\<close>, by the kind
  of the lock; \<open>self\<close> is the calling thread.
\<close>

definition pthread_release :: "nat \<Rightarrow> nat \<times> nat \<Rightarrow> posix_os \<Rightarrow> int \<times> posix_os" where
  "pthread_release self at os =
     (case pt_locks os at of
        None \<Rightarrow> (EINVAL, os)
      | Some l \<Rightarrow> (case pt_release self l of
                     None \<Rightarrow> (1, os)
                   | Some l' \<Rightarrow> (0, os\<lparr>pt_locks := (pt_locks os)(at \<mapsto> l')\<rparr>)))"

section \<open>Heap\<close>

text \<open>\<^verbatim>\<open>malloc\<close> and \<^verbatim>\<open>free\<close>: blocks are kept with their size.\<close>

definition malloc :: "u64 \<Rightarrow> posix_os \<Rightarrow> nat option \<times> posix_os" where
  "malloc sz os =
     (let (e, os1) = sys_fault os in
      if e \<noteq> 0 then (None, os1)
      else (let (h, os2) = fresh os1 in (Some h, os2\<lparr>heap := (heap os2)(h \<mapsto> sz)\<rparr>)))"

definition free :: "nat option \<Rightarrow> posix_os \<Rightarrow> posix_os" where
  "free p os = (case p of None \<Rightarrow> os
     | Some h \<Rightarrow> os\<lparr>heap := (heap os)(h := None), sem_heap := (sem_heap os)(h := None)\<rparr>)"

text \<open>\<^verbatim>\<open>realloc\<close>: on failure the old block stays; on success it is gone.\<close>

definition realloc :: "nat option \<Rightarrow> u64 \<Rightarrow> posix_os \<Rightarrow> nat option \<times> posix_os" where
  "realloc p sz os =
     (case malloc sz os of
        (None, os1) \<Rightarrow> (None, os1)
      | (Some h, os1) \<Rightarrow> (Some h, free p os1))"

section \<open>Memory access\<close>

text \<open>A 32-bit integer in memory, least significant byte first (the x86 targets).\<close>

definition u32_bytes :: "u32 \<Rightarrow> byte list" where
  "u32_bytes v = [ucast v, ucast (drop_bit 8 v), ucast (drop_bit 16 v), ucast (drop_bit 24 v)]"

definition bytes_u32 :: "byte list \<Rightarrow> u32" where
  "bytes_u32 bs = (ucast (bs ! 0) OR push_bit 8 (ucast (bs ! 1)) OR push_bit 16 (ucast (bs ! 2))
     OR push_bit 24 (ucast (bs ! 3)))"

definition map_object :: "nat \<Rightarrow> posix_os \<Rightarrow> nat" where
  "map_object m os = fst (the (maps os m))"

definition store_u32 :: "ptr \<Rightarrow> u32 \<Rightarrow> posix_os \<Rightarrow> posix_os" where
  "store_u32 p v os =
     (let k = map_object (fst p) os; bs = shm_bytes os k; off = snd p
      in os\<lparr>shm_bytes := (shm_bytes os)(k := take off bs @ u32_bytes v @ drop (off + 4) bs)\<rparr>)"

definition load_u32 :: "ptr \<Rightarrow> posix_os \<Rightarrow> u32" where
  "load_u32 p os = bytes_u32 (take 4 (drop (snd p) (shm_bytes os (map_object (fst p) os))))"

section \<open>Lemmas\<close>

lemma bytes_u32_bytes [simp]: "bytes_u32 (u32_bytes v) = v"
proof (rule bit_word_eqI)
  fix n assume "n < LENGTH(32)"
  then have "n < 8 \<or> (8 \<le> n \<and> n < 16) \<or> (16 \<le> n \<and> n < 24) \<or> (24 \<le> n \<and> n < 32)" by auto
  then show "bit (bytes_u32 (u32_bytes v)) n \<longleftrightarrow> bit v n"
    by (elim disjE) (auto simp: bytes_u32_def u32_bytes_def bit_simps)
qed

lemma length_u32_bytes [simp]: "length (u32_bytes v) = 4"
  by (simp add: u32_bytes_def)

lemma load_store_u32:
  assumes "snd p + 4 \<le> length (shm_bytes os (map_object (fst p) os))"
  shows "load_u32 p (store_u32 p v os) = v"
proof -
  have "maps (store_u32 p v os) = maps os" by (simp add: store_u32_def Let_def)
  then have "map_object (fst p) (store_u32 p v os) = map_object (fst p) os" by (simp add: map_object_def)
  moreover have "min (length (shm_bytes os (map_object (fst p) os))) (snd p) = snd p" using assms by simp
  ultimately show ?thesis
    using assms by (simp add: load_u32_def store_u32_def Let_def)
qed

lemma pages_mono: "m \<le> n \<Longrightarrow> pages m \<le> pages n"
  by (simp add: pages_def div_le_mono)

end
