(* ===== verification/Urt_Shared_Object.thy ===== *)
theory Urt_Shared_Object
  imports Urt_Registry
begin

text \<open>
  Creation and attachment of shared objects (\<^verbatim>\<open>SHOBJ_NEW\<close> and \<^verbatim>\<open>SHOBJ_ATTACH\<close> of
  \<^verbatim>\<open>src/new_common.c\<close>), over the back-end's part \<open>call\<close> and its book-keeping \<open>proc\<close>, which
  are arguments here as they are in the macros. A pointer result that is NULL is \<open>Inl e\<close> with
  the error number stored through \<^verbatim>\<open>error\<close>. \<^verbatim>\<open>URT_CHECK_NONRT_CONTEXT\<close> only prints in debug
  builds and is not modelled.

  The locale \<open>shared_backend\<close> states what the macros rely on: the back-end's part leaves the
  registry alone when it succeeds, and the book-keeping writes nothing of the registry but the
  slot's \<^verbatim>\<open>has_bookkeeping\<close>. \<open>clean_backend\<close> adds the same for the failing case. The back-ends
  interpret them.
\<close>

section \<open>Definitions\<close>

type_synonym ('os, 'p) sys_call = "'os urt_global \<Rightarrow> ((int + 'p) \<times> 'os urt_global) option"
type_synonym ('os, 'p) bookkeeping = "'p \<Rightarrow> u32 \<Rightarrow> nat \<Rightarrow> 'os urt_global \<Rightarrow> 'p \<times> 'os urt_global"

definition SHOBJ_NEW :: "string \<Rightarrow> u64 \<Rightarrow> ('os, 'p) sys_call \<Rightarrow> int \<Rightarrow> ('os, 'p) bookkeeping \<Rightarrow> ('os, 'p) sys_call" where
  "SHOBJ_NEW name sz call ty proc w = do {
     (r, w1) \<leftarrow> urt_reserve_name name w;
     (case r of
        Inl e \<Rightarrow> Some (Inl e, w1)
      | Inr ro \<Rightarrow> do {
          (c, w2) \<leftarrow> call w1;
          (case c of
             Inl e \<Rightarrow> do { w3 \<leftarrow> urt_deregister ro None w2; Some (Inl e, w3) }
           | Inr obj \<Rightarrow>
               (let w3 = w2\<lparr>gmem := ro_update ro (\<lambda>ro. ro\<lparr>ro_has_bookkeeping := False\<rparr>) (gmem w2)\<rparr>;
                    (obj', w4) = proc obj (of_nat ro) ro w3;
                    w5 = w4\<lparr>gmem := ro_update ro (\<lambda>ro. ro\<lparr>ro_type := ty, ro_size := sz\<rparr>) (gmem w4)\<rparr>;
                    w6 = (if ro_has_bookkeeping (objects (gmem w5) ! ro)
                          then w5\<lparr>gmem := ro_update ro (\<lambda>ro. ro\<lparr>ro_size := ro_size ro + 16\<rparr>) (gmem w5)\<rparr> else w5)
                in do { w7 \<leftarrow> urt_inc_name_count ro w6; Some (Inr obj', w7) })) }) }"

definition SHOBJ_ATTACH :: "string \<Rightarrow> ('os, 'p) sys_call \<Rightarrow> ('os, 'p) bookkeeping \<Rightarrow> ('os, 'p) sys_call" where
  "SHOBJ_ATTACH name call proc w = do {
     (r, w1) \<leftarrow> urt_get_object_by_name_and_inc_count name w;
     (case r of
        None \<Rightarrow> Some (Inl ENOENT, w1)
      | Some ro \<Rightarrow> do {
          (c, w2) \<leftarrow> call w1;
          (case c of
             Inl e \<Rightarrow> do { w3 \<leftarrow> urt_deregister ro None w2; Some (Inl e, w3) }
           | Inr obj \<Rightarrow> Some (let (obj', w3) = proc obj (of_nat ro) ro w2 in (Inr obj', w3))) }) }"

text \<open>A call of the back-end that touches the operating system only.\<close>

definition on_os :: "('os \<Rightarrow> (int + 'p) \<times> 'os) \<Rightarrow> ('os, 'p) sys_call" where
  "on_os f w = (case f (gos w) of (r, os) \<Rightarrow> Some (r, w\<lparr>gos := os\<rparr>))"

text \<open>The slot of a finished object.\<close>

definition new_slot :: "string \<Rightarrow> bool \<Rightarrow> int \<Rightarrow> u64 \<Rightarrow> urt_registered_object" where
  "new_slot name bk ty sz = counted_slot ((reserved_slot name)
     \<lparr>ro_has_bookkeeping := bk, ro_type := ty, ro_size := (if bk then sz + 16 else sz)\<rparr>)"

definition reserved_state :: "string \<Rightarrow> 'os urt_global \<Rightarrow> 'os urt_global" where
  "reserved_state name w = w\<lparr>gmem := put_slot (find_free_slot (gmem w)) (reserved_slot name)
     (max (objects_max_index (gmem w)) (find_free_slot (gmem w))) (gmem w)\<rparr>"

definition counted_state :: "nat \<Rightarrow> 'os urt_global \<Rightarrow> 'os urt_global" where
  "counted_state i w = w\<lparr>gmem := ro_update i counted_slot (gmem w)\<rparr>"

section \<open>What does not depend on the back-end\<close>

lemma SHOBJ_NEW_refused:
  assumes "registry_inv (gmem w)" and "0 < gsem w"
  shows "name_table (gmem w) (cname name) \<noteq> None \<Longrightarrow> SHOBJ_NEW name sz call ty pr w = Some (Inl EEXIST, w)"
    and "name_table (gmem w) (cname name) = None \<Longrightarrow> find_free_slot (gmem w) = URT_MAX_OBJECTS (gmem w) \<Longrightarrow>
      SHOBJ_NEW name sz call ty pr w = Some (Inl ENOSPC, w)"
  using assms by (auto simp: SHOBJ_NEW_def urt_reserve_name_run find_by_name_table)

lemma SHOBJ_NEW_accepted:
  assumes "registry_inv (gmem w)" and "0 < gsem w" and "SHOBJ_NEW name sz call ty pr w = Some (Inr p, w')"
  shows "name_table (gmem w) (cname name) = None" and "find_free_slot (gmem w) \<noteq> URT_MAX_OBJECTS (gmem w)"
proof -
  show n: "name_table (gmem w) (cname name) = None"
    using SHOBJ_NEW_refused(1) [OF assms(1,2), of name sz call ty pr] assms(3) by fastforce
  show "find_free_slot (gmem w) \<noteq> URT_MAX_OBJECTS (gmem w)"
    using SHOBJ_NEW_refused(2) [OF assms(1,2) n, of sz call ty pr] assms(3) by fastforce
qed

lemma SHOBJ_NEW_call:
  assumes "registry_inv (gmem w)" and "0 < gsem w" and "SHOBJ_NEW name sz call ty pr w = Some (Inr p, w')"
  obtains q w2 where "call (reserved_state name w) = Some (Inr q, w2)"
proof -
  have r: "urt_reserve_name name w = Some (Inr (find_free_slot (gmem w)), reserved_state name w)"
    using SHOBJ_NEW_accepted [OF assms] assms(1,2)
    by (simp add: urt_reserve_name_run find_by_name_table reserved_state_def)
  obtain c w2 where c: "call (reserved_state name w) = Some (c, w2)"
    using assms(3) unfolding SHOBJ_NEW_def r by (auto simp: bind_eq_Some_conv)
  with that assms(3) show ?thesis
    unfolding SHOBJ_NEW_def r by (cases c) (auto simp: bind_eq_Some_conv)
qed

lemma SHOBJ_ATTACH_unknown:
  assumes "registry_inv (gmem w)" and "0 < gsem w" and "name_table (gmem w) (cname name) = None"
  shows "SHOBJ_ATTACH name call pr w = Some (Inl ENOENT, w)"
  using assms by (simp add: SHOBJ_ATTACH_def urt_get_object_run find_by_name_table)

lemma new_slot_simps [simp]:
  "ro_count (new_slot name bk ty sz) = 1" "\<not> ro_reserved (new_slot name bk ty sz)"
  "ro_used (new_slot name bk ty sz)" "ro_type (new_slot name bk ty sz) = ty"
  "ro_size (new_slot name bk ty sz) = (if bk then sz + 16 else sz)"
  "ro_has_bookkeeping (new_slot name bk ty sz) = bk"
  "ro_name (new_slot name bk ty sz) = ro_name (reserved_slot name)"
  by (simp_all add: new_slot_def counted_slot_def reserved_slot_def ro_used_def)

lemma cname_reserved_slot: "cname (ro_name (reserved_slot name)) = cname name"
  by (simp add: reserved_slot_def)

lemma free_slot_reservable:
  assumes "registry_inv g" and "find_free_slot g \<noteq> URT_MAX_OBJECTS g"
  shows "find_free_slot g < URT_MAX_OBJECTS g" and "\<not> ro_used (objects g ! find_free_slot g)"
  using assms find_free_slot_le [of g] find_free_slot_free [of g] by auto

lemma reserved_state_inv:
  assumes "registry_inv (gmem w)" and "name_table (gmem w) (cname name) = None"
    and "find_free_slot (gmem w) < URT_MAX_OBJECTS (gmem w)"
  shows "registry_inv (gmem (reserved_state name w))"
    and "name_table (gmem (reserved_state name w)) = (name_table (gmem w))(cname name \<mapsto> find_free_slot (gmem w))"
  using assms by (simp_all add: reserved_state_def registry_inv_reserve name_table_reserved find_by_name_table)

text \<open>The registry after the creation of an object.\<close>

lemma new_slot_registry:
  fixes bk :: bool and ty :: int and sz :: u64
  assumes "registry_inv g" and "name_table g (cname name) = None" and "find_free_slot g < URT_MAX_OBJECTS g"
  defines "g' \<equiv> put_slot (find_free_slot g) (new_slot name bk ty sz) (max (objects_max_index g) (find_free_slot g)) g"
  shows "registry_inv g'" and "name_table g' = (name_table g)(cname name \<mapsto> find_free_slot g)"
proof -
  let ?i = "find_free_slot g" and ?m = "max (objects_max_index g) (find_free_slot g)"
  let ?r = "put_slot ?i (reserved_slot name) ?m g"
  have r: "registry_inv ?r" using assms(1-3) by (simp add: registry_inv_reserve find_by_name_table)
  have "registry_inv (put_slot ?i (new_slot name bk ty sz) ?m ?r)"
  proof (rule registry_inv_same_name [OF r])
    show "?m < URT_MAX_OBJECTS ?r" using assms(3) registry_invD(1) [OF assms(1)] by simp
    fix j assume "j < URT_MAX_OBJECTS ?r" "ro_used (objects ?r ! j)"
    then show "j \<le> ?m" using used_boundedD [OF registry_invD(2) [OF r]] by fastforce
  qed (use assms(3) in \<open>simp_all add: reserved_slot_def ro_used_def\<close>)
  then show inv: "registry_inv g'" by (simp add: g'_def)
  have "\<not> ro_used (objects g ! ?i)" using assms(3) by (rule find_free_slot_free)
  then show "name_table g' = (name_table g)(cname name \<mapsto> ?i)"
    using name_table_put_used [OF assms(1) inv [unfolded g'_def] assms(3)]
    by (simp add: g'_def cname_reserved_slot)
qed

lemma registry_update:
  assumes "registry_inv g" and "i < URT_MAX_OBJECTS g" and "ro_used (objects g ! i)"
    and "ro_name (f (objects g ! i)) = ro_name (objects g ! i)" and "ro_used (f (objects g ! i))"
  shows "registry_inv (ro_update i f g)" and "name_table (ro_update i f g) = name_table g"
proof -
  show inv: "registry_inv (ro_update i f g)"
    unfolding ro_update_put
    using assms registry_invD(1) [OF assms(1)] used_boundedD [OF registry_invD(2) [OF assms(1)]]
    by (intro registry_inv_same_name) auto
  have "name_table g (cname (ro_name (objects g ! i))) = Some i"
    using assms name_table_Some_iff [OF registry_invD(3) [OF assms(1)]] by blast
  then show "name_table (ro_update i f g) = name_table g"
    using name_table_put_used [OF assms(1) inv [unfolded ro_update_put] assms(2,5)] assms(4)
    unfolding ro_update_put by (simp add: map_upd_triv)
qed

text \<open>An attempt that is given up puts the table back.\<close>

lemma name_table_dec:
  assumes "registry_inv (gmem w)" and "i < URT_MAX_OBJECTS (gmem w)" and "ro_used (objects (gmem w) ! i)"
  shows "name_table (gmem (dec_count_common i rel w)) =
    (if ro_count (objects (gmem w) ! i) \<in> {0, 1}
     then (name_table (gmem w))(cname (ro_name (objects (gmem w) ! i)) := None) else name_table (gmem w))"
  unfolding dec_count_common_eq [OF assms(1,2)] using name_table_released [OF assms] by simp

lemma reserved_slot_simps [simp]:
  "ro_count (reserved_slot name) = 0" "ro_used (reserved_slot name)" "length (ro_name (reserved_slot name)) = 7"
  by (simp_all add: reserved_slot_def ro_used_def)

lemma reserved_state_deregister:
  assumes "registry_inv (gmem w)" and "name_table (gmem w) (cname name) = None"
    and "find_free_slot (gmem w) < URT_MAX_OBJECTS (gmem w)" and "0 < gsem w"
    and "gmem w2 = gmem (reserved_state name w)" and "gsem w2 = gsem w"
  shows "\<exists>w3. urt_deregister (find_free_slot (gmem w)) None w2 = Some w3 \<and> registry_inv (gmem w3)
    \<and> name_table (gmem w3) = name_table (gmem w) \<and> gsem w3 = gsem w \<and> gos w3 = gos w2
    \<and> (\<exists>ro. objects (gmem w3) = (objects (gmem w))[find_free_slot (gmem w) := ro])"
proof -
  let ?i = "find_free_slot (gmem w)"
  note r = reserved_state_inv [OF assms(1-3)]
  have i: "?i < URT_MAX_OBJECTS (gmem w2)" "objects (gmem w2) ! ?i = reserved_slot name"
    using assms(3,5) by (simp_all add: reserved_state_def)
  have "name_table (gmem (dec_count_common ?i None w2)) = (name_table (gmem w2))(cname name := None)"
    using r(1) i assms(5) by (simp add: name_table_dec cname_reserved_slot)
  also have "\<dots> = name_table (gmem w)" using r(2) assms(2,5) by (simp add: fun_eq_iff)
  finally have "name_table (gmem (dec_count_common ?i None w2)) = name_table (gmem w)" .
  moreover have "registry_inv (gmem (dec_count_common ?i None w2))"
    using r(1) i(1) assms(5) by (simp add: registry_inv_dec)
  moreover have "gos (dec_count_common ?i None w2) = gos w2"
    "\<exists>ro. objects (gmem (dec_count_common ?i None w2)) = (objects (gmem w))[?i := ro]"
    using r(1) i(1) assms(5) by (auto simp: dec_count_common_eq reserved_state_def)
  ultimately show ?thesis using assms(4,6) by (simp add: registry_run)
qed

lemma on_os_eq: "on_os f w = Some (r, w') \<longleftrightarrow> f (gos w) = (r, gos w') \<and> gmem w' = gmem w \<and> gsem w' = gsem w"
  by (auto simp: on_os_def split: prod.splits)

lemma released_count: "unat (ro_count ro) = Suc c \<Longrightarrow> unat (ro_count (released_slot ro)) = c"
  by (auto simp: released_slot_def unat_minus_one)

section \<open>The contract of a back-end\<close>

locale shared_backend =
  fixes call_new :: "string \<Rightarrow> ('os, 'p) sys_call"
    and call_attach :: "string \<Rightarrow> ('os, 'p) sys_call"
    and proc :: "('os, 'p) bookkeeping"
    and bk :: bool
    and adjust :: "'p \<Rightarrow> 'p"
    and record_id :: "'p \<Rightarrow> u32 \<Rightarrow> 'os \<Rightarrow> 'os"
  assumes new_frame: "call_new name w = Some (Inr p, w') \<Longrightarrow> gmem w' = gmem w \<and> gsem w' = gsem w"
    and attach_frame: "call_attach name w = Some (r, w') \<Longrightarrow> gmem w' = gmem w \<and> gsem w' = gsem w"
    and proc_eq: "proc p k i w = (adjust p,
      w\<lparr>gmem := (if bk then ro_update i (\<lambda>ro. ro\<lparr>ro_has_bookkeeping := True\<rparr>) (gmem w) else gmem w),
        gos := record_id p k (gos w)\<rparr>)"
begin

lemma new_run:
  assumes "registry_inv (gmem w)" and "0 < gsem w" and "name_table (gmem w) (cname name) = None"
    and "find_free_slot (gmem w) \<noteq> URT_MAX_OBJECTS (gmem w)"
    and "call_new name (reserved_state name w) = Some (Inr p, w2)"
  shows "SHOBJ_NEW name sz (call_new name) ty proc w = Some (Inr (adjust p),
    w\<lparr>gmem := put_slot (find_free_slot (gmem w)) (new_slot name bk ty sz)
         (max (objects_max_index (gmem w)) (find_free_slot (gmem w))) (gmem w),
      gos := record_id p (of_nat (find_free_slot (gmem w))) (gos w2)\<rparr>)"
proof -
  let ?i = "find_free_slot (gmem w)"
  have i: "?i < URT_MAX_OBJECTS (gmem w)" by (rule free_slot_reservable(1) [OF assms(1,4)])
  have r: "urt_reserve_name name w = Some (Inr ?i, reserved_state name w)"
    using assms(1-4) by (simp add: urt_reserve_name_run find_by_name_table reserved_state_def)
  obtain os2 where w2: "w2 = (reserved_state name w)\<lparr>gos := os2\<rparr>"
    using new_frame [OF assms(5)] by (metis urt_global.surjective urt_global.update_convs(3) old.unit.exhaust)
  show ?thesis
    using i assms(2) unfolding SHOBJ_NEW_def r bind.simps prod.case sum.case assms(5)
    by (simp add: w2 proc_eq Let_def urt_inc_name_count_run reserved_state_def ro_update_put new_slot_def)
qed

lemma new_fails:
  assumes "registry_inv (gmem w)" and "0 < gsem w" and "name_table (gmem w) (cname name) = None"
    and "find_free_slot (gmem w) \<noteq> URT_MAX_OBJECTS (gmem w)"
    and "call_new name (reserved_state name w) = Some (Inl e, w2)"
    and "gmem w2 = gmem (reserved_state name w)" and "gsem w2 = gsem w"
  shows "\<exists>w'. SHOBJ_NEW name sz (call_new name) ty proc w = Some (Inl e, w') \<and> registry_inv (gmem w')
    \<and> name_table (gmem w') = name_table (gmem w) \<and> gsem w' = gsem w \<and> gos w' = gos w2
    \<and> (\<exists>ro. objects (gmem w') = (objects (gmem w))[find_free_slot (gmem w) := ro])"
proof -
  let ?i = "find_free_slot (gmem w)"
  have i: "?i < URT_MAX_OBJECTS (gmem w)" by (rule free_slot_reservable(1) [OF assms(1,4)])
  have r: "urt_reserve_name name w = Some (Inr ?i, reserved_state name w)"
    using assms(1-4) by (simp add: urt_reserve_name_run find_by_name_table reserved_state_def)
  from reserved_state_deregister [OF assms(1,3) i assms(2,6,7)] show ?thesis
    unfolding SHOBJ_NEW_def r bind.simps prod.case sum.case assms(5) by auto
qed

lemma attach_run:
  assumes "registry_inv (gmem w)" and "0 < gsem w" and "name_table (gmem w) (cname name) = Some i"
    and "call_attach name (counted_state i w) = Some (Inr p, w2)"
  shows "SHOBJ_ATTACH name (call_attach name) proc w = Some (Inr (adjust p),
    w\<lparr>gmem := ro_update i (\<lambda>ro. (counted_slot ro)\<lparr>ro_has_bookkeeping := bk \<or> ro_has_bookkeeping ro\<rparr>) (gmem w),
      gos := record_id p (of_nat i) (gos w2)\<rparr>)"
proof -
  have i: "i < URT_MAX_OBJECTS (gmem w)" using assms(1,3) by (rule name_table_invD)
  have r: "urt_get_object_by_name_and_inc_count name w = Some (Some i, counted_state i w)"
    using assms(1-3) by (simp add: urt_get_object_run find_by_name_table counted_state_def)
  have "gmem w2 = gmem (counted_state i w)" "gsem w2 = gsem w"
    using attach_frame [OF assms(4)] by (simp_all add: counted_state_def)
  then have w2: "w2 = (counted_state i w)\<lparr>gos := gos w2\<rparr>" by (simp add: counted_state_def)
  show ?thesis
    using i unfolding SHOBJ_ATTACH_def r bind.simps prod.case option.case sum.case assms(4)
    by (subst w2) (simp add: proc_eq counted_state_def ro_update_put counted_slot_def)
qed

lemma attach_fails:
  assumes "registry_inv (gmem w)" and "0 < gsem w" and "name_table (gmem w) (cname name) = Some i"
    and "ro_count (objects (gmem w) ! i) \<noteq> -1" and "0 < ro_count (objects (gmem w) ! i)"
    and "call_attach name (counted_state i w) = Some (Inl e, w2)"
  shows "\<exists>w'. SHOBJ_ATTACH name (call_attach name) proc w = Some (Inl e, w') \<and> registry_inv (gmem w')
    \<and> name_table (gmem w') = name_table (gmem w) \<and> gsem w' = gsem w \<and> gos w' = gos w2
    \<and> ro_count (objects (gmem w') ! i) = ro_count (objects (gmem w) ! i)"
proof -
  note i = name_table_invD [OF assms(1,3)]
  have r: "urt_get_object_by_name_and_inc_count name w = Some (Some i, counted_state i w)"
    using assms(1-3) by (simp add: urt_get_object_run find_by_name_table counted_state_def)
  have g: "gmem w2 = ro_update i counted_slot (gmem w)" "gsem w2 = gsem w"
    using attach_frame [OF assms(6)] by (simp_all add: counted_state_def)
  have inv: "registry_inv (gmem w2)" using g registry_inv_inc [OF assms(1) i(1,2)] by simp
  have i2: "i < URT_MAX_OBJECTS (gmem w2)" "objects (gmem w2) ! i = counted_slot (objects (gmem w) ! i)"
    using g i(1) by (simp_all add: objects_ro_update)
  have c: "ro_count (counted_slot (objects (gmem w) ! i)) \<notin> {0, 1}"
    using assms(4,5) u32_inc_nonzero by (simp add: counted_slot_def)
  then have u: "ro_used (counted_slot (objects (gmem w) ! i))" by (simp add: ro_used_def)
  have "name_table (gmem (dec_count_common i None w2)) = name_table (gmem w2)"
    using inv i2 u c by (simp add: name_table_dec)
  also have "\<dots> = name_table (gmem w)" using name_table_inc [OF assms(1) i(1,2) assms(4)] g by simp
  finally have "name_table (gmem (dec_count_common i None w2)) = name_table (gmem w)" .
  moreover have "registry_inv (gmem (dec_count_common i None w2))" "gos (dec_count_common i None w2) = gos w2"
    using registry_inv_dec [OF inv i2(1)] dec_count_common_eq [OF inv i2(1)] by simp_all
  moreover have "ro_count (objects (gmem (dec_count_common i None w2)) ! i) = ro_count (objects (gmem w) ! i)"
    using dec_count_common_eq [OF inv i2(1)] i2 c by (simp add: put_slot_def released_slot_def counted_slot_def)
  ultimately show ?thesis
    using assms(2) g(2) unfolding SHOBJ_ATTACH_def r bind.simps prod.case option.case sum.case assms(6)
    by (simp add: registry_run)
qed

end

text \<open>A back-end that leaves the registry alone when it fails, too.\<close>

locale clean_backend = shared_backend +
  assumes new_fail_frame: "call_new name w = Some (Inl e, w') \<Longrightarrow> gmem w' = gmem w \<and> gsem w' = gsem w"
    and new_total: "call_new name w \<noteq> None"
    and attach_total: "call_attach name w \<noteq> None"
begin

lemma new_behaviour:
  assumes "registry_inv (gmem w)" and "0 < gsem w"
  shows "\<exists>r w'. SHOBJ_NEW name sz (call_new name) ty proc w = Some (r, w')
    \<and> registry_inv (gmem w') \<and> gsem w' = gsem w
    \<and> (case r of
        Inl e \<Rightarrow> name_table (gmem w') = name_table (gmem w)
      | Inr p \<Rightarrow> \<exists>i<URT_MAX_OBJECTS (gmem w). name_table (gmem w) (cname name) = None
          \<and> name_table (gmem w') = (name_table (gmem w))(cname name \<mapsto> i)
          \<and> objects (gmem w') = (objects (gmem w))[i := new_slot name bk ty sz])"
proof (cases "name_table (gmem w) (cname name) \<noteq> None \<or> find_free_slot (gmem w) = URT_MAX_OBJECTS (gmem w)")
  case True
  then obtain e where "SHOBJ_NEW name sz (call_new name) ty proc w = Some (Inl e, w)"
    using SHOBJ_NEW_refused [OF assms, of name] by blast
  with assms show ?thesis by simp
next
  case False
  then have n: "name_table (gmem w) (cname name) = None" and f: "find_free_slot (gmem w) \<noteq> URT_MAX_OBJECTS (gmem w)"
    by auto
  have i: "find_free_slot (gmem w) < URT_MAX_OBJECTS (gmem w)" by (rule free_slot_reservable(1) [OF assms(1) f])
  obtain c w2 where c: "call_new name (reserved_state name w) = Some (c, w2)"
    using new_total [of name "reserved_state name w"] by auto
  show ?thesis
  proof (cases c)
    case (Inl e)
    with c have "gmem w2 = gmem (reserved_state name w)" "gsem w2 = gsem w"
      using new_fail_frame by (force simp: reserved_state_def)+
    with new_fails [OF assms n f] c Inl show ?thesis by fastforce
  next
    case (Inr p)
    with new_run [OF assms n f] c new_slot_registry [OF assms(1) n i, of bk ty sz] n i show ?thesis
      by (auto simp: put_slot_def)
  qed
qed

end

end
