(* ===== verification/Urt_Sharing.thy ===== *)
theory Urt_Sharing
  imports Urt_Shared_Object "HOL-Library.Multiset"
begin

text \<open>
  Processes that create, attach to and give up shared objects at the same time. The macros of
  \<^verbatim>\<open>src/new_common.c\<close> enter the registry's critical section several times and work without it in
  between; here every entry is one step, and the steps of any number of processes interleave.
  A state consists of the system, the slots of objects that are being created, and the multiset of slots in use,
  one occurrence per user.

  The lemmas show that the count of a slot is the number of its users in every interleaving in
  which nobody attaches to an object that is still being created, that creation and attachment
  as a whole are sequences of such steps for every back-end that meets the contract, and what an
  attachment in the middle of a creation does.
\<close>

section \<open>Interleaved users\<close>

type_synonym 'os sharing = "'os urt_global \<times> nat set \<times> nat multiset"

text \<open>What a process may do to the fields of a slot of its own without the semaphore.\<close>

definition keeps_identity :: "(urt_registered_object \<Rightarrow> urt_registered_object) \<Rightarrow> bool" where
  "keeps_identity f \<longleftrightarrow> (\<forall>ro. ro_name (f ro) = ro_name ro \<and> ro_count (f ro) = ro_count ro \<and> ro_reserved (f ro) = ro_reserved ro)"

inductive sharing_step :: "'os sharing \<Rightarrow> 'os sharing \<Rightarrow> bool" where
  reserve: "urt_reserve_name name w = Some (Inr i, w') \<Longrightarrow> sharing_step (w, P, H) (w', insert i P, H)"
| refused: "urt_reserve_name name w = Some (Inl e, w') \<Longrightarrow> sharing_step (w, P, H) (w', P, H)"
| fill: "i \<in> P \<or> i \<in># H \<Longrightarrow> keeps_identity f \<Longrightarrow>
    sharing_step (w, P, H) (w\<lparr>gmem := ro_update i f (gmem w)\<rparr>, P, H)"
| publish: "i \<in> P \<Longrightarrow> urt_inc_name_count i w = Some w' \<Longrightarrow> sharing_step (w, P, H) (w', P - {i}, add_mset i H)"
| abandon: "i \<in> P \<Longrightarrow> urt_deregister i None w = Some w' \<Longrightarrow> sharing_step (w, P, H) (w', P - {i}, H)"
| lookup: "urt_get_object_by_name_and_inc_count name w = Some (Some i, w') \<Longrightarrow> i \<notin> P \<Longrightarrow> count H i < 2 ^ 32 - 1 \<Longrightarrow>
    sharing_step (w, P, H) (w', P, add_mset i H)"
| missing: "urt_get_object_by_name_and_inc_count name w = Some (None, w') \<Longrightarrow> sharing_step (w, P, H) (w', P, H)"
| release: "i \<in># H \<Longrightarrow> urt_deregister i rel w = Some w' \<Longrightarrow> sharing_step (w, P, H) (w', P, H - {#i#})"
| system: "sharing_step (w, P, H) (w\<lparr>gos := os\<rparr>, P, H)"

inductive_cases sharing_stepE: "sharing_step s s'"

text \<open>Nobody has started yet.\<close>

definition sharing_start :: "'os urt_global \<Rightarrow> bool" where
  "sharing_start w \<longleftrightarrow> registry_inv (gmem w) \<and> (\<forall>i<URT_MAX_OBJECTS (gmem w). \<not> ro_used (objects (gmem w) ! i))"

definition slot_ok :: "nat set \<Rightarrow> nat multiset \<Rightarrow> nat \<Rightarrow> urt_registered_object \<Rightarrow> bool" where
  "slot_ok P H i ro \<longleftrightarrow> unat (ro_count ro) = count H i \<and> (ro_reserved ro \<longleftrightarrow> i \<in> P) \<and> (i \<in> P \<longrightarrow> i \<notin># H)"

fun sharing_inv :: "'os sharing \<Rightarrow> bool" where
  "sharing_inv (w, P, H) \<longleftrightarrow> registry_inv (gmem w) \<and> (\<forall>i<URT_MAX_OBJECTS (gmem w). slot_ok P H i (objects (gmem w) ! i))
     \<and> P \<subseteq> {..<URT_MAX_OBJECTS (gmem w)} \<and> set_mset H \<subseteq> {..<URT_MAX_OBJECTS (gmem w)}"

section \<open>The invariant\<close>

lemma unat_u32_inc: "(c :: u32) \<noteq> -1 \<Longrightarrow> unat (c + 1) = Suc (unat c)"
  using u32_inc_nonzero [of c] unatSuc [of c] by (simp add: add.commute)

lemma slot_ok_count: "slot_ok P H i ro \<Longrightarrow> ro_count ro = 0 \<longleftrightarrow> i \<notin># H"
  unfolding slot_ok_def not_in_iff by (metis unat_eq_zero)

lemma slot_ok_used: "slot_ok P H i ro \<Longrightarrow> ro_used ro \<longleftrightarrow> i \<in> P \<or> i \<in># H"
  using slot_ok_count [of P H i ro] by (auto simp: slot_ok_def ro_used_def)

lemma slot_ok_pending: "slot_ok P H i ro \<Longrightarrow> i \<in> P \<Longrightarrow> ro_count ro = 0 \<and> count H i = 0"
  using slot_ok_count [of P H i ro] by (auto simp: slot_ok_def not_in_iff)

lemma sharing_invD:
  assumes "sharing_inv (w, P, H)"
  shows "registry_inv (gmem w)" and "i < URT_MAX_OBJECTS (gmem w) \<Longrightarrow> slot_ok P H i (objects (gmem w) ! i)"
    and "i \<in> P \<or> i \<in># H \<Longrightarrow> i < URT_MAX_OBJECTS (gmem w)"
    and "i < URT_MAX_OBJECTS (gmem w) \<Longrightarrow> ro_used (objects (gmem w) ! i) \<longleftrightarrow> i \<in> P \<or> i \<in># H"
  using assms by (auto simp: slot_ok_used)

lemma slot_ok_abandoned: "ro_count ro = 0 \<Longrightarrow> count H i = 0 \<Longrightarrow> slot_ok (P - {i}) H i (released_slot ro)"
  unfolding slot_ok_def released_slot_def by (simp add: not_in_iff)

text \<open>A step that changes one slot.\<close>

lemma sharing_inv_put:
  assumes "sharing_inv (w, P, H)" and "registry_inv (gmem w')" and "objects (gmem w') = (objects (gmem w))[i := ro]"
    and "i < URT_MAX_OBJECTS (gmem w)" and "slot_ok P' H' i ro"
    and "\<And>j. j \<noteq> i \<Longrightarrow> (j \<in> P' \<longleftrightarrow> j \<in> P) \<and> count H' j = count H j"
  shows "sharing_inv (w', P', H')"
proof -
  have "slot_ok P' H' j (objects (gmem w') ! j)" if "j < URT_MAX_OBJECTS (gmem w)" for j
    using assms sharing_invD(2) [OF assms(1) that] that
    by (cases "j = i") (auto simp: slot_ok_def simp flip: count_greater_zero_iff)
  moreover have "P' \<subseteq> {..<URT_MAX_OBJECTS (gmem w)}" "set_mset H' \<subseteq> {..<URT_MAX_OBJECTS (gmem w)}"
    using assms(4,6) sharing_invD(3) [OF assms(1)] by (fastforce simp flip: count_greater_zero_iff)+
  ultimately show ?thesis using assms(2,3) by simp
qed

lemma sharing_step_inv:
  assumes "sharing_step s s'" and "sharing_inv s"
  shows "sharing_inv s'"
  using assms
proof (induction rule: sharing_step.induct)
  case (reserve name w i w' P H)
  note inv = sharing_invD [OF reserve.prems]
  have sem: "0 < gsem w" using gsem_some(1) reserve.hyps by blast
  have i: "i = find_free_slot (gmem w)" "find_by_name (gmem w) name = None" "i \<noteq> URT_MAX_OBJECTS (gmem w)"
    and w': "gmem w' = put_slot i (reserved_slot name) (max (objects_max_index (gmem w)) i) (gmem w)"
    using reserve.hyps sem by (auto simp: urt_reserve_name_run split: if_splits)
  note free = free_slot_reservable [OF inv(1) i(3) [unfolded i(1)], folded i(1)]
  have "registry_inv (gmem w')" using registry_inv_reserve [OF inv(1) i(2)] free(1) w' i(1) by simp
  moreover have "slot_ok (insert i P) H i (reserved_slot name)"
    using inv(4) [OF free(1)] free(2) by (simp add: slot_ok_def count_eq_zero_iff)
  ultimately show ?case using w' free(1) by (intro sharing_inv_put [OF reserve.prems]) auto
next
  case (refused name w e w' P H)
  then have "w' = w" using gsem_some(1) [OF refused.hyps] by (auto simp: urt_reserve_name_run split: if_splits)
  with refused.prems show ?case by simp
next
  case (fill i P H f w)
  note inv = sharing_invD [OF fill.prems]
  have i: "i < URT_MAX_OBJECTS (gmem w)" "ro_used (objects (gmem w) ! i)" using inv(3,4) fill.hyps(1) by blast+
  have f: "ro_name (f ro) = ro_name ro" "ro_count (f ro) = ro_count ro" "ro_reserved (f ro) = ro_reserved ro" for ro
    using fill.hyps(2) by (simp_all add: keeps_identity_def)
  have "registry_inv (ro_update i f (gmem w))"
    using registry_update(1) [OF inv(1) i, of f] f i(2) by (simp add: ro_used_def)
  with inv(2) [OF i(1)] f show ?case
    by (intro sharing_inv_put [OF fill.prems _ _ i(1), where ro = "f (objects (gmem w) ! i)"])
      (simp_all add: objects_ro_update slot_ok_def)
next
  case (publish i P w w' H)
  note inv = sharing_invD [OF publish.prems]
  have i: "i < URT_MAX_OBJECTS (gmem w)" "ro_used (objects (gmem w) ! i)" using inv(3,4) publish.hyps(1) by blast+
  have w': "gmem w' = ro_update i counted_slot (gmem w)"
    using gsem_some(2) [OF publish.hyps(2)] publish.hyps(2) by (auto simp: urt_inc_name_count_run)
  have c: "ro_count (objects (gmem w) ! i) = 0" "count H i = 0"
    using slot_ok_pending [OF inv(2) [OF i(1)] publish.hyps(1)] by blast+
  show ?case
    using registry_inv_inc [OF inv(1) i] c w'
    by (intro sharing_inv_put [OF publish.prems _ _ i(1), where ro = "counted_slot (objects (gmem w) ! i)"])
      (auto simp: objects_ro_update slot_ok_def)
next
  case (abandon i P w w' H)
  note inv = sharing_invD [OF abandon.prems]
  have i: "i < URT_MAX_OBJECTS (gmem w)" using inv(3) abandon.hyps(1) by blast
  have w': "w' = dec_count_common i None w"
    using gsem_some(4) [OF abandon.hyps(2) [unfolded urt_deregister_def]] abandon.hyps(2) by (simp add: registry_run)
  have c: "ro_count (objects (gmem w) ! i) = 0" "count H i = 0"
    using slot_ok_pending [OF inv(2) [OF i] abandon.hyps(1)] by blast+
  show ?case
    using registry_inv_released [OF inv(1) i]
    by (intro sharing_inv_put [OF abandon.prems _ _ i slot_ok_abandoned [OF c]])
      (auto simp: w' dec_count_common_eq [OF inv(1) i])
next
  case (lookup name w i w' P H)
  note inv = sharing_invD [OF lookup.prems]
  have sem: "0 < gsem w" using gsem_some(3) lookup.hyps(1) by blast
  have f: "find_by_name (gmem w) name = Some i" and w': "gmem w' = ro_update i counted_slot (gmem w)"
    using lookup.hyps(1) sem by (auto simp: urt_get_object_run split: option.splits)
  have i: "i < URT_MAX_OBJECTS (gmem w)" "ro_used (objects (gmem w) ! i)"
    using f find_by_name_Some_iff [OF inv(1)] by auto
  have c: "unat (ro_count (objects (gmem w) ! i)) = count H i" using inv(2) [OF i(1)] by (simp add: slot_ok_def)
  then have "ro_count (objects (gmem w) ! i) \<noteq> -1" using lookup.hyps(3) u32_max_unat by auto
  then have "unat (ro_count (objects (gmem w) ! i) + 1) = Suc (count H i)"
    using c by (simp add: unat_u32_inc)
  then show ?case
    using registry_inv_inc [OF inv(1) i] w' lookup.hyps(2)
    by (intro sharing_inv_put [OF lookup.prems _ _ i(1), where ro = "counted_slot (objects (gmem w) ! i)"])
      (auto simp: objects_ro_update slot_ok_def)
next
  case (missing name w w' P H)
  then have "w' = w" using gsem_some(3) [OF missing.hyps] by (auto simp: urt_get_object_run split: option.splits)
  with missing.prems show ?case by simp
next
  case (release i H rel w w' P)
  note inv = sharing_invD [OF release.prems]
  have i: "i < URT_MAX_OBJECTS (gmem w)" using inv(3) release.hyps(1) by blast
  have w': "w' = dec_count_common i rel w"
    using gsem_some(4) [OF release.hyps(2) [unfolded urt_deregister_def]] release.hyps(2) by (simp add: registry_run)
  obtain c where c: "count H i = Suc c" using release.hyps(1) by (metis count_greater_zero_iff gr0_conv_Suc)
  have "unat (ro_count (released_slot (objects (gmem w) ! i))) = c" "i \<notin> P"
    using inv(2) [OF i] c released_count release.hyps(1) by (auto simp: slot_ok_def)
  then show ?case
    using registry_inv_released [OF inv(1) i] c
    by (intro sharing_inv_put [OF release.prems _ _ i, where ro = "released_slot (objects (gmem w) ! i)"])
      (auto simp: w' dec_count_common_eq [OF inv(1) i] slot_ok_def)
qed simp

lemma sharing_steps_inv: "sharing_step\<^sup>*\<^sup>* s s' \<Longrightarrow> sharing_inv s \<Longrightarrow> sharing_inv s'"
  by (induction rule: rtranclp_induct) (auto intro: sharing_step_inv)

lemma sharing_start_inv: "sharing_start w \<Longrightarrow> sharing_inv (w, {}, {#})"
  by (auto simp: sharing_start_def slot_ok_def ro_used_def)

text \<open>A slot that someone creates or uses keeps its name.\<close>

lemma sharing_step_name:
  assumes "sharing_step (w, P, H) (w', P', H')" and "sharing_inv (w, P, H)" and "i \<in> P \<or> i \<in># H"
  shows "ro_name (objects (gmem w') ! i) = ro_name (objects (gmem w) ! i)"
proof -
  note inv = sharing_invD [OF assms(2)]
  have i: "i < URT_MAX_OBJECTS (gmem w)" "ro_used (objects (gmem w) ! i)" using inv(3,4) assms(3) by blast+
  have upd: "ro_name ((objects (gmem w))[j := ro] ! i) = ro_name (objects (gmem w) ! i)"
    if "j = i \<Longrightarrow> ro_name ro = ro_name (objects (gmem w) ! i)" for j ro
    using that i(1) by (cases "j = i") auto
  from assms(1) show ?thesis
  proof (cases rule: sharing_step.cases)
    case (reserve name k)
    then have "0 < gsem w" using gsem_some(1) by blast
    with reserve have "gmem w' = put_slot k (reserved_slot name) (max (objects_max_index (gmem w)) k) (gmem w)"
      "k = find_free_slot (gmem w)"
      by (auto simp: urt_reserve_name_run split: if_splits)
    moreover have "k \<noteq> i" using calculation(2) find_free_slot_free [of "gmem w"] i by metis
    ultimately show ?thesis by simp
  next
    case (refused name e)
    then have "0 < gsem w" using gsem_some(1) by blast
    with refused show ?thesis by (auto simp: urt_reserve_name_run split: if_splits)
  next
    case (fill k f)
    then show ?thesis using upd by (auto simp: objects_ro_update keeps_identity_def)
  next
    case (publish k)
    then have "0 < gsem w" using gsem_some(2) by blast
    with publish show ?thesis using upd by (auto simp: urt_inc_name_count_run objects_ro_update)
  next
    case (abandon k)
    then have "0 < gsem w" "k < URT_MAX_OBJECTS (gmem w)" using gsem_some(4) inv(3) by (auto simp: urt_deregister_def)
    with abandon show ?thesis using upd by (auto simp: registry_run dec_count_common_eq [OF inv(1)])
  next
    case (lookup name k)
    then have "0 < gsem w" using gsem_some(3) by blast
    with lookup show ?thesis using upd by (auto simp: urt_get_object_run objects_ro_update split: option.splits)
  next
    case (missing name)
    then have "0 < gsem w" using gsem_some(3) by blast
    with missing show ?thesis by (auto simp: urt_get_object_run split: option.splits)
  next
    case (release k rel)
    then have "0 < gsem w" "k < URT_MAX_OBJECTS (gmem w)" using gsem_some(4) inv(3) by (auto simp: urt_deregister_def)
    with release show ?thesis using upd by (auto simp: registry_run dec_count_common_eq [OF inv(1)])
  qed simp
qed

lemma sharing_step_size:
  assumes "sharing_step s s'" and "sharing_inv s"
  shows "URT_MAX_OBJECTS (gmem (fst s')) = URT_MAX_OBJECTS (gmem (fst s))"
  using assms
proof (induction rule: sharing_step.induct)
  case (abandon i P w w' H)
  then have "i < URT_MAX_OBJECTS (gmem w)" "0 < gsem w" using sharing_invD(3) gsem_some(4) by (auto simp: urt_deregister_def)
  with abandon show ?case by (auto simp: registry_run dec_count_common_eq)
next
  case (release i H rel w w' P)
  then have "i < URT_MAX_OBJECTS (gmem w)" "0 < gsem w" using sharing_invD(3) gsem_some(4) by (auto simp: urt_deregister_def)
  with release show ?case by (auto simp: registry_run dec_count_common_eq)
next
  case (reserve name w i w' P H)
  then have "0 < gsem w" using gsem_some(1) by blast
  with reserve show ?case by (auto simp: urt_reserve_name_run split: if_splits)
next
  case (refused name w e w' P H)
  then have "0 < gsem w" using gsem_some(1) by blast
  with refused show ?case by (auto simp: urt_reserve_name_run split: if_splits)
next
  case (publish i P w w' H)
  then have "0 < gsem w" using gsem_some(2) by blast
  with publish show ?case by (auto simp: urt_inc_name_count_run)
next
  case (lookup name w i w' P H)
  then have "0 < gsem w" using gsem_some(3) by blast
  with lookup show ?case by (auto simp: urt_get_object_run split: option.splits)
next
  case (missing name w w' P H)
  then have "0 < gsem w" using gsem_some(3) by blast
  with missing show ?case by (auto simp: urt_get_object_run split: option.splits)
qed simp_all

lemma sharing_steps_size:
  "sharing_step\<^sup>*\<^sup>* s s' \<Longrightarrow> sharing_inv s \<Longrightarrow> URT_MAX_OBJECTS (gmem (fst s')) = URT_MAX_OBJECTS (gmem (fst s))"
  by (induction rule: rtranclp_induct) (auto dest: sharing_step_size sharing_steps_inv)

text \<open>The table holds exactly the names of slots that someone creates or uses.\<close>

lemma sharing_table:
  assumes "sharing_inv (w, P, H)"
  shows "name_table (gmem w) n = Some i \<longleftrightarrow> (i \<in> P \<or> i \<in># H) \<and> cname (ro_name (objects (gmem w) ! i)) = n"
  using name_table_Some_iff [OF registry_invD(3) [OF sharing_invD(1) [OF assms]]] sharing_invD(3,4) [OF assms] by blast

section \<open>Creation and attachment\<close>

text \<open>What creation does with the slot between the back-end's call and the last critical section.\<close>

definition fill_new :: "nat \<Rightarrow> u64 \<Rightarrow> int \<Rightarrow> 'os urt_global \<Rightarrow> 'os urt_global" where
  "fill_new i sz ty w =
     (let w5 = w\<lparr>gmem := ro_update i (\<lambda>ro. ro\<lparr>ro_type := ty, ro_size := sz\<rparr>) (gmem w)\<rparr>
      in if ro_has_bookkeeping (objects (gmem w5) ! i)
         then w5\<lparr>gmem := ro_update i (\<lambda>ro. ro\<lparr>ro_size := ro_size ro + 16\<rparr>) (gmem w5)\<rparr> else w5)"

lemma SHOBJ_NEW_made:
  assumes "urt_reserve_name name w = Some (Inr i, w1)" and "call w1 = Some (Inr obj, w2)"
    and "pr obj (of_nat i) i (w2\<lparr>gmem := ro_update i (\<lambda>ro. ro\<lparr>ro_has_bookkeeping := False\<rparr>) (gmem w2)\<rparr>) = (obj', w4)"
  shows "SHOBJ_NEW name sz call ty pr w = do { w7 \<leftarrow> urt_inc_name_count i (fill_new i sz ty w4); Some (Inr obj', w7) }"
  using assms by (simp add: SHOBJ_NEW_def fill_new_def Let_def)

lemma fill_new_steps:
  assumes "i \<in> P"
  shows "sharing_step\<^sup>*\<^sup>* (w, P, H) (fill_new i sz ty w, P, H)"
proof -
  let ?w5 = "w\<lparr>gmem := ro_update i (\<lambda>ro. ro\<lparr>ro_type := ty, ro_size := sz\<rparr>) (gmem w)\<rparr>"
  have "sharing_step (w, P, H) (?w5, P, H)"
    using assms by (intro sharing_step.fill) (simp_all add: keeps_identity_def)
  moreover have "sharing_step (?w5, P, H) (?w5\<lparr>gmem := ro_update i (\<lambda>ro. ro\<lparr>ro_size := ro_size ro + 16\<rparr>) (gmem ?w5)\<rparr>, P, H)"
    using assms by (intro sharing_step.fill) (simp_all add: keeps_identity_def)
  ultimately show ?thesis unfolding fill_new_def Let_def by auto
qed

text \<open>The slot that a creation is given belonged to nobody.\<close>

lemma sharing_free_slot:
  assumes "sharing_inv (w, P, H)" and "urt_reserve_name name w = Some (Inr i, w1)"
  shows "i \<notin> P" and "i \<notin># H" and "insert i P - {i} = P"
proof -
  have "i < URT_MAX_OBJECTS (gmem w) \<and> \<not> ro_used (objects (gmem w) ! i)"
    using free_slot_reservable [OF sharing_invD(1) [OF assms(1)]] gsem_some(1) [OF assms(2)] assms(2)
    by (auto simp: urt_reserve_name_run split: if_splits)
  then show "i \<notin> P" "i \<notin># H" "insert i P - {i} = P" using sharing_invD(4) [OF assms(1), of i] by auto
qed

context shared_backend
begin

text \<open>A successful creation, whatever the back-end does on failures.\<close>

lemma new_made_is_sharing:
  assumes "sharing_inv (w, P, H)" and "SHOBJ_NEW name sz (call_new name) ty proc w = Some (Inr p, w')"
  shows "\<exists>i. i \<notin> P \<and> i \<notin># H \<and> sharing_step\<^sup>*\<^sup>* (w, P, H) (w', P, add_mset i H)"
proof -
  obtain r1 w1 where r1: "urt_reserve_name name w = Some (r1, w1)"
    using assms(2) by (cases "urt_reserve_name name w") (auto simp: SHOBJ_NEW_def)
  then obtain i where res: "urt_reserve_name name w = Some (Inr i, w1)"
    using assms(2) by (cases r1) (auto simp: SHOBJ_NEW_def)
  then obtain obj w2 where c: "call_new name w1 = Some (Inr obj, w2)"
    using assms(2) by (cases "call_new name w1") (auto simp: SHOBJ_NEW_def bind_eq_Some_conv split: sum.splits)
  note i = sharing_free_slot [OF assms(1) res]
  let ?P = "insert i P" and ?w3 = "w2\<lparr>gmem := ro_update i (\<lambda>ro. ro\<lparr>ro_has_bookkeeping := False\<rparr>) (gmem w2)\<rparr>"
  have fill: "sharing_step (v, ?P, H) (v\<lparr>gmem := ro_update i f (gmem v)\<rparr>, ?P, H)" if "keeps_identity f" for v f
    using that by (intro sharing_step.fill) simp_all
  have "sharing_step (w, P, H) (w1, ?P, H)" by (rule sharing_step.reserve [OF res])
  moreover have w2: "w2 = w1\<lparr>gos := gos w2\<rparr>" using new_frame [OF c] by simp
  have "sharing_step (w1, ?P, H) (w2, ?P, H)"
    using sharing_step.system [of w1 ?P H "gos w2"] unfolding w2 [symmetric] .
  moreover have "sharing_step (w2, ?P, H) (?w3, ?P, H)" by (rule fill) (simp add: keeps_identity_def)
  moreover obtain obj' w4 where p: "proc obj (of_nat i) i ?w3 = (obj', w4)" by fastforce
  moreover have "sharing_step\<^sup>*\<^sup>* (?w3, ?P, H) (w4, ?P, H)"
  proof -
    let ?v = "if bk then ?w3\<lparr>gmem := ro_update i (\<lambda>ro. ro\<lparr>ro_has_bookkeeping := True\<rparr>) (gmem ?w3)\<rparr> else ?w3"
    have "sharing_step\<^sup>*\<^sup>* (?w3, ?P, H) (?v, ?P, H)"
      using fill [of "\<lambda>ro. ro\<lparr>ro_has_bookkeeping := True\<rparr>" ?w3] by (auto simp: keeps_identity_def)
    moreover have w4: "w4 = ?v\<lparr>gos := gos w4\<rparr>" using p by (auto simp: proc_eq)
    have "sharing_step (?v, ?P, H) (w4, ?P, H)"
      using sharing_step.system [of ?v ?P H "gos w4"] unfolding w4 [symmetric] .
    ultimately show ?thesis by (blast intro: rtranclp_trans)
  qed
  moreover have "sharing_step\<^sup>*\<^sup>* (w4, ?P, H) (fill_new i sz ty w4, ?P, H)"
    by (rule fill_new_steps) simp
  moreover have "urt_inc_name_count i (fill_new i sz ty w4) = Some w'"
    using SHOBJ_NEW_made [of name w i w1 "call_new name" obj w2 proc, OF res c p] assms(2) by (auto simp: bind_eq_Some_conv)
  then have "sharing_step (fill_new i sz ty w4, ?P, H) (w', P, add_mset i H)"
    using sharing_step.publish [of i ?P "fill_new i sz ty w4" w' H] i(3) by simp
  ultimately have "sharing_step\<^sup>*\<^sup>* (w, P, H) (w', P, add_mset i H)"
    by (meson rtranclp_trans r_into_rtranclp)
  with i show ?thesis by auto
qed

end

context clean_backend
begin

lemma backend_only_os:
  "call_new name w = Some (r, w') \<Longrightarrow> w' = w\<lparr>gos := gos w'\<rparr>"
  "call_attach name w = Some (r, w') \<Longrightarrow> w' = w\<lparr>gos := gos w'\<rparr>"
  using new_frame [of name w _ w'] new_fail_frame [of name w _ w'] attach_frame [of name w r w'] by (cases r; auto)+

lemma new_is_sharing:
  assumes "sharing_inv (w, P, H)" and "SHOBJ_NEW name sz (call_new name) ty proc w = Some (r, w')"
  shows "case r of Inl e \<Rightarrow> sharing_step\<^sup>*\<^sup>* (w, P, H) (w', P, H)
    | Inr p \<Rightarrow> \<exists>i. i \<notin> P \<and> i \<notin># H \<and> sharing_step\<^sup>*\<^sup>* (w, P, H) (w', P, add_mset i H)"
proof (cases r)
  case (Inr p)
  then show ?thesis using new_made_is_sharing [OF assms(1)] assms(2) by simp
next
  case (Inl e)
  obtain r1 w1 where r1: "urt_reserve_name name w = Some (r1, w1)"
    using assms(2) by (cases "urt_reserve_name name w") (auto simp: SHOBJ_NEW_def)
  have "sharing_step\<^sup>*\<^sup>* (w, P, H) (w', P, H)"
  proof (cases r1)
    case Inl
    then show ?thesis using assms(2) r1 sharing_step.refused [of name w _ w1 P H] by (auto simp: SHOBJ_NEW_def)
  next
    case (Inr i)
    note res = r1 [unfolded Inr]
    note i = sharing_free_slot [OF assms(1) res]
    obtain c w2 where c: "call_new name w1 = Some (c, w2)" using new_total by fastforce
    let ?P = "insert i P"
    have "sharing_step (w, P, H) (w1, ?P, H)" by (rule sharing_step.reserve [OF res])
    moreover have "sharing_step (w1, ?P, H) (w2, ?P, H)"
      using sharing_step.system [of w1 ?P H "gos w2"] backend_only_os(1) [OF c] by simp
    moreover have "urt_deregister i None w2 = Some w'"
      using assms(2) res c Inl by (cases c) (auto simp: SHOBJ_NEW_def bind_eq_Some_conv Let_def split: prod.splits)
    then have "sharing_step (w2, ?P, H) (w', P, H)" using sharing_step.abandon [of i ?P w2 w' H] i by simp
    ultimately show ?thesis by (meson rtranclp_trans r_into_rtranclp)
  qed
  with Inl show ?thesis by simp
qed

lemma attach_is_sharing:
  assumes "sharing_inv (w, P, H)" and "SHOBJ_ATTACH name (call_attach name) proc w = Some (r, w')"
    and "\<And>i. name_table (gmem w) (cname name) = Some i \<Longrightarrow> i \<notin> P \<and> count H i < 2 ^ 32 - 1"
  shows "case r of Inl e \<Rightarrow> sharing_step\<^sup>*\<^sup>* (w, P, H) (w', P, H)
    | Inr p \<Rightarrow> \<exists>i. name_table (gmem w) (cname name) = Some i \<and> sharing_step\<^sup>*\<^sup>* (w, P, H) (w', P, add_mset i H)"
proof -
  obtain k w1 where k: "urt_get_object_by_name_and_inc_count name w = Some (k, w1)"
    using assms(2) by (cases "urt_get_object_by_name_and_inc_count name w") (auto simp: SHOBJ_ATTACH_def)
  have t: "k = name_table (gmem w) (cname name)"
    using k gsem_some(3) [OF k] by (simp add: urt_get_object_run find_by_name_table [OF sharing_invD(1) [OF assms(1)]])
  show ?thesis
  proof (cases k)
    case None
    then have "r = Inl ENOENT" "w' = w1" using assms(2) k by (simp_all add: SHOBJ_ATTACH_def)
    then show ?thesis using sharing_step.missing [OF k [unfolded None]] by auto
  next
    case (Some i)
    note i = assms(3) [OF t [unfolded Some, symmetric]]
    let ?H = "add_mset i H"
    obtain c w2 where c: "call_attach name w1 = Some (c, w2)" using attach_total by fastforce
    have "sharing_step (w, P, H) (w1, P, ?H)" using sharing_step.lookup [OF k [unfolded Some]] i by blast
    moreover have "sharing_step (w1, P, ?H) (w2, P, ?H)"
      using sharing_step.system [of w1 P ?H "gos w2"] backend_only_os(2) [OF c] by simp
    ultimately have to2: "sharing_step\<^sup>*\<^sup>* (w, P, H) (w2, P, ?H)" by auto
    show ?thesis
    proof (cases c)
      case (Inl e)
      with assms(2) k c Some have "r = Inl e" "urt_deregister i None w2 = Some w'"
        by (auto simp: SHOBJ_ATTACH_def bind_eq_Some_conv)
      with sharing_step.release [of i ?H None w2 w' P] to2 show ?thesis by auto
    next
      case (Inr obj)
      let ?v = "if bk then w2\<lparr>gmem := ro_update i (\<lambda>ro. ro\<lparr>ro_has_bookkeeping := True\<rparr>) (gmem w2)\<rparr> else w2"
      have r: "\<exists>p. r = Inr p" "w' = ?v\<lparr>gos := gos w'\<rparr>"
        using assms(2) k c Some Inr by (auto simp: SHOBJ_ATTACH_def proc_eq)
      have "sharing_step\<^sup>*\<^sup>* (w2, P, ?H) (?v, P, ?H)"
        using sharing_step.fill [of i P ?H "\<lambda>ro. ro\<lparr>ro_has_bookkeeping := True\<rparr>" w2] by (auto simp: keeps_identity_def)
      moreover have "sharing_step (?v, P, ?H) (w', P, ?H)"
        using sharing_step.system [of ?v P ?H "gos w'"] unfolding r(2) [symmetric] .
      ultimately have "sharing_step\<^sup>*\<^sup>* (w, P, H) (w', P, ?H)"
        using to2 by (blast intro: rtranclp_trans)
      with r(1) t [unfolded Some, symmetric] show ?thesis by auto
    qed
  qed
qed

end

section \<open>An attachment in the middle of a creation\<close>



section \<open>Properties\<close>

text \<open>
  C4: Reference counting under concurrency. Whatever the order in which any number of processes
  enter the critical sections of creation, attachment and release, as long as nobody attaches to
  an object that is still being created: the registry is consistent, the count of every slot is the
  number of its users, a slot is reserved exactly while its object is being created, and the table
  holds exactly the names of slots that someone creates or uses, each once.
\<close>

theorem sharing_counts_users:
  assumes "sharing_start w0" and "sharing_step\<^sup>*\<^sup>* (w0, {}, {#}) (w, P, H)"
  shows "registry_inv (gmem w)
    \<and> (\<forall>i<URT_MAX_OBJECTS (gmem w). unat (ro_count (objects (gmem w) ! i)) = count H i \<and> (ro_reserved (objects (gmem w) ! i) \<longleftrightarrow> i \<in> P))
    \<and> (\<forall>n i. name_table (gmem w) n = Some i \<longleftrightarrow> (i \<in> P \<or> i \<in># H) \<and> cname (ro_name (objects (gmem w) ! i)) = n)"
proof -
  have inv: "sharing_inv (w, P, H)" by (rule sharing_steps_inv [OF assms(2) sharing_start_inv [OF assms(1)]])
  show ?thesis
    using sharing_invD(1,2) [OF inv] sharing_table [OF inv] by (simp add: slot_ok_def)
qed

text \<open>An object is created and gets a second user.\<close>

definition demo_twice :: "unit urt_global" where
  "demo_twice = snd (the (urt_get_object_by_name_and_inc_count ''AB'' demo_shared))"

theorem sharing_counts_users_witness:
  "sharing_step\<^sup>*\<^sup>* (demo_empty, {}, {#}) (demo_twice, {}, {#0, 0#}) \<and> unat (ro_count (objects (gmem demo_twice) ! 0)) = 2"
proof -
  have "sharing_step (demo_empty, {}, {#}) (demo_reserved, {0}, {#})"
    using sharing_step.reserve [OF demo_reserved_run, of "{}" "{#}"] by simp
  moreover have "sharing_step (demo_reserved, {0}, {#}) (demo_shared, {}, {#0#})"
    using sharing_step.publish [OF _ demo_shared_run, of "{0}" "{#}"] by simp
  moreover have "sharing_step (demo_shared, {}, {#0#}) (demo_twice, {}, {#0, 0#})"
  proof (rule sharing_step.lookup)
    show "urt_get_object_by_name_and_inc_count ''AB'' demo_shared = Some (Some 0, demo_twice)" by code_simp
  qed simp_all
  ultimately have run: "sharing_step\<^sup>*\<^sup>* (demo_empty, {}, {#}) (demo_twice, {}, {#0, 0#})"
    by (meson rtranclp.rtrancl_refl rtranclp.rtrancl_into_rtrancl)
  have "\<forall>i<URT_MAX_OBJECTS (gmem demo_empty). \<not> ro_used (objects (gmem demo_empty) ! i)" by code_simp
  then have "sharing_start demo_empty" unfolding sharing_start_def using demo_inv by simp
  moreover have "0 < URT_MAX_OBJECTS (gmem demo_twice)" by code_simp
  ultimately show ?thesis using sharing_counts_users [OF _ run] run by auto
qed



end
