(* ===== verification/Posix_Mem.thy ===== *)
theory Posix_Mem
  imports Posix_Os Urt_Sharing
begin

text \<open>
  Shared memory of the POSIX back-end (\<^verbatim>\<open>sys/posix/src/mem.c\<close>, the book-keeping of
  \<^verbatim>\<open>sys/posix/include/urt_sys_internal.h\<close> and \<^verbatim>\<open>urt_sys_force_clear_name\<close> of
  \<^verbatim>\<open>sys/posix/src/setup.c\<close>), with \<^verbatim>\<open>urt_shmem_new\<close>, \<^verbatim>\<open>urt_shmem_attach\<close> and
  \<^verbatim>\<open>urt_shmem_detach\<close> on top of it. The first 16 bytes of every mapping belong to the
  library and hold the registry index; users get the address after them.

  The lemmas show what each path does to the names, contents, mappings and descriptors, that
  the back-end satisfies the contract \<open>clean_backend\<close>, and the life of an object from creation
  to the last detach.
\<close>

section \<open>Definitions\<close>

text \<open>
  The array for the converted name is uninitialised in the code; \<open>urt_convert_name\<close> does not
  depend on what it holds. \<open>cr\<close> and \<open>ex\<close> are \<^verbatim>\<open>O_CREAT\<close> and \<^verbatim>\<open>O_EXCL\<close> in \<^verbatim>\<open>flags\<close>.
\<close>

definition shmem_common :: "string \<Rightarrow> u64 \<Rightarrow> bool \<Rightarrow> bool \<Rightarrow> posix_os \<Rightarrow> (int + ptr) \<times> posix_os" where
  "shmem_common name sz cr ex os =
     (let (bad, buf) = urt_convert_name (replicate URT_SYS_NAME_LEN NUL) name; n = cstr buf in
      if bad \<noteq> 0 then (Inl EINVAL, os)
      else case shm_open n cr ex os of
        (Inl e, os1) \<Rightarrow> (Inl e, os1)
      | (Inr fd, os1) \<Rightarrow>
          (case (if cr then (case ftruncate fd sz os1 of (r, os2) \<Rightarrow> (map_sum id (\<lambda>u. unat sz) r, os2))
                 else fstat_size fd os1) of
             (Inl e, os2) \<Rightarrow> (Inl e, shm_unlink n (close_fd fd os2))
           | (Inr len, os2) \<Rightarrow>
               (case mmap_shared fd len os2 of
                  (Inl e, os3) \<Rightarrow> (Inl e, shm_unlink n (close_fd fd os3))
                | (Inr m, os3) \<Rightarrow> (Inr (m, 0), close_fd fd os3))))"

definition urt_global_mem_get :: "string \<Rightarrow> u64 \<Rightarrow> posix_os \<Rightarrow> (int + ptr) \<times> posix_os" where
  "urt_global_mem_get name sz os = shmem_common name sz True False os"

definition urt_sys_shmem_new :: "string \<Rightarrow> u64 \<Rightarrow> posix_os \<Rightarrow> (int + ptr) \<times> posix_os" where
  "urt_sys_shmem_new name sz os = shmem_common name sz True True os"

definition urt_sys_shmem_attach :: "string \<Rightarrow> posix_os \<Rightarrow> (int + ptr) \<times> posix_os" where
  "urt_sys_shmem_attach name os = shmem_common name 0 False False os"

text \<open>The mapping of the registry is given up by unmapping it; its pointer becomes NULL.\<close>

definition urt_global_mem_free :: "ptr \<Rightarrow> nat \<Rightarrow> posix_os \<Rightarrow> ptr option \<times> posix_os" where
  "urt_global_mem_free p sz os = (None, snd (munmap (fst p) sz os))"

definition urt_sys_add_mem_book_keeping :: "(posix_os, ptr) bookkeeping" where
  "urt_sys_add_mem_book_keeping mem k ro w =
     ((fst mem, snd mem + 16),
      w\<lparr>gos := store_u32 mem k (gos w),
        gmem := ro_update ro (\<lambda>ro. ro\<lparr>ro_has_bookkeeping := True\<rparr>) (gmem w)\<rparr>)"

definition urt_shmem_new :: "string \<Rightarrow> u64 \<Rightarrow> (posix_os, ptr) sys_call" where
  "urt_shmem_new name sz w =
     SHOBJ_NEW name sz (on_os (urt_sys_shmem_new name (sz + 16))) URT_TYPE_MEM urt_sys_add_mem_book_keeping w"

definition urt_shmem_attach :: "string \<Rightarrow> (posix_os, ptr) sys_call" where
  "urt_shmem_attach name w =
     SHOBJ_ATTACH name (on_os (urt_sys_shmem_attach name)) urt_sys_add_mem_book_keeping w"

text \<open>\<^verbatim>\<open>_shmem_detach\<close>: \<open>callback\<close> is given the user's address and the remaining users.\<close>

type_synonym mem_callback = "ptr \<Rightarrow> u32 \<Rightarrow> posix_os \<Rightarrow> posix_os"

definition shmem_detach :: "ptr \<Rightarrow> mem_callback option \<Rightarrow> posix_os release" where
  "shmem_detach address callback ro os =
     (let os1 = (case callback of None \<Rightarrow> os | Some f \<Rightarrow> f (fst address, snd address + 16) (ro_count ro) os);
          os2 = snd (munmap (fst address) (unat (ro_size ro)) os1)
      in if ro_count ro = 0
         then (case urt_convert_name (replicate URT_SYS_NAME_LEN NUL) (ro_name ro) of
                 (bad, buf) \<Rightarrow> if bad = 0 then shm_unlink (cstr buf) os2 else os2)
         else os2)"

definition urt_shmem_detach_with_callback :: "ptr option \<Rightarrow> mem_callback option \<Rightarrow> posix_global \<Rightarrow> posix_global option" where
  "urt_shmem_detach_with_callback mem f w =
     (case mem of
        None \<Rightarrow> Some w
      | Some p \<Rightarrow>
          (let mem' = (fst p, snd p - 16) in
           case urt_get_object_by_id (unat (load_u32 mem' (gos w))) of
             None \<Rightarrow> Some w
           | Some ro \<Rightarrow> urt_deregister ro (Some (shmem_detach mem' f)) w))"

definition urt_shmem_detach :: "ptr option \<Rightarrow> posix_global \<Rightarrow> posix_global option" where
  "urt_shmem_detach mem w = urt_shmem_detach_with_callback mem None w"

definition urt_shmem_delete :: "ptr option \<Rightarrow> posix_global \<Rightarrow> posix_global option" where
  "urt_shmem_delete mem w = urt_shmem_detach mem w"

definition urt_sys_force_clear_name :: "posix_os release" where
  "urt_sys_force_clear_name ro os =
     (case urt_convert_name (replicate URT_SYS_NAME_LEN NUL) (ro_name ro) of
        (bad, buf) \<Rightarrow>
          if bad \<noteq> 0 then os
          else if ro_type ro \<in> {URT_TYPE_MEM, URT_TYPE_MUTEX, URT_TYPE_RWLOCK, URT_TYPE_COND}
          then shm_unlink (cstr buf) os
          else if ro_type ro = URT_TYPE_SEM then sem_unlink (cstr buf) os
          else os)"

text \<open>Unnamed memory (\<^verbatim>\<open>src/mem_common.c\<close>, the user space branches; \<^verbatim>\<open>urt_sys_mem.h\<close>).\<close>

definition urt_mem_new :: "u64 \<Rightarrow> posix_os \<Rightarrow> (int + nat) \<times> posix_os" where
  "urt_mem_new sz os = (case malloc sz os of (None, os1) \<Rightarrow> (Inl ENOMEM, os1) | (Some h, os1) \<Rightarrow> (Inr h, os1))"

definition urt_mem_resize :: "nat option \<Rightarrow> u64 \<Rightarrow> u64 \<Rightarrow> posix_os \<Rightarrow> (int + nat option) \<times> posix_os" where
  "urt_mem_resize old_mem old_size sz os =
     (if sz = 0 \<or> sz < old_size then (Inr old_mem, os)
      else case realloc old_mem sz os of (None, os1) \<Rightarrow> (Inl ENOMEM, os1) | (Some h, os1) \<Rightarrow> (Inr (Some h), os1))"

definition urt_mem_delete :: "nat option \<Rightarrow> posix_os \<Rightarrow> posix_os" where
  "urt_mem_delete mem os = free mem os"

section \<open>The operating system state\<close>

text \<open>Numbers that have not been given out are not in use.\<close>

definition os_ok :: "posix_os \<Rightarrow> bool" where
  "os_ok os \<longleftrightarrow> (\<forall>j\<ge>os_next os. fds os j = None \<and> maps os j = None \<and> sem_heap os j = None \<and> heap os j = None)
     \<and> (\<forall>n k. shm_names os n = Some k \<longrightarrow> k < os_next os)
     \<and> (\<forall>m k len. maps os m = Some (k, len) \<longrightarrow> k < os_next os)"

lemma os_okD:
  assumes "os_ok os"
  shows "os_next os \<le> j \<Longrightarrow> fds os j = None" "os_next os \<le> j \<Longrightarrow> maps os j = None"
    "os_next os \<le> j \<Longrightarrow> sem_heap os j = None"
    "shm_names os n = Some k \<Longrightarrow> k < os_next os" "maps os m = Some (k, len) \<Longrightarrow> k < os_next os"
    "os_next os \<le> j \<Longrightarrow> heap os j = None"
  using assms unfolding os_ok_def by blast+

lemma os_ok_renumber:
  "os_ok os \<Longrightarrow> os_next os \<le> k \<Longrightarrow> os_ok (os\<lparr>os_tick := t, os_next := k, shm_bytes := b\<rparr>)"
  by (fastforce simp: os_ok_def)

lemma os_ok_unname:
  "os_ok os \<Longrightarrow> os_next os \<le> k \<Longrightarrow> f = shm_names os \<or> f = (shm_names os)(n := None) \<Longrightarrow>
   os_ok (os\<lparr>os_tick := t, os_next := k, shm_names := f\<rparr>)"
  by (fastforce simp: os_ok_def)

text \<open>The system name of a name, if it has one.\<close>

definition posix_name :: "string \<Rightarrow> string option" where
  "posix_name name = (if user_char (c_at (cname name) 0) then Some (sys_name name) else None)"

lemma convert_posix_name:
  "posix_name name = None \<Longrightarrow> \<exists>buf. urt_convert_name (replicate 8 NUL) name = (EINVAL, buf)"
  "posix_name name = Some n \<Longrightarrow> \<exists>buf. urt_convert_name (replicate 8 NUL) name = (0, buf) \<and> cstr buf = n"
proof -
  have l: "length (replicate 8 NUL) = 8" by simp
  have nn: "\<not> user_char NUL" by code_simp
  have e: "takeWhile user_char (cname name) = [] \<longleftrightarrow> posix_name name = None"
    using nn by (cases "cname name") (auto simp: c_at_def posix_name_def)
  show "posix_name name = None \<Longrightarrow> \<exists>buf. urt_convert_name (replicate 8 NUL) name = (EINVAL, buf)"
    unfolding urt_convert_name_eq [OF l] e by simp
  have "cstr (sys_name name @ NUL # r) = sys_name name" for r
    using sys_name_no_NUL by (rule cstr_append_NUL)
  moreover have "posix_name name = Some n \<Longrightarrow> n = sys_name name" by (simp add: posix_name_def split: if_splits)
  ultimately show "posix_name name = Some n \<Longrightarrow> \<exists>buf. urt_convert_name (replicate 8 NUL) name = (0, buf) \<and> cstr buf = n"
    unfolding urt_convert_name_eq [OF l] e by simp
qed

lemma posix_name_cong: "cname a = cname b \<Longrightarrow> posix_name a = posix_name b"
  by (simp add: posix_name_def sys_name_def)

lemma shmem_common_bad: "posix_name name = None \<Longrightarrow> shmem_common name sz cr ex os = (Inl EINVAL, os)"
  using convert_posix_name(1) [of name] by (auto simp: shmem_common_def)

lemma shmem_common_good:
  assumes "posix_name name = Some n"
  shows "shmem_common name sz cr ex os = (case shm_open n cr ex os of
        (Inl e, os1) \<Rightarrow> (Inl e, os1)
      | (Inr fd, os1) \<Rightarrow>
          (case (if cr then (case ftruncate fd sz os1 of (r, os2) \<Rightarrow> (map_sum id (\<lambda>u. unat sz) r, os2))
                 else fstat_size fd os1) of
             (Inl e, os2) \<Rightarrow> (Inl e, shm_unlink n (close_fd fd os2))
           | (Inr len, os2) \<Rightarrow>
               (case mmap_shared fd len os2 of
                  (Inl e, os3) \<Rightarrow> (Inl e, shm_unlink n (close_fd fd os3))
                | (Inr m, os3) \<Rightarrow> (Inr (m, 0), close_fd fd os3))))"
  using convert_posix_name(2) [OF assms] by (auto simp: shmem_common_def Let_def)

lemmas syscall_defs = shm_open_def ftruncate_def fstat_size_def mmap_shared_def close_fd_def shm_unlink_def
  sys_fault_def fresh_def

section \<open>The paths of \<open>_shmem_common\<close>\<close>

lemma shmem_new_success:
  assumes "os_ok os" and "urt_sys_shmem_new name sz os = (Inr p, os')"
  obtains n k m where "posix_name name = Some n" "shm_names os n = None" "p = (m, 0)"
    "os_next os \<le> k" "os_next os \<le> m" "0 < unat sz"
    "shm_names os' = (shm_names os)(n \<mapsto> k)" "shm_bytes os' = (shm_bytes os)(k := replicate (unat sz) 0)"
    "maps os' = (maps os)(m \<mapsto> (k, unat sz))" "fds os' = fds os"
    "sem_names os' = sem_names os" "sem_heap os' = sem_heap os" "sem_opens os' = sem_opens os" "os_ok os'"
proof (cases "posix_name name")
  case None
  with assms(2) show ?thesis by (simp add: urt_sys_shmem_new_def shmem_common_bad)
next
  case (Some n)
  have new: "shm_names os n = None"
    using assms(2) unfolding urt_sys_shmem_new_def shmem_common_good [OF Some]
    by (auto simp: syscall_defs Let_def split: if_splits option.splits)
  let ?fd = "os_next os" and ?k = "Suc (os_next os)" and ?m = "Suc (Suc (os_next os))"
  have fd: "(fds os)(?fd := None) = fds os" using os_okD(1) [OF assms(1)] by (simp add: fun_upd_idem)
  have r: "p = (?m, 0) \<and> 0 < unat sz \<and> os' = os\<lparr>os_tick := os_tick os + 3, os_next := os_next os + 3,
      shm_names := (shm_names os)(n \<mapsto> ?k), shm_bytes := (shm_bytes os)(?k := replicate (unat sz) 0),
      maps := (maps os)(?m \<mapsto> (?k, unat sz))\<rparr>"
    using assms(2) new fd unfolding urt_sys_shmem_new_def shmem_common_good [OF Some]
    by (auto simp: syscall_defs Let_def numeral_eq_Suc split: if_splits option.splits)
  then have "os_ok os'"
    by (auto simp: os_ok_def os_okD(1-3,6) [OF assms(1)] dest: os_okD(4,5) [OF assms(1)])
  with r show ?thesis by (intro that [OF Some new, of ?m ?k]) simp_all
qed

text \<open>A creation that fails leaves no name, no mapping and no open descriptor behind.\<close>

lemma shmem_new_failure:
  assumes "os_ok os" and "urt_sys_shmem_new name sz os = (Inl e, os')"
  shows "e \<noteq> 0 \<and> shm_names os' = shm_names os \<and> maps os' = maps os \<and> fds os' = fds os \<and> os_ok os'
    \<and> (\<forall>k<os_next os. shm_bytes os' k = shm_bytes os k)"
proof (cases "posix_name name")
  case None
  with assms show ?thesis by (simp add: urt_sys_shmem_new_def shmem_common_bad)
next
  case (Some n)
  let ?fd = "os_next os"
  have fd: "(fds os)(?fd := None) = fds os" using os_okD(1) [OF assms(1)] by (simp add: fun_upd_idem)
  have nm: "shm_names os n = None \<Longrightarrow> (shm_names os)(n := None) = shm_names os" by (simp add: fun_upd_idem)
  have "e \<noteq> 0 \<and> os_next os \<le> os_next os' \<and> (\<forall>k<os_next os. shm_bytes os' k = shm_bytes os k) \<and>
      os' = os\<lparr>os_tick := os_tick os', os_next := os_next os', shm_bytes := shm_bytes os'\<rparr>"
    using assms(2) fd nm unfolding urt_sys_shmem_new_def shmem_common_good [OF Some]
    by (auto simp: syscall_defs Let_def split: if_splits option.splits)
  then obtain t k b where "e \<noteq> 0" "os_next os \<le> k" "\<forall>k<os_next os. shm_bytes os' k = shm_bytes os k"
    "os' = os\<lparr>os_tick := t, os_next := k, shm_bytes := b\<rparr>" by blast
  then show ?thesis using os_ok_renumber [OF assms(1)] by simp
qed

lemma shmem_attach_success:
  assumes "os_ok os" and "urt_sys_shmem_attach name os = (Inr p, os')"
  obtains n k m where "posix_name name = Some n" "shm_names os n = Some k" "p = (m, 0)" "os_next os \<le> m"
    "shm_bytes os k \<noteq> []" "shm_names os' = shm_names os" "shm_bytes os' = shm_bytes os"
    "maps os' = (maps os)(m \<mapsto> (k, length (shm_bytes os k)))" "fds os' = fds os"
    "sem_names os' = sem_names os" "sem_heap os' = sem_heap os" "sem_opens os' = sem_opens os" "os_ok os'"
proof (cases "posix_name name")
  case None
  with assms(2) show ?thesis by (simp add: urt_sys_shmem_attach_def shmem_common_bad)
next
  case (Some n)
  obtain k where k: "shm_names os n = Some k"
    using assms(2) unfolding urt_sys_shmem_attach_def shmem_common_good [OF Some]
    by (auto simp: syscall_defs Let_def split: if_splits option.splits)
  let ?fd = "os_next os" and ?m = "Suc (os_next os)"
  have fd: "(fds os)(?fd := None) = fds os" using os_okD(1) [OF assms(1)] by (simp add: fun_upd_idem)
  have r: "p = (?m, 0) \<and> shm_bytes os k \<noteq> [] \<and> os' = os\<lparr>os_tick := os_tick os + 3, os_next := os_next os + 2,
      maps := (maps os)(?m \<mapsto> (k, length (shm_bytes os k)))\<rparr>"
    using assms(2) k fd unfolding urt_sys_shmem_attach_def shmem_common_good [OF Some]
    by (auto simp: syscall_defs Let_def numeral_eq_Suc split: if_splits option.splits)
  then have "os_ok os'" using os_okD(4) [OF assms(1) k]
    by (auto simp: os_ok_def os_okD(1-3,6) [OF assms(1)] dest: os_okD(4,5) [OF assms(1)])
  with r show ?thesis by (intro that [OF Some k, of ?m]) simp_all
qed

text \<open>
  An attachment that fails leaves no mapping and no descriptor behind, but unless the object
  could not even be opened it takes the name of the object away.
\<close>

lemma shmem_attach_failure:
  assumes "os_ok os" and "urt_sys_shmem_attach name os = (Inl e, os')"
  shows "maps os' = maps os \<and> fds os' = fds os \<and> shm_bytes os' = shm_bytes os \<and> os_ok os'
    \<and> (shm_names os' = shm_names os \<or> (\<exists>n. posix_name name = Some n \<and> shm_names os' = (shm_names os)(n := None)))"
proof (cases "posix_name name")
  case None
  with assms show ?thesis by (simp add: urt_sys_shmem_attach_def shmem_common_bad)
next
  case (Some n)
  have fd: "(fds os)(os_next os := None) = fds os" using os_okD(1) [OF assms(1)] by (simp add: fun_upd_idem)
  have "os_next os \<le> os_next os' \<and> (shm_names os' = shm_names os \<or> shm_names os' = (shm_names os)(n := None))
     \<and> os' = os\<lparr>os_tick := os_tick os', os_next := os_next os', shm_names := shm_names os'\<rparr>"
    using assms(2) fd unfolding urt_sys_shmem_attach_def shmem_common_good [OF Some]
    by (auto simp: syscall_defs Let_def split: if_splits option.splits)
  then obtain t k f where "os_next os \<le> k" "f = shm_names os \<or> f = (shm_names os)(n := None)"
    "os' = os\<lparr>os_tick := t, os_next := k, shm_names := f\<rparr>" by blast
  then show ?thesis using os_ok_unname [OF assms(1), of k f n] Some by auto
qed

section \<open>The contract with the registry\<close>

interpretation shmem: clean_backend
  "\<lambda>name. on_os (urt_sys_shmem_new name sz)" "\<lambda>name. on_os (urt_sys_shmem_attach name)"
  urt_sys_add_mem_book_keeping True "\<lambda>p. (fst p, snd p + 16)" store_u32 for sz
  by unfold_locales (auto simp: on_os_eq on_os_def urt_sys_add_mem_book_keeping_def split: prod.splits)

section \<open>Creation, attachment and release\<close>

lemma store_u32_frame [simp]:
  "maps (store_u32 p v os) = maps os" "shm_names (store_u32 p v os) = shm_names os"
  "fds (store_u32 p v os) = fds os" "os_ok (store_u32 p v os) = os_ok os"
  "sem_names (store_u32 p v os) = sem_names os" "sem_heap (store_u32 p v os) = sem_heap os"
  "sem_opens (store_u32 p v os) = sem_opens os"
  by (simp_all add: store_u32_def Let_def os_ok_def)

lemma reserved_state_gos [simp]: "gos (reserved_state name w) = gos w" "gsem (reserved_state name w) = gsem w"
  by (simp_all add: reserved_state_def)

lemma counted_state_gos [simp]: "gos (counted_state i w) = gos w" "gsem (counted_state i w) = gsem w"
  by (simp_all add: counted_state_def)

text \<open>A successful creation, with everything it did.\<close>

lemma urt_shmem_new_success:
  assumes "registry_inv (gmem w)" and "0 < gsem w" and "os_ok (gos w)"
    and "urt_shmem_new name sz w = Some (Inr p, w')"
  obtains i n k m os2 where "i < URT_MAX_OBJECTS (gmem w)" "name_table (gmem w) (cname name) = None"
    "posix_name name = Some n" "shm_names (gos w) n = None" "p = (m, 16)" "os_next (gos w) \<le> k"
    "os_next (gos w) \<le> m" "0 < unat (sz + 16)" "registry_inv (gmem w')" "gsem w' = gsem w"
    "name_table (gmem w') = (name_table (gmem w))(cname name \<mapsto> i)"
    "objects (gmem w') = (objects (gmem w))[i := new_slot name True URT_TYPE_MEM sz]"
    "gos w' = store_u32 (m, 0) (of_nat i) os2"
    "shm_names os2 = (shm_names (gos w))(n \<mapsto> k)"
    "shm_bytes os2 = (shm_bytes (gos w))(k := replicate (unat (sz + 16)) 0)"
    "maps os2 = (maps (gos w))(m \<mapsto> (k, unat (sz + 16)))" "fds os2 = fds (gos w)" "os_ok os2"
proof -
  let ?i = "find_free_slot (gmem w)"
  have n: "name_table (gmem w) (cname name) = None" and f: "?i \<noteq> URT_MAX_OBJECTS (gmem w)"
    using SHOBJ_NEW_accepted [OF assms(1,2) assms(4) [unfolded urt_shmem_new_def]] by blast+
  have i: "?i < URT_MAX_OBJECTS (gmem w)" by (rule free_slot_reservable(1) [OF assms(1) f])
  obtain c os2 where c: "urt_sys_shmem_new name (sz + 16) (gos w) = (c, os2)" by fastforce
  then have call: "on_os (urt_sys_shmem_new name (sz + 16)) (reserved_state name w)
      = Some (c, (reserved_state name w)\<lparr>gos := os2\<rparr>)"
    by (simp add: on_os_def)
  show ?thesis
  proof (cases c)
    case (Inl e)
    from shmem.new_fails [OF assms(1,2) n f call [unfolded Inl], of sz URT_TYPE_MEM] assms(4) show ?thesis
      by (auto simp: urt_shmem_new_def)
  next
    case (Inr q)
    from shmem_new_success [OF assms(3) c [unfolded Inr]] obtain nn k m where
      o: "posix_name name = Some nn" "shm_names (gos w) nn = None" "q = (m, 0)"
      "os_next (gos w) \<le> k" "os_next (gos w) \<le> m" "0 < unat (sz + 16)"
      "shm_names os2 = (shm_names (gos w))(nn \<mapsto> k)"
      "shm_bytes os2 = (shm_bytes (gos w))(k := replicate (unat (sz + 16)) 0)"
      "maps os2 = (maps (gos w))(m \<mapsto> (k, unat (sz + 16)))" "fds os2 = fds (gos w)" "os_ok os2"
      by metis
    from shmem.new_run [OF assms(1,2) n f call [unfolded Inr], of sz URT_TYPE_MEM] assms(4) o(3)
    have p: "p = (m, 16)" and w': "w' = w\<lparr>gmem := put_slot ?i (new_slot name True URT_TYPE_MEM sz)
        (max (objects_max_index (gmem w)) ?i) (gmem w), gos := store_u32 (m, 0) (of_nat ?i) os2\<rparr>"
      by (simp_all add: urt_shmem_new_def)
    show ?thesis
      using that [OF i n o(1,2) p o(4,5,6) _ _ _ _ _ o(7-11)] new_slot_registry [OF assms(1) n i] w'
      by (simp add: put_slot_def)
  qed
qed

lemma urt_shmem_attach_success:
  assumes "registry_inv (gmem w)" and "0 < gsem w" and "os_ok (gos w)"
    and "urt_shmem_attach name w = Some (Inr p, w')"
  obtains i n k m os2 where "name_table (gmem w) (cname name) = Some i"
    "posix_name name = Some n" "shm_names (gos w) n = Some k" "p = (m, 16)" "os_next (gos w) \<le> m"
    "shm_bytes (gos w) k \<noteq> []" "gsem w' = gsem w"
    "gmem w' = ro_update i (\<lambda>ro. (counted_slot ro)\<lparr>ro_has_bookkeeping := True\<rparr>) (gmem w)"
    "gos w' = store_u32 (m, 0) (of_nat i) os2" "shm_names os2 = shm_names (gos w)"
    "shm_bytes os2 = shm_bytes (gos w)" "maps os2 = (maps (gos w))(m \<mapsto> (k, length (shm_bytes (gos w) k)))"
    "fds os2 = fds (gos w)" "os_ok os2"
proof (cases "name_table (gmem w) (cname name)")
  case None
  with assms(4) SHOBJ_ATTACH_unknown [OF assms(1,2) None, of "on_os (urt_sys_shmem_attach name)"
      urt_sys_add_mem_book_keeping] show ?thesis by (simp add: urt_shmem_attach_def)
next
  case (Some i)
  obtain c os2 where c: "urt_sys_shmem_attach name (gos w) = (c, os2)" by fastforce
  then have call: "on_os (urt_sys_shmem_attach name) (counted_state i w) = Some (c, (counted_state i w)\<lparr>gos := os2\<rparr>)"
    by (simp add: on_os_def)
  have look: "urt_get_object_by_name_and_inc_count name w = Some (Some i, counted_state i w)"
    using assms(1,2) Some by (simp add: urt_get_object_run find_by_name_table counted_state_def)
  show ?thesis
  proof (cases c)
    case (Inl e)
    with assms(4) call look show ?thesis
      by (auto simp: urt_shmem_attach_def SHOBJ_ATTACH_def bind_eq_Some_conv)
  next
    case (Inr q)
    from shmem_attach_success [OF assms(3) c [unfolded Inr]] obtain nn k m where
      o: "posix_name name = Some nn" "shm_names (gos w) nn = Some k" "q = (m, 0)" "os_next (gos w) \<le> m"
      "shm_bytes (gos w) k \<noteq> []" "shm_names os2 = shm_names (gos w)" "shm_bytes os2 = shm_bytes (gos w)"
      "maps os2 = (maps (gos w))(m \<mapsto> (k, length (shm_bytes (gos w) k)))" "fds os2 = fds (gos w)" "os_ok os2"
      by metis
    from shmem.attach_run [OF assms(1,2) Some call [unfolded Inr]] assms(4) o(3)
    have p: "p = (m, 16)" and w': "w' = w\<lparr>gmem := ro_update i (\<lambda>ro. (counted_slot ro)\<lparr>ro_has_bookkeeping := True\<rparr>) (gmem w),
        gos := store_u32 (m, 0) (of_nat i) os2\<rparr>"
      by (simp_all add: urt_shmem_attach_def)
    show ?thesis using that [OF Some o(1,2) p o(4,5) _ _ _ o(6-10)] w' by simp
  qed
qed

definition unlink_name :: "string \<Rightarrow> posix_os \<Rightarrow> posix_os" where
  "unlink_name name os = (case posix_name name of None \<Rightarrow> os | Some n \<Rightarrow> shm_unlink n os)"

lemma shmem_detach_eq:
  "shmem_detach p cb ro os =
     (let os1 = (case cb of None \<Rightarrow> os | Some f \<Rightarrow> f (fst p, snd p + 16) (ro_count ro) os);
          os2 = snd (munmap (fst p) (unat (ro_size ro)) os1)
      in if ro_count ro = 0 then unlink_name (ro_name ro) os2 else os2)"
proof (cases "posix_name (ro_name ro)")
  case None
  with convert_posix_name(1) [OF None] show ?thesis
    by (auto simp: shmem_detach_def Let_def unlink_name_def)
next
  case (Some n)
  with convert_posix_name(2) [OF Some] show ?thesis
    by (auto simp: shmem_detach_def Let_def unlink_name_def)
qed

lemma urt_shmem_detach_run:
  assumes "registry_inv (gmem w)" and "0 < gsem w" and "i < URT_MAX_OBJECTS (gmem w)" and "i < 2 ^ 32"
    and "load_u32 (m, 0) (gos w) = of_nat i"
  shows "urt_shmem_detach_with_callback (Some (m, 16)) cb w = Some
    (w\<lparr>gmem := put_slot i (released_slot (objects (gmem w) ! i)) (lowered_max i (gmem w)) (gmem w),
       gos := shmem_detach (m, 0) cb (released_slot (objects (gmem w) ! i)) (gos w)\<rparr>)"
proof -
  have "unat (of_nat i :: u32) = i" using assms(4) by (rule unat_u32_of_nat)
  with assms show ?thesis
    by (simp add: urt_shmem_detach_with_callback_def urt_get_object_by_id_def registry_run dec_count_common_eq)
qed

lemma urt_shmem_new_failure:
  assumes "registry_inv (gmem w)" and "0 < gsem w" and "os_ok (gos w)"
    and "urt_shmem_new name sz w = Some (Inl e, w')"
  shows "registry_inv (gmem w') \<and> gsem w' = gsem w \<and> name_table (gmem w') = name_table (gmem w)
    \<and> shm_names (gos w') = shm_names (gos w) \<and> maps (gos w') = maps (gos w) \<and> fds (gos w') = fds (gos w)
    \<and> os_ok (gos w') \<and> (\<forall>k<os_next (gos w). shm_bytes (gos w') k = shm_bytes (gos w) k)
    \<and> (\<forall>j. ro_used (objects (gmem w) ! j) \<longrightarrow> objects (gmem w') ! j = objects (gmem w) ! j)"
proof (cases "name_table (gmem w) (cname name) \<noteq> None \<or> find_free_slot (gmem w) = URT_MAX_OBJECTS (gmem w)")
  case True
  then have "\<exists>e. urt_shmem_new name sz w = Some (Inl e, w)"
    using SHOBJ_NEW_refused [OF assms(1,2), of name] unfolding urt_shmem_new_def by blast
  with assms show ?thesis by auto
next
  case False
  then have n: "name_table (gmem w) (cname name) = None" and f: "find_free_slot (gmem w) \<noteq> URT_MAX_OBJECTS (gmem w)"
    by auto
  obtain c os2 where c: "urt_sys_shmem_new name (sz + 16) (gos w) = (c, os2)" by fastforce
  then have call: "on_os (urt_sys_shmem_new name (sz + 16)) (reserved_state name w)
      = Some (c, (reserved_state name w)\<lparr>gos := os2\<rparr>)"
    by (simp add: on_os_def)
  show ?thesis
  proof (cases c)
    case (Inl d)
    have "\<not> ro_used (objects (gmem w) ! find_free_slot (gmem w))" by (rule free_slot_reservable(2) [OF assms(1) f])
    then have o: "ro_used (objects (gmem w) ! j) \<Longrightarrow> (objects (gmem w))[find_free_slot (gmem w) := ro] ! j = objects (gmem w) ! j" for j ro
      by (metis nth_list_update_neq)
    from shmem.new_fails [OF assms(1,2) n f call [unfolded Inl], of sz URT_TYPE_MEM] assms(4)
      shmem_new_failure [OF assms(3) c [unfolded Inl]] show ?thesis
      by (auto simp: urt_shmem_new_def o)
  next
    case (Inr q)
    from shmem.new_run [OF assms(1,2) n f call [unfolded Inr], of sz URT_TYPE_MEM] assms(4) show ?thesis
      by (simp add: urt_shmem_new_def)
  qed
qed

lemma urt_shmem_new_returns:
  "registry_inv (gmem w) \<Longrightarrow> 0 < gsem w \<Longrightarrow> \<exists>r w'. urt_shmem_new name sz w = Some (r, w')"
  using shmem.new_behaviour [of w name sz "sz + 16" URT_TYPE_MEM] by (auto simp: urt_shmem_new_def)

text \<open>The contents of a new object: the index, then zeros.\<close>

lemma store_u32_new:
  assumes "maps os m = Some (k, len)" and "shm_bytes os k = replicate len 0" and "16 \<le> len"
  shows "load_u32 (m, 0) (store_u32 (m, 0) v os) = v"
    and "drop 16 (shm_bytes (store_u32 (m, 0) v os) k) = replicate (len - 16) 0"
    and "length (shm_bytes (store_u32 (m, 0) v os) k) = len"
proof -
  show "load_u32 (m, 0) (store_u32 (m, 0) v os) = v"
    using assms by (intro load_store_u32) (simp add: map_object_def)
qed (use assms in \<open>simp_all add: store_u32_def Let_def map_object_def\<close>)

lemma u64_plus_16: "unat (sz :: u64) + 16 < 2 ^ 64 \<Longrightarrow> unat (sz + 16) = unat sz + 16"
  using unat_u64_plus [of sz 16] by simp

lemma munmap_whole:
  "maps os m = Some (k, len) \<Longrightarrow> 0 < len \<Longrightarrow> munmap m len os = (0, os\<lparr>maps := (maps os)(m := None)\<rparr>)"
  by (simp add: munmap_def)

text \<open>One user gives its mapping up.\<close>

lemma os_ok_unmap: "os_ok os \<Longrightarrow> os_ok (os\<lparr>maps := (maps os)(m := None)\<rparr>)"
  by (auto simp: os_ok_def split: if_splits)

lemma os_ok_unlink_name: "os_ok os \<Longrightarrow> os_ok (unlink_name nm os)"
  by (fastforce simp: os_ok_def unlink_name_def shm_unlink_def split: option.splits if_splits)

lemma urt_shmem_detach_handle:
  assumes "registry_inv (gmem w)" and "0 < gsem w" and "name_table (gmem w) nm = Some i" and "i < 2 ^ 32"
    and "maps (gos w) m = Some (k, unat (ro_size (objects (gmem w) ! i)))"
    and "0 < unat (ro_size (objects (gmem w) ! i))" and "load_u32 (m, 0) (gos w) = of_nat i"
    and "unat (ro_count (objects (gmem w) ! i)) = Suc c"
  obtains w' where "urt_shmem_detach (Some (m, 16)) w = Some w'" "registry_inv (gmem w')" "gsem w' = gsem w"
    "maps (gos w') = (maps (gos w))(m := None)" "shm_bytes (gos w') = shm_bytes (gos w)"
    "shm_names (gos w') = (if c = 0 then shm_names (unlink_name nm (gos w)) else shm_names (gos w))"
    "name_table (gmem w') = (if c = 0 then (name_table (gmem w))(nm := None) else name_table (gmem w))"
    "objects (gmem w') = (objects (gmem w))[i := released_slot (objects (gmem w) ! i)]"
    "os_ok (gos w) \<Longrightarrow> os_ok (gos w')"
proof -
  let ?ro = "released_slot (objects (gmem w) ! i)"
  note i = name_table_invD [OF assms(1,3)]
  let ?w = "w\<lparr>gmem := put_slot i ?ro (lowered_max i (gmem w)) (gmem w), gos := shmem_detach (m, 0) None ?ro (gos w)\<rparr>"
  have run: "urt_shmem_detach (Some (m, 16)) w = Some ?w"
    unfolding urt_shmem_detach_def by (rule urt_shmem_detach_run [OF assms(1,2) i(1) assms(4,7)])
  have c: "ro_count ?ro = 0 \<longleftrightarrow> c = 0" "ro_count (objects (gmem w) ! i) \<in> {0, 1} \<longleftrightarrow> c = 0"
    using released_count [OF assms(8)] assms(8) by (auto simp: word_unat_eq_iff)
  have nm: "posix_name (ro_name ?ro) = posix_name nm"
    using i(3) by (intro posix_name_cong) (auto simp: released_slot_def)
  have sz: "ro_size ?ro = ro_size (objects (gmem w) ! i)" by (simp add: released_slot_def)
  have os: "shmem_detach (m, 0) None ?ro (gos w) =
      (if c = 0 then unlink_name nm ((gos w)\<lparr>maps := (maps (gos w))(m := None)\<rparr>)
       else (gos w)\<lparr>maps := (maps (gos w))(m := None)\<rparr>)"
    using munmap_whole [OF assms(5,6)] c(1) nm sz by (simp add: shmem_detach_eq unlink_name_def Let_def)
  have tab: "name_table (gmem ?w) = (if c = 0 then (name_table (gmem w))(nm := None) else name_table (gmem w))"
    using name_table_released [OF assms(1) i(1,2)] c(2) i(3) by simp
  have reg: "registry_inv (gmem ?w)" using registry_inv_released [OF assms(1) i(1)] by simp
  show ?thesis
    by (rule that [OF run reg _ _ _ _ tab])
      (simp_all add: os os_ok_unmap os_ok_unlink_name, simp_all add: unlink_name_def shm_unlink_def put_slot_def split: option.splits)
qed

lemma load_store_alias:
  assumes "map_object m os = k" and "map_object m' os = k" and "4 \<le> length (shm_bytes os k)"
  shows "load_u32 (m, 0) (store_u32 (m', 0) v os) = v"
  using load_store_u32 [of "(m', 0)" os v] assms by (simp add: load_u32_def map_object_def)

text \<open>The state after a creation and an attachment.\<close>

lemma shmem_two_users:
  assumes "registry_inv (gmem w)" and "0 < gsem w" and "os_ok (gos w)" and "unat sz + 16 < 2 ^ 64"
    and "urt_shmem_new name sz w = Some (Inr p, w1)" and "urt_shmem_attach name w1 = Some (Inr q, w2)"
  obtains i n k m m' where "i < URT_MAX_OBJECTS (gmem w)" "name_table (gmem w) (cname name) = None"
    "posix_name name = Some n" "shm_names (gos w) n = None" "p = (m, 16)" "q = (m', 16)" "m \<noteq> m'"
    "maps (gos w) m = None" "maps (gos w) m' = None" "registry_inv (gmem w2)" "gsem w2 = gsem w"
    "name_table (gmem w2) = (name_table (gmem w))(cname name \<mapsto> i)"
    "shm_names (gos w2) = (shm_names (gos w))(n \<mapsto> k)"
    "maps (gos w2) = (maps (gos w))(m \<mapsto> (k, unat sz + 16), m' \<mapsto> (k, unat sz + 16))"
    "load_u32 (m, 0) (gos w2) = of_nat i" "load_u32 (m', 0) (gos w2) = of_nat i"
    "i < URT_MAX_OBJECTS (gmem w2)" "ro_count (objects (gmem w2) ! i) = 2"
    "unat (ro_size (objects (gmem w2) ! i)) = unat sz + 16"
proof -
  from urt_shmem_new_success [OF assms(1-3,5)] obtain i n k m os1 where
    i: "i < URT_MAX_OBJECTS (gmem w)" "name_table (gmem w) (cname name) = None"
    and n: "posix_name name = Some n" "shm_names (gos w) n = None" and p: "p = (m, 16)"
    and m: "os_next (gos w) \<le> m"
    and w1: "registry_inv (gmem w1)" "gsem w1 = gsem w" "name_table (gmem w1) = (name_table (gmem w))(cname name \<mapsto> i)"
      "objects (gmem w1) = (objects (gmem w))[i := new_slot name True URT_TYPE_MEM sz]"
      "gos w1 = store_u32 (m, 0) (of_nat i) os1"
    and os1: "shm_names os1 = (shm_names (gos w))(n \<mapsto> k)"
      "shm_bytes os1 = (shm_bytes (gos w))(k := replicate (unat (sz + 16)) 0)"
      "maps os1 = (maps (gos w))(m \<mapsto> (k, unat (sz + 16)))" "os_ok os1"
    by metis
  have l: "unat (sz + 16) = unat sz + 16" using assms(4) by (rule u64_plus_16)
  have ok1: "os_ok (gos w1)" "0 < gsem w1" using w1(2,5) os1(4) assms(2) by simp_all
  have len: "length (shm_bytes (gos w1) k) = unat sz + 16"
    using store_u32_new(3) [of os1 m k "unat sz + 16" "of_nat i"] w1(5) os1 l by simp
  from urt_shmem_attach_success [OF w1(1) ok1(2,1) assms(6)] obtain j n' k' m' os2 where
    a: "name_table (gmem w1) (cname name) = Some j" "posix_name name = Some n'" "shm_names (gos w1) n' = Some k'"
    and q: "q = (m', 16)" "os_next (gos w1) \<le> m'"
    and w2: "gsem w2 = gsem w1"
      "gmem w2 = ro_update j (\<lambda>ro. (counted_slot ro)\<lparr>ro_has_bookkeeping := True\<rparr>) (gmem w1)"
      "gos w2 = store_u32 (m', 0) (of_nat j) os2"
    and os2: "shm_names os2 = shm_names (gos w1)" "shm_bytes os2 = shm_bytes (gos w1)"
      "maps os2 = (maps (gos w1))(m' \<mapsto> (k', length (shm_bytes (gos w1) k')))"
    by metis
  have same: "j = i" "n' = n" "k' = k" using a n w1(3,5) os1(1) by simp_all
  have m': "m \<noteq> m'" "maps (gos w) m = None" "maps (gos w) m' = None"
    using os_okD(2) [OF ok1(1) q(2)] os_okD(2) [OF assms(3) m] w1(5) os1(3) by (auto split: if_splits)
  have maps: "maps (gos w2) = (maps (gos w))(m \<mapsto> (k, unat sz + 16), m' \<mapsto> (k, unat sz + 16))"
    using w2(3) os2(3) same w1(5) os1(3) len l by simp
  have slot1: "objects (gmem w1) ! i = new_slot name True URT_TYPE_MEM sz" "i < URT_MAX_OBJECTS (gmem w1)"
    using w1(4) i(1) by simp_all
  let ?f = "\<lambda>ro. (counted_slot ro)\<lparr>ro_has_bookkeeping := True\<rparr>"
  have f: "ro_count (?f (objects (gmem w1) ! i)) = 2" "ro_name (?f (objects (gmem w1) ! i)) = ro_name (objects (gmem w1) ! i)"
    "ro_size (?f (objects (gmem w1) ! i)) = sz + 16"
    unfolding slot1 by (simp_all add: counted_slot_def)
  have "ro_used (?f (objects (gmem w1) ! i))" using f(1) by (simp add: ro_used_def)
  with registry_update [of "gmem w1" i ?f] f(2) w1(1) slot1 w2(2) same(1) have reg2:
    "registry_inv (gmem w2)" "name_table (gmem w2) = name_table (gmem w1)"
    by simp_all
  have "load_u32 (x, 0) (gos w2) = of_nat i" if "x = m \<or> x = m'" for x
    unfolding w2(3) same
    by (rule load_store_alias [of _ _ k]) (use that os2 os1 w1(5) len same m' in \<open>auto simp: map_object_def\<close>)
  moreover have "objects (gmem w2) ! i = ?f (objects (gmem w1) ! i)" "i < URT_MAX_OBJECTS (gmem w2)"
    using w2(2) same slot1(2) by (simp_all add: objects_ro_update)
  ultimately show ?thesis
    using that [OF i n p q(1) m' reg2(1)] f w1 w2(1,3) os2(1) os1(1) maps reg2(2) l same by simp
qed

section \<open>Properties\<close>

text \<open>
  C3: \<^verbatim>\<open>urt_shmem_new\<close> end to end, for every sequence of failing system calls. It returns; no
  descriptor stays open; an error leaves the registry's table, the shared memory names and the
  mappings as they were; success registers the name, creates the object under a system name
  that was not taken, maps exactly the requested bytes after the 16 bytes of book-keeping,
  zero filled, and the book-keeping holds the registry index.
\<close>

theorem shmem_new_behaviour:
  assumes "registry_inv (gmem w)" and "0 < gsem w" and "os_ok (gos w)" and "unat sz + 16 < 2 ^ 64"
  shows "\<exists>r w'. urt_shmem_new name sz w = Some (r, w') \<and> registry_inv (gmem w') \<and> os_ok (gos w')
    \<and> gsem w' = gsem w \<and> fds (gos w') = fds (gos w)
    \<and> (case r of
        Inl e \<Rightarrow> name_table (gmem w') = name_table (gmem w) \<and> shm_names (gos w') = shm_names (gos w)
          \<and> maps (gos w') = maps (gos w)
      | Inr p \<Rightarrow> \<exists>i n k. name_table (gmem w) (cname name) = None
          \<and> name_table (gmem w') = (name_table (gmem w))(cname name \<mapsto> i)
          \<and> posix_name name = Some n \<and> shm_names (gos w) n = None
          \<and> shm_names (gos w') = (shm_names (gos w))(n \<mapsto> k)
          \<and> snd p = 16 \<and> maps (gos w') = (maps (gos w))(fst p \<mapsto> (k, unat sz + 16))
          \<and> load_u32 (fst p, 0) (gos w') = of_nat i
          \<and> drop 16 (shm_bytes (gos w') k) = replicate (unat sz) 0)"
proof -
  obtain r w' where r: "urt_shmem_new name sz w = Some (r, w')"
    using urt_shmem_new_returns [OF assms(1,2)] by blast
  show ?thesis
  proof (cases r)
    case (Inl e)
    with r urt_shmem_new_failure [OF assms(1-3) r [unfolded Inl]] show ?thesis by auto
  next
    case (Inr p)
    from urt_shmem_new_success [OF assms(1-3) r [unfolded Inr]] obtain i n k m os2 where
      o: "name_table (gmem w) (cname name) = None" "posix_name name = Some n" "shm_names (gos w) n = None"
      "p = (m, 16)" "registry_inv (gmem w')" "gsem w' = gsem w"
      "name_table (gmem w') = (name_table (gmem w))(cname name \<mapsto> i)"
      "gos w' = store_u32 (m, 0) (of_nat i) os2" "shm_names os2 = (shm_names (gos w))(n \<mapsto> k)"
      "shm_bytes os2 = (shm_bytes (gos w))(k := replicate (unat (sz + 16)) 0)"
      "maps os2 = (maps (gos w))(m \<mapsto> (k, unat (sz + 16)))" "fds os2 = fds (gos w)" "os_ok os2"
      by metis
    have l: "unat (sz + 16) = unat sz + 16" using assms(4) by (rule u64_plus_16)
    have "load_u32 (m, 0) (gos w') = of_nat i" "drop 16 (shm_bytes (gos w') k) = replicate (unat sz) 0"
      using store_u32_new [of os2 m k "unat sz + 16" "of_nat i"] o(8,10,11) l by simp_all
    then show ?thesis using r Inr o l by (simp, blast)
  qed
qed

text \<open>A system without objects in which no call fails, under the empty registry of two slots.\<close>

definition os_empty :: "(nat \<Rightarrow> int) \<Rightarrow> posix_os" where
  "os_empty faults = \<lparr>os_fault = faults, os_tick = 0, os_next = 0, shm_names = (\<lambda>n. None),
     shm_bytes = (\<lambda>k. []), fds = (\<lambda>k. None), maps = (\<lambda>k. None), sem_names = (\<lambda>n. None),
     sem_value = (\<lambda>k. 0), sem_opens = (\<lambda>k. 0), sem_heap = (\<lambda>k. None),
     heap = (\<lambda>k. None), pt_locks = (\<lambda>l. None)\<rparr>"

definition posix_empty :: posix_global where
  "posix_empty = \<lparr>gmem = snd (urt_registry_init 96 32 (zero_memory 2)), gsem = 1, gos = os_empty (\<lambda>t. 0)\<rparr>"

lemma posix_empty_ok: "registry_inv (gmem posix_empty)" "0 < gsem posix_empty" "os_ok (gos posix_empty)"
proof -
  have "gmem posix_empty = gmem demo_empty" by (simp add: posix_empty_def demo_empty_def)
  then show "registry_inv (gmem posix_empty)" using demo_inv by simp
qed (simp_all add: posix_empty_def os_ok_def os_empty_def)

definition posix_shared :: posix_global where
  "posix_shared = snd (the (urt_shmem_new ''AB'' 8 posix_empty))"

lemma posix_shared_facts:
  "urt_shmem_new ''AB'' 8 posix_empty = Some (Inr (2, 16), posix_shared)"
  "name_table (gmem posix_shared) ''AB'' = Some 0" "ro_count (objects (gmem posix_shared) ! 0) = 1"
  "ro_type (objects (gmem posix_shared) ! 0) = URT_TYPE_MEM" "shm_names (gos posix_shared) ''/AB'' = Some 1"
  "os_tick (gos posix_shared) = 3"
  "ro_has_bookkeeping (objects (gmem posix_shared) ! 0)" "ro_size (objects (gmem posix_shared) ! 0) = 24"
  "URT_MAX_OBJECTS (gmem posix_shared) = 2" "shm_bytes (gos posix_shared) 1 = replicate 16 0 @ replicate 8 0"
  "\<not> ro_reserved (objects (gmem posix_shared) ! 0)"
proof -
  have "case urt_shmem_new ''AB'' 8 posix_empty of
      Some (Inr p, w) \<Rightarrow> p = (2, 16) \<and> name_table (gmem w) ''AB'' = Some 0
        \<and> ro_count (objects (gmem w) ! 0) = 1 \<and> ro_type (objects (gmem w) ! 0) = URT_TYPE_MEM
        \<and> shm_names (gos w) ''/AB'' = Some 1 \<and> os_tick (gos w) = 3
        \<and> ro_has_bookkeeping (objects (gmem w) ! 0) \<and> ro_size (objects (gmem w) ! 0) = 24 \<and> URT_MAX_OBJECTS (gmem w) = 2
        \<and> shm_bytes (gos w) 1 = replicate 16 0 @ replicate 8 0 \<and> \<not> ro_reserved (objects (gmem w) ! 0)
    | _ \<Rightarrow> False"
    by code_simp
  from run_success [OF this] obtain p w where "urt_shmem_new ''AB'' 8 posix_empty = Some (Inr p, w)"
    "p = (2, 16) \<and> name_table (gmem w) ''AB'' = Some 0
        \<and> ro_count (objects (gmem w) ! 0) = 1 \<and> ro_type (objects (gmem w) ! 0) = URT_TYPE_MEM
        \<and> shm_names (gos w) ''/AB'' = Some 1 \<and> os_tick (gos w) = 3
        \<and> ro_has_bookkeeping (objects (gmem w) ! 0) \<and> ro_size (objects (gmem w) ! 0) = 24 \<and> URT_MAX_OBJECTS (gmem w) = 2
        \<and> shm_bytes (gos w) 1 = replicate 16 0 @ replicate 8 0 \<and> \<not> ro_reserved (objects (gmem w) ! 0)" .
  then show "urt_shmem_new ''AB'' 8 posix_empty = Some (Inr (2, 16), posix_shared)"
    "name_table (gmem posix_shared) ''AB'' = Some 0" "ro_count (objects (gmem posix_shared) ! 0) = 1"
    "ro_type (objects (gmem posix_shared) ! 0) = URT_TYPE_MEM" "shm_names (gos posix_shared) ''/AB'' = Some 1"
    "os_tick (gos posix_shared) = 3"
    "ro_has_bookkeeping (objects (gmem posix_shared) ! 0)" "ro_size (objects (gmem posix_shared) ! 0) = 24"
    "URT_MAX_OBJECTS (gmem posix_shared) = 2" "shm_bytes (gos posix_shared) 1 = replicate 16 0 @ replicate 8 0"
    "\<not> ro_reserved (objects (gmem posix_shared) ! 0)"
    unfolding posix_shared_def by simp_all
qed

lemma name_AB: "cname ''AB'' = ''AB''" "posix_name ''AB'' = Some ''/AB''"
  by code_simp+

lemma posix_shared_ok:
  "registry_inv (gmem posix_shared)" "0 < gsem posix_shared" "os_ok (gos posix_shared)"
proof -
  obtain i m os2 where "registry_inv (gmem posix_shared)" "gsem posix_shared = gsem posix_empty"
    "gos posix_shared = store_u32 (m, 0) (of_nat i) os2" "os_ok os2"
    using urt_shmem_new_success [OF posix_empty_ok posix_shared_facts(1)] by metis
  then show "registry_inv (gmem posix_shared)" "0 < gsem posix_shared" "os_ok (gos posix_shared)"
    using posix_empty_ok(2) by simp_all
qed

theorem shmem_new_behaviour_witness:
  "urt_shmem_new ''AB'' 8 posix_empty = Some (Inr (2, 16), posix_shared)
    \<and> drop 16 (shm_bytes (gos posix_shared) 1) = replicate 8 0"
proof -
  have sz: "unat (8 :: u64) + 16 < 2 ^ 64" by simp
  note run = posix_shared_facts(1)
  have "\<exists>k. shm_names (gos posix_shared) ''/AB'' = Some k \<and> drop 16 (shm_bytes (gos posix_shared) k) = replicate (unat (8 :: u64)) 0"
    using shmem_new_behaviour [OF posix_empty_ok sz, of "''AB''"]
    unfolding run option.inject prod.inject name_AB by (elim exE conjE) (hypsubst, auto)
  with run posix_shared_facts(5) show ?thesis by auto
qed

text \<open>
  The size is increased by 16 without a check: for the 16 largest sizes the sum wraps, and
  when the creation succeeds the mapping is shorter than the book-keeping, so that the address
  handed to the user is beyond its end.
\<close>

theorem shmem_new_size_wraps:
  assumes "registry_inv (gmem w)" and "0 < gsem w" and "os_ok (gos w)" and "2 ^ 64 \<le> unat sz + 16"
    and "urt_shmem_new name sz w = Some (Inr p, w')"
  shows "\<exists>k len. maps (gos w') (fst p) = Some (k, len) \<and> len < snd p"
proof -
  from urt_shmem_new_success [OF assms(1-3,5)] obtain k m os2 i where
    "p = (m, 16)" "gos w' = store_u32 (m, 0) (of_nat i) os2"
    "maps os2 = (maps (gos w))(m \<mapsto> (k, unat (sz + 16)))" by metis
  moreover have "unat (sz + 16) < 16"
  proof -
    have "unat (sz + 16) = (unat sz + 16) mod 2 ^ 64" by (simp add: unat_word_ariths)
    also have "\<dots> = unat sz + 16 - 2 ^ 64"
      using assms(4) u64_bound [of sz] by (simp add: le_mod_geq)
    also have "\<dots> < 16" using assms(4) u64_bound [of sz] by simp
    finally show ?thesis .
  qed
  ultimately show ?thesis by simp
qed

theorem shmem_new_size_wraps_witness:
  "\<exists>p w' k len. urt_shmem_new ''AB'' (-9) posix_empty = Some (Inr p, w')
    \<and> maps (gos w') (fst p) = Some (k, len) \<and> len < snd p"
proof -
  have "case urt_shmem_new ''AB'' (-9) posix_empty of Some (Inr p, w') \<Rightarrow> True | _ \<Rightarrow> False"
    by code_simp
  from run_success [OF this] obtain p w' where r: "urt_shmem_new ''AB'' (-9) posix_empty = Some (Inr p, w')" .
  have "2 ^ 64 \<le> unat (-9 :: u64) + 16" by simp
  from shmem_new_size_wraps [OF posix_empty_ok this r] r show ?thesis by blast
qed

text \<open>
  C20: The life of a shared memory with two users. Both see the same object; when the creator
  leaves, name and object stay for the other one; when the last user leaves, the registry's
  table, the shared memory names and the mappings are what they were before the creation.
\<close>

theorem shmem_lifecycle:
  assumes "registry_inv (gmem w)" and "0 < gsem w" and "os_ok (gos w)" and "URT_MAX_OBJECTS (gmem w) \<le> 2 ^ 32"
    and "unat sz + 16 < 2 ^ 64" and "urt_shmem_new name sz w = Some (Inr p, w1)"
    and "urt_shmem_attach name w1 = Some (Inr q, w2)"
  shows "map_object (fst p) (gos w2) = map_object (fst q) (gos w2)
    \<and> (\<exists>w3 w4. urt_shmem_detach (Some p) w2 = Some w3 \<and> name_table (gmem w3) = name_table (gmem w2)
        \<and> shm_names (gos w3) = shm_names (gos w2)
        \<and> urt_shmem_detach (Some q) w3 = Some w4 \<and> name_table (gmem w4) = name_table (gmem w)
        \<and> shm_names (gos w4) = shm_names (gos w) \<and> maps (gos w4) = maps (gos w)
        \<and> registry_inv (gmem w4) \<and> gsem w4 = gsem w)"
proof -
  obtain i n k m m' where
    i: "i < URT_MAX_OBJECTS (gmem w)" "name_table (gmem w) (cname name) = None"
    "posix_name name = Some n" "shm_names (gos w) n = None" and p: "p = (m, 16)" "q = (m', 16)"
    and m: "m \<noteq> m'" "maps (gos w) m = None" "maps (gos w) m' = None"
    and r2: "registry_inv (gmem w2)" "gsem w2 = gsem w" "name_table (gmem w2) = (name_table (gmem w))(cname name \<mapsto> i)"
    and o2: "shm_names (gos w2) = (shm_names (gos w))(n \<mapsto> k)"
    "maps (gos w2) = (maps (gos w))(m \<mapsto> (k, unat sz + 16), m' \<mapsto> (k, unat sz + 16))"
    "load_u32 (m, 0) (gos w2) = of_nat i" "load_u32 (m', 0) (gos w2) = of_nat i"
    and s2: "i < URT_MAX_OBJECTS (gmem w2)" "ro_count (objects (gmem w2) ! i) = 2"
    "unat (ro_size (objects (gmem w2) ! i)) = unat sz + 16"
    by (rule shmem_two_users [OF assms(1-3,5-7)])
  have i32: "i < 2 ^ 32" using i(1) assms(4) by simp
  have c2: "unat (ro_count (objects (gmem w2) ! i)) = Suc (Suc 0)" using s2(2) by simp
  obtain w3 where w3: "urt_shmem_detach (Some (m, 16)) w2 = Some w3" "registry_inv (gmem w3)" "gsem w3 = gsem w2"
    "maps (gos w3) = (maps (gos w2))(m := None)" "shm_bytes (gos w3) = shm_bytes (gos w2)"
    "shm_names (gos w3) = shm_names (gos w2)" "name_table (gmem w3) = name_table (gmem w2)"
    "objects (gmem w3) = (objects (gmem w2))[i := released_slot (objects (gmem w2) ! i)]"
    by (rule urt_shmem_detach_handle [OF r2(1) _ _ i32 _ _ o2(3) c2, of "cname name" k])
      (use assms(2) r2 o2(2) m(1) s2(3) in simp_all)
  have slot3: "objects (gmem w3) ! i = released_slot (objects (gmem w2) ! i)" using w3(8) s2(1) by simp
  have c3: "unat (ro_count (objects (gmem w3) ! i)) = Suc 0" "ro_size (objects (gmem w3) ! i) = ro_size (objects (gmem w2) ! i)"
    using released_count [OF c2] slot3 by (simp_all add: released_slot_def)
  have ld: "load_u32 (m', 0) (gos w3) = of_nat i"
    using o2(4) w3(4,5) m(1) by (simp add: load_u32_def map_object_def)
  obtain w4 where w4: "urt_shmem_detach (Some (m', 16)) w3 = Some w4" "registry_inv (gmem w4)" "gsem w4 = gsem w3"
    "maps (gos w4) = (maps (gos w3))(m' := None)"
    "shm_names (gos w4) = shm_names (unlink_name (cname name) (gos w3))"
    "name_table (gmem w4) = (name_table (gmem w3))(cname name := None)"
    by (rule urt_shmem_detach_handle [OF w3(2) _ _ i32 _ _ ld c3(1), of "cname name" k])
      (use assms(2) r2 w3(3,4,7) o2(2) m(1) s2(3) c3(2) in simp_all)
  have "posix_name (cname name) = Some n" using i(3) posix_name_cong [of "cname name" name] by simp
  then have "shm_names (gos w4) = shm_names (gos w)"
    using w4(5) w3(6) o2(1) i(4) by (simp add: unlink_name_def shm_unlink_def fun_upd_idem)
  moreover have "maps (gos w4) = maps (gos w)" using w4(4) w3(4) o2(2) m by (simp add: fun_eq_iff)
  moreover have "name_table (gmem w4) = name_table (gmem w)" using w4(6) w3(7) r2(3) i(2) by (simp add: fun_eq_iff)
  ultimately show ?thesis
    using p w3 w4 r2(2) o2(2) m(1) by (simp add: map_object_def)
qed

theorem shmem_lifecycle_witness:
  "\<exists>q w2 w3 w4. urt_shmem_attach ''AB'' posix_shared = Some (Inr q, w2)
    \<and> urt_shmem_detach (Some (2, 16)) w2 = Some w3 \<and> urt_shmem_detach (Some q) w3 = Some w4
    \<and> name_table (gmem w4) = name_table (gmem posix_empty) \<and> maps (gos w4) = maps (gos posix_empty)"
proof -
  have "case urt_shmem_attach ''AB'' posix_shared of Some (Inr q, w2) \<Rightarrow> True | _ \<Rightarrow> False" by code_simp
  from run_success [OF this] obtain q w2 where a: "urt_shmem_attach ''AB'' posix_shared = Some (Inr q, w2)" .
  have n: "URT_MAX_OBJECTS (gmem posix_empty) \<le> 2 ^ 32" by (simp add: posix_empty_def urt_registry_init_def zero_memory_def)
  have sz: "unat (8 :: u64) + 16 < 2 ^ 64" by simp
  from shmem_lifecycle [OF posix_empty_ok n sz posix_shared_facts(1) a] a show ?thesis by blast
qed

text \<open>
  C40: An attachment whose \<^verbatim>\<open>fstat\<close> fails reports the error and restores the count, but removes
  the system name of the object, although the object belongs to others: it stays registered,
  and no later attachment can open it.
\<close>

theorem failed_attach_unlinks_object:
  assumes "registry_inv (gmem w)" and "0 < gsem w" and "name_table (gmem w) (cname name) = Some i"
    and "ro_count (objects (gmem w) ! i) \<noteq> -1" and "0 < ro_count (objects (gmem w) ! i)"
    and "posix_name name = Some n" and "shm_names (gos w) n = Some k"
    and "os_fault (gos w) (os_tick (gos w)) = 0" and "os_fault (gos w) (Suc (os_tick (gos w))) = e" and "e \<noteq> 0"
  shows "\<exists>w'. urt_shmem_attach name w = Some (Inl e, w') \<and> name_table (gmem w') = name_table (gmem w)
    \<and> shm_names (gos w') = (shm_names (gos w))(n := None)
    \<and> fst (urt_sys_shmem_attach name (gos w')) \<in> range Inl"
proof -
  obtain os2 where os2: "urt_sys_shmem_attach name (gos w) = (Inl e, os2)" "shm_names os2 = (shm_names (gos w))(n := None)"
    using assms(7-10) unfolding urt_sys_shmem_attach_def shmem_common_good [OF assms(6)]
    by (auto simp: syscall_defs Let_def)
  then have call: "on_os (urt_sys_shmem_attach name) (counted_state i w) = Some (Inl e, (counted_state i w)\<lparr>gos := os2\<rparr>)"
    by (simp add: on_os_def)
  have "fst (urt_sys_shmem_attach name os2) \<in> range Inl"
    using os2(2) unfolding urt_sys_shmem_attach_def shmem_common_good [OF assms(6)]
    by (auto simp: syscall_defs Let_def)
  with shmem.attach_fails [OF assms(1-5) call] os2(2) show ?thesis by (auto simp: urt_shmem_attach_def)
qed

theorem failed_attach_unlinks_object_witness:
  "\<exists>w'. urt_shmem_attach ''AB'' (posix_shared\<lparr>gos := (gos posix_shared)\<lparr>os_fault := (\<lambda>t. if t = 4 then 23 else 0)\<rparr>\<rparr>)
      = Some (Inl 23, w') \<and> shm_names (gos w') ''/AB'' = None"
proof -
  let ?w = "posix_shared\<lparr>gos := (gos posix_shared)\<lparr>os_fault := (\<lambda>t. if t = 4 then 23 else 0)\<rparr>\<rparr>"
  have inv: "registry_inv (gmem ?w)" "0 < gsem ?w" using posix_shared_ok by simp_all
  have ev: "name_table (gmem ?w) (cname ''AB'') = Some 0" "ro_count (objects (gmem ?w) ! 0) \<noteq> -1"
    "0 < ro_count (objects (gmem ?w) ! 0)" "posix_name ''AB'' = Some ''/AB''" "shm_names (gos ?w) ''/AB'' = Some 1"
    "os_fault (gos ?w) (os_tick (gos ?w)) = 0" "os_fault (gos ?w) (Suc (os_tick (gos ?w))) = 23"
    by (simp_all add: posix_shared_facts(2-6) name_AB)
  from failed_attach_unlinks_object [OF inv ev] show ?thesis by auto
qed

text \<open>
  Forced removal on POSIX: whatever the number of users, the name leaves the registry and
  the shared memory object its system name, while the mappings of the users stay valid.
\<close>

theorem force_clear_unlinks:
  assumes "registry_inv (gmem w)" and "0 < gsem w" and "name_table (gmem w) (cname name) = Some i"
    and "ro_type (objects (gmem w) ! i) \<in> {URT_TYPE_MEM, URT_TYPE_MUTEX, URT_TYPE_RWLOCK, URT_TYPE_COND}"
    and "posix_name name = Some n"
  shows "\<exists>w'. urt_force_clear_name urt_sys_force_clear_name name w = Some w' \<and> registry_inv (gmem w')
    \<and> gsem w' = gsem w \<and> name_table (gmem w') = (name_table (gmem w))(cname name := None)
    \<and> gos w' = (gos w)\<lparr>shm_names := (shm_names (gos w))(n := None)\<rparr>"
proof -
  from force_clear_known [OF assms(1-3), of urt_sys_force_clear_name] obtain g where
    g: "urt_force_clear_name urt_sys_force_clear_name name w =
        Some (w\<lparr>gmem := g, gos := urt_sys_force_clear_name (objects (gmem w) ! i) (gos w)\<rparr>)"
      "registry_inv g" "name_table g = (name_table (gmem w))(cname name := None)" by blast
  have "posix_name (ro_name (objects (gmem w) ! i)) = Some n"
    using posix_name_cong [OF name_table_invD(3) [OF assms(1,3), unfolded cname_idem]] assms(5) by simp
  from convert_posix_name(2) [OF this] assms(4)
  have "urt_sys_force_clear_name (objects (gmem w) ! i) (gos w) = (gos w)\<lparr>shm_names := (shm_names (gos w))(n := None)\<rparr>"
    by (auto simp: urt_sys_force_clear_name_def shm_unlink_def)
  with g show ?thesis by simp
qed

theorem force_clear_unlinks_witness:
  "\<exists>w'. urt_force_clear_name urt_sys_force_clear_name ''AB'' posix_shared = Some w'
    \<and> shm_names (gos w') ''/AB'' = None"
proof -
  have ev: "name_table (gmem posix_shared) (cname ''AB'') = Some 0"
    "ro_type (objects (gmem posix_shared) ! 0) \<in> {URT_TYPE_MEM, URT_TYPE_MUTEX, URT_TYPE_RWLOCK, URT_TYPE_COND}"
    "posix_name ''AB'' = Some ''/AB''"
    by (simp_all add: posix_shared_facts(2-6) name_AB)
  from force_clear_unlinks [OF posix_shared_ok(1,2) ev] show ?thesis by auto
qed

text \<open>
  \<^verbatim>\<open>urt_mem_resize\<close> on every branch: a new size of 0 or below the old size changes
  nothing; a failing \<^verbatim>\<open>realloc\<close> is reported as \<^verbatim>\<open>ENOMEM\<close> and the old block stays allocated;
  otherwise exactly the old block is exchanged for a new one of the requested size.
\<close>

theorem mem_resize_behaviour:
  assumes "os_ok os" and "heap os h = Some old_size"
  shows "if sz = 0 \<or> sz < old_size then urt_mem_resize (Some h) old_size sz os = (Inr (Some h), os)
    else if os_fault os (os_tick os) \<noteq> 0
    then \<exists>os'. urt_mem_resize (Some h) old_size sz os = (Inl ENOMEM, os') \<and> heap os' = heap os
    else \<exists>h' os'. urt_mem_resize (Some h) old_size sz os = (Inr (Some h'), os') \<and> heap os h' = None
      \<and> heap os' = (heap os)(h := None, h' \<mapsto> sz)"
proof -
  have "heap os (os_next os) = None" using os_okD(6) [OF assms(1)] by simp
  moreover from this assms(2) have "h \<noteq> os_next os" by auto
  ultimately show ?thesis
    by (simp add: urt_mem_resize_def realloc_def malloc_def free_def sys_fault_def fresh_def fun_upd_twist)
qed

theorem mem_resize_behaviour_witness:
  "\<exists>h' os'. urt_mem_resize (Some 0) 8 64 (snd (urt_mem_new 8 (os_empty (\<lambda>t. 0)))) = (Inr (Some h'), os')
    \<and> heap os' 0 = None \<and> heap os' h' = Some 64"
proof -
  let ?os = "snd (urt_mem_new 8 (os_empty (\<lambda>t. 0)))"
  have os: "?os = (os_empty (\<lambda>t. 0))\<lparr>os_tick := 1, os_next := 1, heap := (\<lambda>k. None)(0 \<mapsto> 8)\<rparr>"
    by (simp add: urt_mem_new_def malloc_def sys_fault_def fresh_def os_empty_def)
  have h: "os_ok ?os" "heap ?os 0 = Some 8" "os_fault ?os (os_tick ?os) = 0"
    unfolding os by (simp_all add: os_ok_def os_empty_def)
  have "\<not> ((64 :: u64) = 0 \<or> (64 :: u64) < 8)" by simp
  from mem_resize_behaviour [OF h(1,2), of 64, unfolded if_not_P [OF this]] h(3) obtain h' os' where
    r: "urt_mem_resize (Some 0) 8 64 ?os = (Inr (Some h'), os')" "heap ?os h' = None"
    "heap os' = (heap ?os)(0 := None, h' \<mapsto> 64)" by auto
  moreover from r(2) h(2) have "h' \<noteq> 0" by (metis option.distinct(1))
  ultimately show ?thesis by simp
qed

end
