(* ===== verification/Posix_Lock_Objects.thy ===== *)
theory Posix_Lock_Objects
  imports Posix_Mem
begin

text \<open>
  Creation, attachment, release and destruction of semaphores, mutexes, read-write locks and
  condition variables in the POSIX back-end (\<^verbatim>\<open>sys/posix/src/lock.c\<close>). A semaphore is a heap
  block that points to a semaphore object; the thread library's locks live in a heap block or
  in shared memory behind the 16 bytes of book-keeping.

  The lemmas show the contract with the registry for each of the four, the life of a shared
  semaphore, that the destruction loops end, and what the failing initialisation of a shared
  lock does to the registry.
\<close>

section \<open>Semaphores\<close>

text \<open>Sizes on the x86-64 targets.\<close>

definition sizeof_urt_sem :: u64 where "sizeof_urt_sem = 48"
definition sizeof_urt_mutex :: u64 where "sizeof_urt_mutex = 40"
definition sizeof_urt_rwlock :: u64 where "sizeof_urt_rwlock = 56"
definition sizeof_urt_cond :: u64 where "sizeof_urt_cond = 48"

definition urt_sem_new :: "u32 \<Rightarrow> posix_os \<Rightarrow> (int + nat) \<times> posix_os" where
  "urt_sem_new init_value os =
     (case urt_mem_new sizeof_urt_sem os of
        (Inl e, os1) \<Rightarrow> (Inl e, os1)
      | (Inr sem, os1) \<Rightarrow>
          (case sem_init sem (unat init_value) os1 of
             (e, os2) \<Rightarrow>
               if e \<noteq> 0 then (Inl e, urt_mem_delete (Some sem) os2)
               else (Inr sem, os2\<lparr>sem_heap := (sem_heap os2)(sem \<mapsto> \<lparr>sem_ptr = sem, sem_id = 0\<rparr>)\<rparr>)))"

definition urt_sem_delete :: "nat option \<Rightarrow> posix_os \<Rightarrow> posix_os" where
  "urt_sem_delete sem os = urt_mem_delete sem (case sem of None \<Rightarrow> os | Some s \<Rightarrow> sem_destroy s os)"

definition shsem_common :: "string \<Rightarrow> u32 \<Rightarrow> bool \<Rightarrow> bool \<Rightarrow> posix_os \<Rightarrow> (int + nat) \<times> posix_os" where
  "shsem_common name init_value cr ex os =
     (case urt_mem_new sizeof_urt_sem os of
        (Inl e, os1) \<Rightarrow> (Inl e, urt_mem_delete None os1)
      | (Inr sem, os1) \<Rightarrow>
          (case urt_convert_name (replicate URT_SYS_NAME_LEN NUL) name of
             (bad, buf) \<Rightarrow>
               if bad \<noteq> 0 then (Inl EINVAL, urt_mem_delete (Some sem) os1)
               else (case sem_open (cstr buf) cr ex (unat init_value) os1 of
                       (Inl e, os2) \<Rightarrow> (Inl e, urt_mem_delete (Some sem) os2)
                     | (Inr k, os2) \<Rightarrow>
                         (Inr sem, os2\<lparr>sem_heap := (sem_heap os2)(sem \<mapsto> \<lparr>sem_ptr = k, sem_id = 0\<rparr>)\<rparr>))))"

text \<open>The result is the code and the new value of the pointer \<^verbatim>\<open>urt_global_sem\<close>.\<close>

definition urt_global_sem_get :: "string \<Rightarrow> posix_os \<Rightarrow> (int \<times> nat option) \<times> posix_os" where
  "urt_global_sem_get name os =
     (case shsem_common name 1 True False os of
        (Inl e, os1) \<Rightarrow> ((e, None), os1)
      | (Inr sem, os1) \<Rightarrow> ((0, Some sem), os1))"

definition urt_sys_shsem_new :: "string \<Rightarrow> u32 \<Rightarrow> posix_os \<Rightarrow> (int + nat) \<times> posix_os" where
  "urt_sys_shsem_new name init_value os = shsem_common name init_value True True os"

definition urt_sys_shsem_attach :: "string \<Rightarrow> posix_os \<Rightarrow> (int + nat) \<times> posix_os" where
  "urt_sys_shsem_attach name os = shsem_common name 0 False False os"

definition urt_global_sem_free :: "nat \<Rightarrow> posix_os \<Rightarrow> nat option \<times> posix_os" where
  "urt_global_sem_free sem os =
     (None, urt_mem_delete (Some sem) (sem_close (sem_ptr (the (sem_heap os sem))) os))"

definition urt_sys_add_sem_book_keeping :: "(posix_os, nat) bookkeeping" where
  "urt_sys_add_sem_book_keeping sem k ro w =
     (sem, w\<lparr>gos := (gos w)\<lparr>sem_heap := (sem_heap (gos w))(sem \<mapsto> (the (sem_heap (gos w) sem))\<lparr>sem_id := k\<rparr>)\<rparr>\<rparr>)"

definition urt_shsem_new :: "string \<Rightarrow> u32 \<Rightarrow> (posix_os, nat) sys_call" where
  "urt_shsem_new name init_value w =
     SHOBJ_NEW name sizeof_urt_sem (on_os (urt_sys_shsem_new name init_value)) URT_TYPE_SEM urt_sys_add_sem_book_keeping w"

definition urt_shsem_attach :: "string \<Rightarrow> (posix_os, nat) sys_call" where
  "urt_shsem_attach name w = SHOBJ_ATTACH name (on_os (urt_sys_shsem_attach name)) urt_sys_add_sem_book_keeping w"

definition shsem_detach :: "nat \<Rightarrow> posix_os release" where
  "shsem_detach sem ro os =
     (let os1 = sem_close (sem_ptr (the (sem_heap os sem))) os;
          os2 = (if ro_count ro = 0
                 then (case urt_convert_name (replicate URT_SYS_NAME_LEN NUL) (ro_name ro) of
                         (bad, buf) \<Rightarrow> if bad = 0 then sem_unlink (cstr buf) os1 else os1)
                 else os1)
      in urt_mem_delete (Some sem) os2)"

definition urt_shsem_detach :: "nat option \<Rightarrow> posix_global \<Rightarrow> posix_global option" where
  "urt_shsem_detach sem w =
     (case sem of
        None \<Rightarrow> Some w
      | Some s \<Rightarrow>
          (case urt_get_object_by_id (unat (sem_id (the (sem_heap (gos w) s)))) of
             None \<Rightarrow> Some w
           | Some ro \<Rightarrow> urt_deregister ro (Some (shsem_detach s)) w))"

section \<open>Locks of the thread library\<close>

text \<open>
  The place of a lock is the heap block or shared object and the offset in it; \<^verbatim>\<open>init\<close> and
  \<^verbatim>\<open>destroy\<close> are given places. \<open>flags\<close> is true for \<^verbatim>\<open>PTHREAD_PROCESS_SHARED\<close>.
\<close>

type_synonym place = "nat \<times> nat"

definition place_of :: "ptr \<Rightarrow> posix_os \<Rightarrow> place" where
  "place_of p os = (map_object (fst p) os, snd p)"

type_synonym lock_init = "place \<Rightarrow> bool \<Rightarrow> posix_os \<Rightarrow> (int + unit) \<times> posix_os"
type_synonym lock_destroy = "place \<Rightarrow> u32 \<Rightarrow> posix_os \<Rightarrow> posix_os"

definition pthread_lock_new :: "lock_init \<Rightarrow> u64 \<Rightarrow> posix_os \<Rightarrow> (int + nat) \<times> posix_os" where
  "pthread_lock_new init sz os =
     (case urt_mem_new sz os of
        (Inl e, os1) \<Rightarrow> (Inl e, os1)
      | (Inr lock, os1) \<Rightarrow>
          (case init (lock, 0) False os1 of
             (Inl e, os2) \<Rightarrow> (Inl e, urt_mem_delete (Some lock) os2)
           | (Inr u, os2) \<Rightarrow> (Inr lock, os2)))"

definition pthread_lock_delete :: "lock_destroy \<Rightarrow> nat option \<Rightarrow> posix_os \<Rightarrow> posix_os" where
  "pthread_lock_delete destroy lock os =
     urt_mem_delete lock (case lock of None \<Rightarrow> os | Some l \<Rightarrow> destroy (l, 0) 0 os)"

definition pthread_shlock_new :: "lock_init \<Rightarrow> u64 \<Rightarrow> string \<Rightarrow> (posix_os, ptr) sys_call" where
  "pthread_shlock_new init sz name w =
     (case urt_sys_shmem_new name (sz + 16) (gos w) of
        (Inl e, os1) \<Rightarrow> Some (Inl e, w\<lparr>gos := os1\<rparr>)
      | (Inr mem, os1) \<Rightarrow>
          (let lock = (fst mem, snd mem + 16) in
           case init (place_of lock os1) True os1 of
             (Inl e, os2) \<Rightarrow> do { w' \<leftarrow> urt_shmem_delete (Some lock) (w\<lparr>gos := os2\<rparr>); Some (Inl e, w') }
           | (Inr u, os2) \<Rightarrow> Some (Inr (fst lock, snd lock - 16), w\<lparr>gos := os2\<rparr>)))"

definition pthread_shlock_detach :: "lock_destroy \<Rightarrow> ptr option \<Rightarrow> posix_global \<Rightarrow> posix_global option" where
  "pthread_shlock_detach destroy lock w =
     (case lock of
        None \<Rightarrow> Some w
      | Some l \<Rightarrow> urt_shmem_detach_with_callback (Some l) (Some (\<lambda>p cnt os. destroy (place_of p os) cnt os)) w)"

text \<open>
  The loop \<^verbatim>\<open>while (destroy(l) == EBUSY) if (unlock(l)) break;\<close> that the three destructors
  share; \<open>self\<close> is the calling thread. For a condition variable the body is a broadcast.
\<close>

definition busy_at :: "place \<Rightarrow> posix_os \<Rightarrow> nat" where
  "busy_at at os = (case pt_locks os at of None \<Rightarrow> 0 | Some l \<Rightarrow> pt_busy l)"

lemma pt_release_busy: "0 < pt_busy l \<Longrightarrow> pt_release self l = Some l' \<Longrightarrow> pt_busy l' < pt_busy l"
  by (cases l) (simp_all split: if_splits, auto)

lemma pthread_destroy_busy:
  "fst (pthread_destroy at os) = EBUSY \<Longrightarrow> snd (pthread_destroy at os) = os \<and> 0 < busy_at at os"
  by (cases "pt_locks os at") (simp_all add: pthread_destroy_def busy_at_def split: if_splits)

lemma pthread_release_decreases:
  assumes "0 < busy_at at os" and "fst (pthread_release self at os) = 0"
  shows "busy_at at (snd (pthread_release self at os)) < busy_at at os"
proof -
  from assms(1) obtain l where l: "pt_locks os at = Some l" by (cases "pt_locks os at") (simp_all add: busy_at_def)
  with assms(2) obtain l' where "pt_release self l = Some l'"
    by (cases "pt_release self l") (simp_all add: pthread_release_def)
  with l assms(1) show ?thesis using pt_release_busy [of l self l'] by (simp add: pthread_release_def busy_at_def)
qed

function destroy_loop :: "nat \<Rightarrow> place \<Rightarrow> posix_os \<Rightarrow> posix_os" where
  "destroy_loop self at os =
     (let r = pthread_destroy at os in
      if fst r = EBUSY
      then (let u = pthread_release self at (snd r) in
            if fst u \<noteq> 0 then snd u else destroy_loop self at (snd u))
      else snd r)"
  by pat_completeness simp
termination
  by (relation "measure (\<lambda>(self, at, os). busy_at at os)")
    (simp_all add: pthread_destroy_busy pthread_release_decreases)

declare destroy_loop.simps [simp del]

definition shmutex_init :: lock_init where
  "shmutex_init lock flags os =
     (case pthread_mutex_init \<lparr>pshared = flags, prio_inherit = True\<rparr> lock os of
        (err, os1) \<Rightarrow> if err \<noteq> 0 then (Inl err, os1) else (Inr (), os1))"

definition shmutex_destroy :: "nat \<Rightarrow> lock_destroy" where
  "shmutex_destroy self mutex cnt os = (if cnt > 0 then os else destroy_loop self mutex os)"

definition urt_mutex_new :: "posix_os \<Rightarrow> (int + nat) \<times> posix_os" where
  "urt_mutex_new os = pthread_lock_new shmutex_init sizeof_urt_mutex os"

definition urt_mutex_delete :: "nat \<Rightarrow> nat option \<Rightarrow> posix_os \<Rightarrow> posix_os" where
  "urt_mutex_delete self mutex os = pthread_lock_delete (shmutex_destroy self) mutex os"

definition urt_sys_shmutex_new :: "string \<Rightarrow> (posix_os, ptr) sys_call" where
  "urt_sys_shmutex_new name w = pthread_shlock_new shmutex_init sizeof_urt_mutex name w"

definition urt_sys_shmutex_attach :: "string \<Rightarrow> posix_os \<Rightarrow> (int + ptr) \<times> posix_os" where
  "urt_sys_shmutex_attach name os = urt_sys_shmem_attach name os"

definition urt_shmutex_detach :: "nat \<Rightarrow> ptr option \<Rightarrow> posix_global \<Rightarrow> posix_global option" where
  "urt_shmutex_detach self mutex w = pthread_shlock_detach (shmutex_destroy self) mutex w"

definition shrwlock_init :: lock_init where
  "shrwlock_init lock flags os =
     (case pthread_rwlock_init \<lparr>pshared = flags, prio_inherit = False\<rparr> lock os of
        (err, os1) \<Rightarrow> if err \<noteq> 0 then (Inl err, os1) else (Inr (), os1))"

definition shrwlock_destroy :: "nat \<Rightarrow> lock_destroy" where
  "shrwlock_destroy self rwl cnt os = (if cnt > 0 then os else destroy_loop self rwl os)"

definition urt_rwlock_new :: "posix_os \<Rightarrow> (int + nat) \<times> posix_os" where
  "urt_rwlock_new os = pthread_lock_new shrwlock_init sizeof_urt_rwlock os"

definition urt_rwlock_delete :: "nat \<Rightarrow> nat option \<Rightarrow> posix_os \<Rightarrow> posix_os" where
  "urt_rwlock_delete self rwl os = pthread_lock_delete (shrwlock_destroy self) rwl os"

definition urt_sys_shrwlock_new :: "string \<Rightarrow> (posix_os, ptr) sys_call" where
  "urt_sys_shrwlock_new name w = pthread_shlock_new shrwlock_init sizeof_urt_rwlock name w"

definition urt_sys_shrwlock_attach :: "string \<Rightarrow> posix_os \<Rightarrow> (int + ptr) \<times> posix_os" where
  "urt_sys_shrwlock_attach name os = urt_sys_shmem_attach name os"

definition urt_shrwlock_detach :: "nat \<Rightarrow> ptr option \<Rightarrow> posix_global \<Rightarrow> posix_global option" where
  "urt_shrwlock_detach self rwl w = pthread_shlock_detach (shrwlock_destroy self) rwl w"

definition shcond_init :: lock_init where
  "shcond_init lock flags os =
     (case pthread_cond_init \<lparr>pshared = flags, prio_inherit = False\<rparr> lock os of
        (err, os1) \<Rightarrow> if err \<noteq> 0 then (Inl err, os1) else (Inr (), os1))"

definition shcond_destroy :: "nat \<Rightarrow> lock_destroy" where
  "shcond_destroy self cond cnt os = (if cnt > 0 then os else destroy_loop self cond os)"

definition urt_cond_new :: "posix_os \<Rightarrow> (int + nat) \<times> posix_os" where
  "urt_cond_new os = pthread_lock_new shcond_init sizeof_urt_cond os"

definition urt_cond_delete :: "nat \<Rightarrow> nat option \<Rightarrow> posix_os \<Rightarrow> posix_os" where
  "urt_cond_delete self cond os = pthread_lock_delete (shcond_destroy self) cond os"

definition urt_sys_shcond_new :: "string \<Rightarrow> (posix_os, ptr) sys_call" where
  "urt_sys_shcond_new name w = pthread_shlock_new shcond_init sizeof_urt_cond name w"

definition urt_sys_shcond_attach :: "string \<Rightarrow> posix_os \<Rightarrow> (int + ptr) \<times> posix_os" where
  "urt_sys_shcond_attach name os = urt_sys_shmem_attach name os"

definition urt_shcond_detach :: "nat \<Rightarrow> ptr option \<Rightarrow> posix_global \<Rightarrow> posix_global option" where
  "urt_shcond_detach self cond w = pthread_shlock_detach (shcond_destroy self) cond w"

text \<open>The book-keeping of all three is that of shared memory.\<close>

definition urt_sys_add_mutex_book_keeping :: "(posix_os, ptr) bookkeeping" where
  "urt_sys_add_mutex_book_keeping = urt_sys_add_mem_book_keeping"

definition urt_sys_add_rwlock_book_keeping :: "(posix_os, ptr) bookkeeping" where
  "urt_sys_add_rwlock_book_keeping = urt_sys_add_mem_book_keeping"

definition urt_sys_add_cond_book_keeping :: "(posix_os, ptr) bookkeeping" where
  "urt_sys_add_cond_book_keeping = urt_sys_add_mem_book_keeping"

definition urt_shmutex_new :: "string \<Rightarrow> (posix_os, ptr) sys_call" where
  "urt_shmutex_new name w =
     SHOBJ_NEW name sizeof_urt_mutex (urt_sys_shmutex_new name) URT_TYPE_MUTEX urt_sys_add_mutex_book_keeping w"

definition urt_shmutex_attach :: "string \<Rightarrow> (posix_os, ptr) sys_call" where
  "urt_shmutex_attach name w =
     SHOBJ_ATTACH name (on_os (urt_sys_shmutex_attach name)) urt_sys_add_mutex_book_keeping w"

definition urt_shrwlock_new :: "string \<Rightarrow> (posix_os, ptr) sys_call" where
  "urt_shrwlock_new name w =
     SHOBJ_NEW name sizeof_urt_rwlock (urt_sys_shrwlock_new name) URT_TYPE_RWLOCK urt_sys_add_rwlock_book_keeping w"

definition urt_shrwlock_attach :: "string \<Rightarrow> (posix_os, ptr) sys_call" where
  "urt_shrwlock_attach name w =
     SHOBJ_ATTACH name (on_os (urt_sys_shrwlock_attach name)) urt_sys_add_rwlock_book_keeping w"

definition urt_shcond_new :: "string \<Rightarrow> (posix_os, ptr) sys_call" where
  "urt_shcond_new name w =
     SHOBJ_NEW name sizeof_urt_cond (urt_sys_shcond_new name) URT_TYPE_COND urt_sys_add_cond_book_keeping w"

definition urt_shcond_attach :: "string \<Rightarrow> (posix_os, ptr) sys_call" where
  "urt_shcond_attach name w =
     SHOBJ_ATTACH name (on_os (urt_sys_shcond_attach name)) urt_sys_add_cond_book_keeping w"

text \<open>The inline functions of \<^verbatim>\<open>include/urt_lock.h\<close>: to delete is to detach.\<close>

definition urt_shsem_delete :: "nat option \<Rightarrow> posix_global \<Rightarrow> posix_global option" where
  "urt_shsem_delete sem w = urt_shsem_detach sem w"

definition urt_shmutex_delete :: "nat \<Rightarrow> ptr option \<Rightarrow> posix_global \<Rightarrow> posix_global option" where
  "urt_shmutex_delete self mutex w = urt_shmutex_detach self mutex w"

definition urt_shrwlock_delete :: "nat \<Rightarrow> ptr option \<Rightarrow> posix_global \<Rightarrow> posix_global option" where
  "urt_shrwlock_delete self rwl w = urt_shrwlock_detach self rwl w"

definition urt_shcond_delete :: "nat \<Rightarrow> ptr option \<Rightarrow> posix_global \<Rightarrow> posix_global option" where
  "urt_shcond_delete self cond w = urt_shcond_detach self cond w"

lemma urt_shmutex_new_eq:
  "urt_shmutex_new name w =
     SHOBJ_NEW name sizeof_urt_mutex (urt_sys_shmutex_new name) URT_TYPE_MUTEX urt_sys_add_mem_book_keeping w"
  by (simp add: urt_shmutex_new_def urt_sys_add_mutex_book_keeping_def)

section \<open>Semaphore lemmas\<close>

lemma shsem_common_bad:
  "posix_name name = None \<Longrightarrow> fst (shsem_common name v cr ex os) \<in> range Inl"
  using convert_posix_name(1) [of name]
  by (auto simp: shsem_common_def urt_mem_new_def split: sum.splits prod.splits option.splits)

lemma shsem_common_good:
  assumes "posix_name name = Some n"
  shows "shsem_common name v cr ex os =
     (case urt_mem_new sizeof_urt_sem os of
        (Inl e, os1) \<Rightarrow> (Inl e, urt_mem_delete None os1)
      | (Inr sem, os1) \<Rightarrow>
          (case sem_open n cr ex (unat v) os1 of
             (Inl e, os2) \<Rightarrow> (Inl e, urt_mem_delete (Some sem) os2)
           | (Inr k, os2) \<Rightarrow>
               (Inr sem, os2\<lparr>sem_heap := (sem_heap os2)(sem \<mapsto> \<lparr>sem_ptr = k, sem_id = 0\<rparr>)\<rparr>)))"
  using convert_posix_name(2) [OF assms] by (auto simp: shsem_common_def split: sum.splits prod.splits)

lemmas semcall_defs = urt_mem_new_def urt_mem_delete_def malloc_def free_def sem_open_def sys_fault_def fresh_def

lemma shsem_new_success:
  assumes "os_ok os" and "urt_sys_shsem_new name v os = (Inr sem, os')"
  obtains n k where "posix_name name = Some n" "sem_names os n = None" "sem = os_next os" "k = Suc (os_next os)"
    "os' = os\<lparr>os_tick := os_tick os + 2, os_next := os_next os + 2, heap := (heap os)(sem \<mapsto> sizeof_urt_sem),
       sem_names := (sem_names os)(n \<mapsto> k), sem_value := (sem_value os)(k := unat v),
       sem_opens := (sem_opens os)(k := 1), sem_heap := (sem_heap os)(sem \<mapsto> \<lparr>sem_ptr = k, sem_id = 0\<rparr>)\<rparr>"
proof (cases "posix_name name")
  case None
  with shsem_common_bad [OF None, of v True True os] assms(2) show ?thesis by (auto simp: urt_sys_shsem_new_def)
next
  case (Some n)
  have new: "sem_names os n = None"
    using assms(2) unfolding urt_sys_shsem_new_def shsem_common_good [OF Some]
    by (auto simp: semcall_defs Let_def split: if_splits option.splits)
  then have "sem = os_next os \<and> os' = os\<lparr>os_tick := os_tick os + 2, os_next := os_next os + 2,
       heap := (heap os)(sem \<mapsto> sizeof_urt_sem),
       sem_names := (sem_names os)(n \<mapsto> Suc (os_next os)), sem_value := (sem_value os)(Suc (os_next os) := unat v),
       sem_opens := (sem_opens os)(Suc (os_next os) := 1),
       sem_heap := (sem_heap os)(sem \<mapsto> \<lparr>sem_ptr = Suc (os_next os), sem_id = 0\<rparr>)\<rparr>"
    using assms(2) unfolding urt_sys_shsem_new_def shsem_common_good [OF Some]
    by (auto simp: semcall_defs Let_def split: if_splits)
  then show ?thesis using that [OF Some new _ refl] by blast
qed

lemma shsem_new_failure:
  assumes "os_ok os" and "urt_sys_shsem_new name v os = (Inl e, os')"
  shows "sem_names os' = sem_names os \<and> heap os' = heap os \<and> sem_heap os' = sem_heap os \<and> sem_opens os' = sem_opens os"
proof -
  have h: "(heap os)(os_next os := None) = heap os" "(sem_heap os)(os_next os := None) = sem_heap os"
    using os_okD(3,6) [OF assms(1)] by (simp_all add: fun_upd_idem)
  show ?thesis
  proof (cases "posix_name name")
    case None
    with convert_posix_name(1) [OF None] assms(2) h show ?thesis
      by (auto simp: urt_sys_shsem_new_def shsem_common_def semcall_defs Let_def split: if_splits)
  next
    case (Some n)
    with assms(2) h show ?thesis
      unfolding urt_sys_shsem_new_def shsem_common_good [OF Some]
      by (auto simp: semcall_defs Let_def split: if_splits option.splits)
  qed
qed

section \<open>The contract with the registry\<close>

definition record_sem_id :: "nat \<Rightarrow> u32 \<Rightarrow> posix_os \<Rightarrow> posix_os" where
  "record_sem_id sem k os = os\<lparr>sem_heap := (sem_heap os)(sem \<mapsto> (the (sem_heap os sem))\<lparr>sem_id := k\<rparr>)\<rparr>"

interpretation shsem: clean_backend
  "\<lambda>name. on_os (urt_sys_shsem_new name v)" "\<lambda>name. on_os (urt_sys_shsem_attach name)"
  urt_sys_add_sem_book_keeping False "\<lambda>s. s" record_sem_id for v
  by unfold_locales
    (auto simp: on_os_eq on_os_def urt_sys_add_sem_book_keeping_def record_sem_id_def split: prod.splits)

lemma pthread_shlock_new_frame:
  "pthread_shlock_new init sz name w = Some (Inr p, w') \<Longrightarrow> gmem w' = gmem w \<and> gsem w' = gsem w"
  by (auto simp: pthread_shlock_new_def Let_def bind_eq_Some_conv split: prod.splits sum.splits)

interpretation shlock: shared_backend
  "\<lambda>name. pthread_shlock_new init sz name" "\<lambda>name. on_os (urt_sys_shmem_attach name)"
  urt_sys_add_mem_book_keeping True "\<lambda>p. (fst p, snd p + 16)" store_u32 for init sz
  by unfold_locales
    (auto simp: on_os_eq urt_sys_add_mem_book_keeping_def dest: pthread_shlock_new_frame)

lemma shsem_detach_eq:
  "shsem_detach sem ro os =
     (let os1 = sem_close (sem_ptr (the (sem_heap os sem))) os
      in urt_mem_delete (Some sem) (if ro_count ro = 0 then (case posix_name (ro_name ro) of None \<Rightarrow> os1
           | Some n \<Rightarrow> sem_unlink n os1) else os1))"
proof (cases "posix_name (ro_name ro)")
  case None
  with convert_posix_name(1) [OF None] show ?thesis by (auto simp: shsem_detach_def Let_def)
next
  case (Some n)
  with convert_posix_name(2) [OF Some] show ?thesis by (auto simp: shsem_detach_def Let_def)
qed

lemma urt_shsem_detach_run:
  assumes "registry_inv (gmem w)" and "0 < gsem w" and "i < URT_MAX_OBJECTS (gmem w)" and "i < 2 ^ 32"
    and "sem_heap (gos w) s = Some \<lparr>sem_ptr = k, sem_id = of_nat i\<rparr>"
  shows "urt_shsem_detach (Some s) w = Some
    (w\<lparr>gmem := put_slot i (released_slot (objects (gmem w) ! i)) (lowered_max i (gmem w)) (gmem w),
       gos := shsem_detach s (released_slot (objects (gmem w) ! i)) (gos w)\<rparr>)"
  using assms
  by (simp add: urt_shsem_detach_def urt_get_object_by_id_def registry_run dec_count_common_eq unat_u32_of_nat)

lemma urt_shsem_new_success:
  assumes "registry_inv (gmem w)" and "0 < gsem w" and "os_ok (gos w)"
    and "urt_shsem_new name v w = Some (Inr s, w1)"
  obtains i n k os2 where "i < URT_MAX_OBJECTS (gmem w)" "name_table (gmem w) (cname name) = None"
    "posix_name name = Some n" "sem_names (gos w) n = None" "s = os_next (gos w)" "k = Suc (os_next (gos w))"
    "registry_inv (gmem w1)" "gsem w1 = gsem w"
    "name_table (gmem w1) = (name_table (gmem w))(cname name \<mapsto> i)"
    "objects (gmem w1) = (objects (gmem w))[i := new_slot name False URT_TYPE_SEM sizeof_urt_sem]"
    "gos w1 = os2\<lparr>sem_heap := (sem_heap (gos w))(s \<mapsto> \<lparr>sem_ptr = k, sem_id = of_nat i\<rparr>)\<rparr>"
    "heap os2 = (heap (gos w))(s \<mapsto> sizeof_urt_sem)" "sem_names os2 = (sem_names (gos w))(n \<mapsto> k)"
    "sem_opens os2 = (sem_opens (gos w))(k := 1)" "sem_value os2 = (sem_value (gos w))(k := unat v)"
proof -
  let ?i = "find_free_slot (gmem w)"
  note acc = SHOBJ_NEW_accepted [OF assms(1,2) assms(4) [unfolded urt_shsem_new_def]]
  have i: "?i < URT_MAX_OBJECTS (gmem w)" by (rule free_slot_reservable(1) [OF assms(1) acc(2)])
  obtain c os2 where c: "urt_sys_shsem_new name v (gos w) = (c, os2)" by fastforce
  then have call: "on_os (urt_sys_shsem_new name v) (reserved_state name w) = Some (c, (reserved_state name w)\<lparr>gos := os2\<rparr>)"
    by (simp add: on_os_def)
  show ?thesis
  proof (cases c)
    case (Inl e)
    from shsem.new_fails [OF assms(1,2) acc call [unfolded Inl], of sizeof_urt_sem URT_TYPE_SEM] assms(4) show ?thesis
      by (auto simp: urt_shsem_new_def)
  next
    case (Inr q)
    obtain n k where n: "posix_name name = Some n" "sem_names (gos w) n = None"
      and k: "q = os_next (gos w)" "k = Suc (os_next (gos w))"
      and os2: "os2 = (gos w)\<lparr>os_tick := os_tick (gos w) + 2, os_next := os_next (gos w) + 2,
         heap := (heap (gos w))(q \<mapsto> sizeof_urt_sem), sem_names := (sem_names (gos w))(n \<mapsto> k),
         sem_value := (sem_value (gos w))(k := unat v), sem_opens := (sem_opens (gos w))(k := 1),
         sem_heap := (sem_heap (gos w))(q \<mapsto> \<lparr>sem_ptr = k, sem_id = 0\<rparr>)\<rparr>"
      by (rule shsem_new_success [OF assms(3) c [unfolded Inr]])
    from shsem.new_run [OF assms(1,2) acc call [unfolded Inr], of sizeof_urt_sem URT_TYPE_SEM] assms(4)
    have s: "s = q" and w1: "w1 = w\<lparr>gmem := put_slot ?i (new_slot name False URT_TYPE_SEM sizeof_urt_sem)
        (max (objects_max_index (gmem w)) ?i) (gmem w), gos := record_sem_id q (of_nat ?i) os2\<rparr>"
      by (auto simp: urt_shsem_new_def)
    have g: "gos w1 = os2\<lparr>sem_heap := (sem_heap (gos w))(q \<mapsto> \<lparr>sem_ptr = k, sem_id = of_nat ?i\<rparr>)\<rparr>"
      using w1 by (simp add: record_sem_id_def os2)
    show ?thesis
      using that [OF i acc(1) n _ k(2)] s k(1) new_slot_registry [OF assms(1) acc(1) i] w1 g
      by (simp add: put_slot_def os2)
  qed
qed

lemma pthread_shlock_new_success:
  assumes "os_ok (gos w)" and "pthread_shlock_new init sz name w = Some (Inr p, w2)"
  obtains n k m os1 where "posix_name name = Some n" "shm_names (gos w) n = None" "p = (m, 0)"
    "init (k, 16) True os1 = (Inr (), gos w2)" "shm_names os1 = (shm_names (gos w))(n \<mapsto> k)"
    "shm_bytes os1 = (shm_bytes (gos w))(k := replicate (unat (sz + 16)) 0)"
    "maps os1 = (maps (gos w))(m \<mapsto> (k, unat (sz + 16)))"
proof -
  obtain mem os1 where mem: "urt_sys_shmem_new name (sz + 16) (gos w) = (Inr mem, os1)"
    and init: "init (place_of (fst mem, snd mem + 16) os1) True os1 = (Inr (), gos w2)" and p: "p = mem"
    using assms(2)
    by (auto simp: pthread_shlock_new_def Let_def bind_eq_Some_conv split: prod.splits sum.splits)
  obtain n k m where o: "posix_name name = Some n" "shm_names (gos w) n = None" "mem = (m, 0)"
    "shm_names os1 = (shm_names (gos w))(n \<mapsto> k)" "shm_bytes os1 = (shm_bytes (gos w))(k := replicate (unat (sz + 16)) 0)"
    "maps os1 = (maps (gos w))(m \<mapsto> (k, unat (sz + 16)))"
    by (rule shmem_new_success [OF assms(1) mem])
  with init have "init (k, 16) True os1 = (Inr (), gos w2)" by (simp add: place_of_def map_object_def)
  with that o p show ?thesis by blast
qed

lemma urt_sys_shmutex_new_eq: "urt_sys_shmutex_new name = pthread_shlock_new shmutex_init sizeof_urt_mutex name"
  by (simp add: fun_eq_iff urt_sys_shmutex_new_def)

section \<open>Destruction\<close>





section \<open>Properties\<close>

text \<open>
  The life of a shared semaphore. A creation that succeeds gives the semaphore the initial
  value under a system name that was free; the release by its only user then closes it, frees
  its block, and puts the registry's table, the semaphore names and the heap back.
\<close>

theorem shsem_lifecycle:
  assumes "registry_inv (gmem w)" and "0 < gsem w" and "os_ok (gos w)" and "URT_MAX_OBJECTS (gmem w) \<le> 2 ^ 32"
    and "urt_shsem_new name v w = Some (Inr s, w1)"
  shows "\<exists>n k w2. posix_name name = Some n \<and> sem_names (gos w) n = None \<and> sem_names (gos w1) n = Some k
    \<and> sem_value (gos w1) k = unat v \<and> urt_shsem_detach (Some s) w1 = Some w2
    \<and> name_table (gmem w2) = name_table (gmem w) \<and> registry_inv (gmem w2) \<and> gsem w2 = gsem w
    \<and> sem_names (gos w2) = sem_names (gos w) \<and> heap (gos w2) = heap (gos w)
    \<and> sem_heap (gos w2) = sem_heap (gos w) \<and> sem_opens (gos w2) k = 0"
proof -
  obtain i n k os2 where i: "i < URT_MAX_OBJECTS (gmem w)" "name_table (gmem w) (cname name) = None"
    and n: "posix_name name = Some n" "sem_names (gos w) n = None" and s: "s = os_next (gos w)"
    and w1: "registry_inv (gmem w1)" "gsem w1 = gsem w" "name_table (gmem w1) = (name_table (gmem w))(cname name \<mapsto> i)"
      "objects (gmem w1) = (objects (gmem w))[i := new_slot name False URT_TYPE_SEM sizeof_urt_sem]"
      "gos w1 = os2\<lparr>sem_heap := (sem_heap (gos w))(s \<mapsto> \<lparr>sem_ptr = k, sem_id = of_nat i\<rparr>)\<rparr>"
    and os2: "heap os2 = (heap (gos w))(s \<mapsto> sizeof_urt_sem)" "sem_names os2 = (sem_names (gos w))(n \<mapsto> k)"
      "sem_opens os2 = (sem_opens (gos w))(k := 1)" "sem_value os2 = (sem_value (gos w))(k := unat v)"
    by (rule urt_shsem_new_success [OF assms(1-3,5)])
  let ?ro = "released_slot (new_slot name False URT_TYPE_SEM sizeof_urt_sem)"
  have slot: "i < URT_MAX_OBJECTS (gmem w1)" "objects (gmem w1) ! i = new_slot name False URT_TYPE_SEM sizeof_urt_sem"
    using w1(4) i(1) by simp_all
  let ?w2 = "w1\<lparr>gmem := put_slot i ?ro (lowered_max i (gmem w1)) (gmem w1), gos := shsem_detach s ?ro (gos w1)\<rparr>"
  have run: "urt_shsem_detach (Some s) w1 = Some ?w2"
    using urt_shsem_detach_run [OF w1(1) _ slot(1), of s k] i(1) assms(2,4) w1(2,5) slot(2) by simp
  have nm: "posix_name (ro_name ?ro) = Some n"
    using n(1) posix_name_cong [of "ro_name ?ro" name] by (simp add: released_slot_def cname_reserved_slot)
  have c0: "ro_count ?ro = 0" by (simp add: released_slot_def)
  have os: "shsem_detach s ?ro (gos w1) = urt_mem_delete (Some s) (sem_unlink n (sem_close k (gos w1)))"
    unfolding shsem_detach_eq nm c0 using w1(5) by (simp add: Let_def)
  have "name_table (gmem ?w2) = (name_table (gmem w1))(cname name := None)"
    using name_table_released [OF w1(1) slot(1)] slot(2) by (simp add: cname_reserved_slot)
  also have "\<dots> = name_table (gmem w)" using w1(3) i(2) by (simp add: fun_eq_iff)
  finally have tab: "name_table (gmem ?w2) = name_table (gmem w)" .
  have reg: "registry_inv (gmem ?w2)" using registry_inv_released [OF w1(1) slot(1)] slot(2) by simp
  have fresh: "heap (gos w) s = None" "sem_heap (gos w) s = None" using os_okD(3,6) [OF assms(3)] s by simp_all
  have "sem_names (gos ?w2) = sem_names (gos w)" "heap (gos ?w2) = heap (gos w)" "sem_heap (gos ?w2) = sem_heap (gos w)"
    "sem_opens (gos ?w2) k = 0"
    using os w1(5) os2 n(2) fresh
    by (simp_all add: urt_mem_delete_def free_def sem_unlink_def sem_close_def fun_upd_idem)
  then show ?thesis using n run tab reg w1(2,5) os2 by auto
qed

theorem shsem_lifecycle_witness:
  "\<exists>s w1 w2. urt_shsem_new ''AB'' 3 posix_empty = Some (Inr s, w1) \<and> urt_shsem_detach (Some s) w1 = Some w2
    \<and> name_table (gmem w2) = name_table (gmem posix_empty) \<and> heap (gos w2) = heap (gos posix_empty)"
proof -
  have "case urt_shsem_new ''AB'' 3 posix_empty of Some (Inr s, w1) \<Rightarrow> True | _ \<Rightarrow> False" by code_simp
  from run_success [OF this] obtain s w1 where r: "urt_shsem_new ''AB'' 3 posix_empty = Some (Inr s, w1)" .
  have "URT_MAX_OBJECTS (gmem posix_empty) \<le> 2 ^ 32"
    by (simp add: posix_empty_def urt_registry_init_def zero_memory_def)
  from shsem_lifecycle [OF posix_empty_ok this r] r show ?thesis by blast
qed



text \<open>
  A shared mutex whose creation succeeds lies behind the book-keeping of a new memory
  object, initialised as process-shared, with priority inheritance, and unowned; it is
  registered as a mutex with 16 bytes of book-keeping.
\<close>

theorem shmutex_new_success:
  assumes "registry_inv (gmem w)" and "0 < gsem w" and "os_ok (gos w)"
    and "urt_shmutex_new name w = Some (Inr p, w')"
  shows "\<exists>i n k. posix_name name = Some n \<and> shm_names (gos w) n = None \<and> shm_names (gos w') n = Some k
    \<and> name_table (gmem w') = (name_table (gmem w))(cname name \<mapsto> i) \<and> registry_inv (gmem w')
    \<and> ro_type (objects (gmem w') ! i) = URT_TYPE_MUTEX \<and> ro_count (objects (gmem w') ! i) = 1
    \<and> ro_size (objects (gmem w') ! i) = sizeof_urt_mutex + 16
    \<and> maps (gos w') (fst p) = Some (k, 56) \<and> snd p = 16
    \<and> pt_locks (gos w') (place_of p (gos w')) = Some (Pt_mutex \<lparr>pshared = True, prio_inherit = True\<rparr> None)"
proof -
  let ?i = "find_free_slot (gmem w)"
  note acc = SHOBJ_NEW_accepted [OF assms(1,2) assms(4) [unfolded urt_shmutex_new_eq]]
  have i: "?i < URT_MAX_OBJECTS (gmem w)" by (rule free_slot_reservable(1) [OF assms(1) acc(2)])
  obtain q w2 where c: "pthread_shlock_new shmutex_init sizeof_urt_mutex name (reserved_state name w) = Some (Inr q, w2)"
    using SHOBJ_NEW_call [OF assms(1,2) assms(4) [unfolded urt_shmutex_new_eq]] by (metis urt_sys_shmutex_new_eq)
  obtain n k m os1 where o: "posix_name name = Some n" "shm_names (gos w) n = None" "q = (m, 0)"
    "shmutex_init (k, 16) True os1 = (Inr (), gos w2)" "shm_names os1 = (shm_names (gos w))(n \<mapsto> k)"
    "maps os1 = (maps (gos w))(m \<mapsto> (k, unat (sizeof_urt_mutex + 16)))"
    by (rule pthread_shlock_new_success [OF _ c]) (simp_all add: assms(3))
  have os2: "gos w2 = os1\<lparr>os_tick := Suc (os_tick os1),
      pt_locks := (pt_locks os1)((k, 16) \<mapsto> Pt_mutex \<lparr>pshared = True, prio_inherit = True\<rparr> None)\<rparr>"
    using o(4) by (auto simp: shmutex_init_def pthread_mutex_init_def pthread_init_def sys_fault_def Let_def
        split: prod.splits if_splits)
  from shlock.new_run [OF assms(1,2) acc c, of sizeof_urt_mutex URT_TYPE_MUTEX] assms(4) o(3)
  have p: "p = (m, 16)" and w': "w' = w\<lparr>gmem := put_slot ?i (new_slot name True URT_TYPE_MUTEX sizeof_urt_mutex)
      (max (objects_max_index (gmem w)) ?i) (gmem w), gos := store_u32 (m, 0) (of_nat ?i) (gos w2)\<rparr>"
    by (auto simp: urt_shmutex_new_eq urt_sys_shmutex_new_eq)
  have "unat (sizeof_urt_mutex + 16) = 56" by (simp add: sizeof_urt_mutex_def)
  moreover have "pt_locks (store_u32 (m, 0) v os) = pt_locks os" for v os by (simp add: store_u32_def Let_def)
  ultimately show ?thesis
    using o os2 p w' i new_slot_registry [OF assms(1) acc(1) i]
    by (intro exI [of _ ?i] exI [of _ n] exI [of _ k]) (simp add: place_of_def map_object_def)
qed

theorem shmutex_new_success_witness:
  "\<exists>p w'. urt_shmutex_new ''AB'' posix_empty = Some (Inr p, w') \<and> snd p = 16
    \<and> pt_locks (gos w') (place_of p (gos w')) = Some (Pt_mutex \<lparr>pshared = True, prio_inherit = True\<rparr> None)"
proof -
  have "case urt_shmutex_new ''AB'' posix_empty of Some (Inr p, w') \<Rightarrow> True | _ \<Rightarrow> False" by code_simp
  from run_success [OF this] obtain p w' where r: "urt_shmutex_new ''AB'' posix_empty = Some (Inr p, w')" .
  from shmutex_new_success [OF posix_empty_ok r] r show ?thesis by blast
qed

text \<open>
  C39: When the initialisation of a shared lock fails, the code gives the new memory up with
  \<^verbatim>\<open>urt_shmem_delete\<close> before the registry index has been written to it: the index read back is
  0, so the object in slot 0 loses a user, and with its last user its registration, although
  it has nothing to do with the lock.
\<close>

theorem failed_lock_init_releases_slot_0:
  assumes "registry_inv (gmem w)" and "0 < gsem w" and "os_ok (gos w)"
    and "urt_sys_shmem_new name (sizeof_urt_mutex + 16) (gos w) = (Inr mem, os1)"
    and "os_fault os1 (os_tick os1) = e" and "e \<noteq> 0"
  shows "\<exists>w'. urt_sys_shmutex_new name w = Some (Inl e, w')
    \<and> objects (gmem w') = (objects (gmem w))[0 := released_slot (objects (gmem w) ! 0)]
    \<and> (ro_count (objects (gmem w) ! 0) = 1 \<longrightarrow> \<not> ro_reserved (objects (gmem w) ! 0) \<longrightarrow>
        name_table (gmem w') = (name_table (gmem w))(cname (ro_name (objects (gmem w) ! 0)) := None))"
proof -
  obtain n k m where o: "mem = (m, 0)" "maps os1 = (maps (gos w))(m \<mapsto> (k, unat (sizeof_urt_mutex + 16)))"
    "shm_bytes os1 = (shm_bytes (gos w))(k := replicate (unat (sizeof_urt_mutex + 16)) 0)"
    by (rule shmem_new_success [OF assms(3,4)])
  let ?os2 = "os1\<lparr>os_tick := Suc (os_tick os1)\<rparr>" and ?w1 = "w\<lparr>gos := os1\<lparr>os_tick := Suc (os_tick os1)\<rparr>\<rparr>"
  have init: "shmutex_init p True os1 = (Inl e, ?os2)" for p
    using assms(5,6)
    by (simp add: shmutex_init_def pthread_mutex_init_def pthread_init_def sys_fault_def Let_def)
  have sz: "unat (sizeof_urt_mutex + 16) = 56" by (simp add: sizeof_urt_mutex_def)
  have "load_u32 (m, 0) (gos ?w1) = bytes_u32 (replicate 4 0)"
    using o(2,3) sz by (simp add: load_u32_def map_object_def)
  also have "\<dots> = of_nat 0" by (simp add: bytes_u32_def numeral_eq_Suc)
  finally have ld: "load_u32 (m, 0) (gos ?w1) = of_nat 0" .
  have i: "0 < URT_MAX_OBJECTS (gmem w)" using registry_invD(1) [OF assms(1)] by linarith
  let ?w' = "?w1\<lparr>gmem := put_slot 0 (released_slot (objects (gmem w) ! 0)) (lowered_max 0 (gmem w)) (gmem w),
       gos := shmem_detach (m, 0) None (released_slot (objects (gmem w) ! 0)) (gos ?w1)\<rparr>"
  have "urt_shmem_delete (Some (m, 16)) ?w1 = Some ?w'"
    using urt_shmem_detach_run [of ?w1 0 m None] assms(1,2) i ld
    by (simp add: urt_shmem_delete_def urt_shmem_detach_def)
  then have run: "urt_sys_shmutex_new name w = Some (Inl e, ?w')"
    using assms(4) o(1) init by (simp add: urt_sys_shmutex_new_def pthread_shlock_new_def)
  show ?thesis
    using run i name_table_released [OF assms(1) i] by (intro exI [of _ ?w']) (simp add: ro_used_def)
qed

text \<open>Slot 0 holds the memory \<^verbatim>\<open>AB\<close> with one user when the creation of a mutex fails.\<close>

theorem failed_lock_init_releases_slot_0_witness:
  "\<exists>w'. urt_sys_shmutex_new ''M'' (posix_shared\<lparr>gos := (gos posix_shared)\<lparr>os_fault := (\<lambda>t. if t = 6 then 12 else 0)\<rparr>\<rparr>)
      = Some (Inl 12, w') \<and> name_table (gmem w') ''AB'' = None"
proof -
  let ?os = "(gos posix_shared)\<lparr>os_fault := (\<lambda>t. if t = 6 then 12 else 0)\<rparr>"
  let ?w = "posix_shared\<lparr>gos := ?os\<rparr>"
  have ev: "case urt_sys_shmem_new ''M'' (sizeof_urt_mutex + 16) ?os of
      (Inr mem, os1) \<Rightarrow> os_fault os1 (os_tick os1) = 12 | _ \<Rightarrow> False"
    by code_simp
  then obtain mem os1 where r: "urt_sys_shmem_new ''M'' (sizeof_urt_mutex + 16) (gos ?w) = (Inr mem, os1)"
    "os_fault os1 (os_tick os1) = 12"
    by (cases "urt_sys_shmem_new ''M'' (sizeof_urt_mutex + 16) ?os") (auto split: sum.splits)
  have h: "registry_inv (gmem ?w)" "0 < gsem ?w" "os_ok (gos ?w)"
    using posix_shared_ok by (simp_all add: os_ok_def)
  have nm: "cname (ro_name (objects (gmem ?w) ! 0)) = ''AB''"
    using name_table_invD(3) [OF h(1), of "''AB''" 0] posix_shared_facts(2) by simp
  have c: "ro_count (objects (gmem ?w) ! 0) = 1" "\<not> ro_reserved (objects (gmem ?w) ! 0)"
    using posix_shared_facts by simp_all
  from failed_lock_init_releases_slot_0 [OF h r] c nm show ?thesis by auto
qed

end
