(* ===== verification/Urt_Setup.thy ===== *)
theory Urt_Setup
  imports Posix_Lock_Objects
begin

text \<open>
  Set-up, shut-down and recovery (\<^verbatim>\<open>src/setup_common.c\<close>) with the POSIX back-end. A process has
  its pointers \<^verbatim>\<open>urt_global_mem\<close> and \<^verbatim>\<open>urt_global_sem\<close>; the segment and the semaphore they lead
  to are those of the reserved names, \<open>gmem\<close> and \<open>gsem\<close> of the shared state. Opening creates
  what is missing: the semaphore with value 1, the segment filled with zeros.

  The lemmas show what \<^verbatim>\<open>urt_init\<close> does on every branch, that \<^verbatim>\<open>urt_exit\<close> undoes it for the
  process, and that \<^verbatim>\<open>urt_recover\<close> repairs a semaphore that was left locked and an index that
  was left wrong by a process that died.
\<close>

section \<open>Definitions\<close>

definition URT_GLOBAL_LOCK_NAME :: string where "URT_GLOBAL_LOCK_NAME = ''$URTGL''"
definition URT_GLOBAL_MEM_NAME :: string where "URT_GLOBAL_MEM_NAME = ''$URTGM''"

text \<open>What a process keeps; \<open>None\<close> is the NULL pointer.\<close>

record urt_proc =
  urt_global_mem :: "ptr option"
  urt_global_sem :: "nat option"

type_synonym setup_state = "urt_proc \<times> posix_global"

text \<open>
  The back-end's \<^verbatim>\<open>urt_global_sem_get\<close> and \<^verbatim>\<open>urt_global_mem_get\<close> with the pointer they set and
  the contents of what they create (\<open>zero_memory\<close>: a segment filled with zeros).
\<close>

definition global_sem_get :: "string \<Rightarrow> setup_state \<Rightarrow> int \<times> setup_state" where
  "global_sem_get name s =
     (case s of (p, w) \<Rightarrow>
        (case urt_global_sem_get name (gos w) of ((e, sem), os1) \<Rightarrow>
           let created = (sem \<noteq> None \<and> sem_names (gos w) (the (posix_name name)) = None)
           in (e, p\<lparr>urt_global_sem := sem\<rparr>, w\<lparr>gos := os1, gsem := (if created then 1 else gsem w)\<rparr>)))"

definition global_mem_get :: "string \<Rightarrow> u64 \<Rightarrow> setup_state \<Rightarrow> int \<times> setup_state" where
  "global_mem_get name sz s =
     (case s of (p, w) \<Rightarrow>
        (case urt_global_mem_get name sz (gos w) of
           (Inl e, os1) \<Rightarrow> (e, p\<lparr>urt_global_mem := None\<rparr>, w\<lparr>gos := os1\<rparr>)
         | (Inr mem, os1) \<Rightarrow>
             (0, p\<lparr>urt_global_mem := Some mem\<rparr>,
              w\<lparr>gos := os1, gmem := (if shm_names (gos w) (the (posix_name name)) = None
                                     then zero_memory (URT_MAX_OBJECTS (gmem w)) else gmem w)\<rparr>)))"

definition global_mem_free :: "u64 \<Rightarrow> setup_state \<Rightarrow> setup_state" where
  "global_mem_free sz s =
     (case s of (p, w) \<Rightarrow>
        (case urt_global_mem_free (the (urt_global_mem p)) (unat sz) (gos w) of
           (mem, os1) \<Rightarrow> (p\<lparr>urt_global_mem := mem\<rparr>, w\<lparr>gos := os1\<rparr>)))"

definition global_sem_free :: "setup_state \<Rightarrow> setup_state" where
  "global_sem_free s =
     (case s of (p, w) \<Rightarrow>
        (case urt_global_sem_free (the (urt_global_sem p)) (gos w) of
           (sem, os1) \<Rightarrow> (p\<lparr>urt_global_sem := sem\<rparr>, w\<lparr>gos := os1\<rparr>)))"

definition urt_sys_init :: "setup_state \<Rightarrow> int \<times> setup_state" where
  "urt_sys_init s = (0, s)"

definition urt_sys_exit :: "setup_state \<Rightarrow> setup_state" where
  "urt_sys_exit s = s"

text \<open>
  \<^verbatim>\<open>_calibrate\<close> of a user-space process that shares its clock with the kernel: up to 10 times the
  kernel's time is read (\<open>None\<close>: the file cannot be opened, \<open>Some None\<close>: it holds no number)
  and compared with the time of the process; the smallest difference stays. On one space, as
  with POSIX, nothing is to be calibrated.
\<close>

fun calibrate_loop :: "nat \<Rightarrow> ('w \<Rightarrow> int option option \<times> 'w) \<Rightarrow> ('w \<Rightarrow> int \<times> 'w) \<Rightarrow> bool \<times> int \<Rightarrow> 'w \<Rightarrow> int \<times> 'w" where
  "calibrate_loop 0 kern now (first, offset) w = (offset, w)"
| "calibrate_loop (Suc n) kern now (first, offset) w =
     (case kern w of
        (None, w1) \<Rightarrow> (offset, w1)
      | (Some None, w1) \<Rightarrow> calibrate_loop n kern now (first, offset) w1
      | (Some (Some ktime), w1) \<Rightarrow>
          (let (utime, w2) = now w1; diff = ktime - utime
           in calibrate_loop n kern now (False, if first \<or> diff < offset then diff else offset) w2))"

definition calibrate :: "('w \<Rightarrow> int option option \<times> 'w) \<Rightarrow> ('w \<Rightarrow> int \<times> 'w) \<Rightarrow> 'w \<Rightarrow> int \<times> 'w" where
  "calibrate kern now w = calibrate_loop 10 kern now (True, 0) w"

text \<open>\<open>si\<close> and \<open>so\<close> are the sizes of the two structures as the process was compiled.\<close>

definition urt_init :: "u64 \<Rightarrow> u64 \<Rightarrow> setup_state \<Rightarrow> (int \<times> setup_state) option" where
  "urt_init si so s =
     (let (error, s) = urt_sys_init s in
      if error \<noteq> 0 then Some (error, s)
      else if urt_global_mem (fst s) \<noteq> None then Some (EALREADY, s)
      else (let (error, p, w) = global_sem_get URT_GLOBAL_LOCK_NAME s in
        if error \<noteq> 0 then Some (error, p, w)
        else do {
          w1 \<leftarrow> urt_global_sem_wait w;
          let (error, p, w2) = global_mem_get URT_GLOBAL_MEM_NAME si (p, w1);
          if urt_global_mem p = None then Some (error, p, urt_global_sem_post w2)
          else (let (bad, g) = urt_registry_init si so (gmem w2); w3 = w2\<lparr>gmem := g\<rparr>
                in if bad \<noteq> 0 then Some (EBUSY, p, urt_global_sem_post w3)
                   else Some (error, p, urt_global_sem_post w3))}))"

definition urt_exit :: "u64 \<Rightarrow> setup_state \<Rightarrow> setup_state" where
  "urt_exit si s =
     (if urt_global_mem (fst s) = None then s
      else urt_sys_exit (global_sem_free (global_mem_free si s)))"

text \<open>The loop of \<^verbatim>\<open>urt_recover\<close> over the first \<open>n\<close> slots.\<close>

fun recover_index :: "nat \<Rightarrow> urt_internal \<Rightarrow> urt_internal" where
  "recover_index 0 g = g"
| "recover_index (Suc i) g =
     (let g' = recover_index i g; ro = objects g' ! i
      in if (ro_reserved ro \<or> ro_count ro > 0) \<and> objects_max_index g' < i
         then g'\<lparr>objects_max_index := i\<rparr> else g')"

definition urt_recover :: "u64 \<Rightarrow> setup_state \<Rightarrow> setup_state" where
  "urt_recover si s =
     (let (error, s) = urt_sys_init s in
      if error \<noteq> 0 then s
      else (let (error, p, w) = global_sem_get URT_GLOBAL_LOCK_NAME s in
        if error \<noteq> 0 then (p, w)
        else (let w1 = urt_global_sem_try_wait w;
                  (error, p, w2) = global_mem_get URT_GLOBAL_MEM_NAME si (p, w1);
                  (p, w3) = (if urt_global_mem p = None then (p, w2)
                    else (let g = (gmem w2)\<lparr>objects_max_index := 0\<rparr>;
                              g' = recover_index (URT_MAX_OBJECTS g) g
                          in global_mem_free si (p, w2\<lparr>gmem := g'\<rparr>)))
              in urt_sys_exit (global_sem_free (p, urt_global_sem_post w3)))))"

section \<open>Opening the reserved names\<close>

lemma reserved_names:
  "posix_name URT_GLOBAL_LOCK_NAME = Some ''/$URTGL''" "posix_name URT_GLOBAL_MEM_NAME = Some ''/$URTGM''"
  by code_simp+

abbreviation sem_missing :: "posix_os \<Rightarrow> bool" where
  "sem_missing os \<equiv> sem_names os ''/$URTGL'' = None"

abbreviation mem_missing :: "posix_os \<Rightarrow> bool" where
  "mem_missing os \<equiv> shm_names os ''/$URTGM'' = None"

text \<open>What the semaphore part of the operating system looks like to the memory part.\<close>

definition same_mem :: "posix_os \<Rightarrow> posix_os \<Rightarrow> bool" where
  "same_mem os os' \<longleftrightarrow> shm_names os' = shm_names os \<and> shm_bytes os' = shm_bytes os \<and> maps os' = maps os \<and> fds os' = fds os"

text \<open>Fresh numbers may be used up at any time.\<close>

lemma os_ok_more:
  assumes "os_ok os" and "os_next os \<le> os_next os'" and "shm_names os' = shm_names os" and "maps os' = maps os"
    and "fds os' = fds os" and "\<And>j. os_next os' \<le> j \<Longrightarrow> sem_heap os' j = None \<and> heap os' j = None"
  shows "os_ok os'"
proof -
  note ok = os_okD [OF assms(1)]
  have "fds os' j = None \<and> maps os' j = None \<and> sem_heap os' j = None \<and> heap os' j = None" if "os_next os' \<le> j" for j
    using assms(4-6) that ok(1,2) [OF le_trans [OF assms(2) that]] by simp
  moreover have "k < os_next os'" if "shm_names os' n = Some k" for n k
    using ok(4) [of n k] that assms(2,3) by simp
  moreover have "k < os_next os'" if "maps os' m = Some (k, len)" for m k len
    using ok(5) [of m k len] that assms(2,4) by simp
  ultimately show ?thesis unfolding os_ok_def by blast
qed

lemma global_sem_get_success:
  assumes "os_ok os" and "urt_global_sem_get URT_GLOBAL_LOCK_NAME os = ((0, Some s), os')"
  shows "same_mem os os' \<and> os_ok os' \<and> os_next os \<le> s \<and> heap os' = (heap os)(s \<mapsto> sizeof_urt_sem)
    \<and> \<not> sem_missing os' \<and> sem_heap os' = (sem_heap os)(s \<mapsto> \<lparr>sem_ptr = the (sem_names os' ''/$URTGL''), sem_id = 0\<rparr>)
    \<and> (\<not> sem_missing os \<longrightarrow> sem_names os' = sem_names os)"
  using assms os_okD(3,6) [OF assms(1)]
  unfolding urt_global_sem_get_def shsem_common_good [OF reserved_names(1)]
  by (auto simp: semcall_defs Let_def SEM_VALUE_MAX_def same_mem_def split: if_splits option.splits
        intro!: os_ok_more [OF assms(1)])

lemma global_sem_get_failure:
  assumes "os_ok os" and "urt_global_sem_get URT_GLOBAL_LOCK_NAME os = ((e, s), os')" and "\<not> (e = 0 \<and> s \<noteq> None)"
  shows "e \<noteq> 0 \<and> s = None \<and> same_mem os os' \<and> os_ok os' \<and> heap os' = heap os \<and> sem_names os' = sem_names os"
proof -
  have h: "(heap os)(os_next os := None) = heap os" "(sem_heap os)(os_next os := None) = sem_heap os"
    using os_okD(3,6) [OF assms(1)] by (simp_all add: fun_upd_idem)
  show ?thesis
    using assms(2,3) h os_okD(3,6) [OF assms(1)]
    unfolding urt_global_sem_get_def shsem_common_good [OF reserved_names(1)]
    by (auto simp: semcall_defs Let_def SEM_VALUE_MAX_def same_mem_def split: if_splits option.splits
          intro!: os_ok_more [OF assms(1)])
qed

text \<open>The semaphores and the heap are not the business of the shared memory calls.\<close>

definition same_sem :: "posix_os \<Rightarrow> posix_os \<Rightarrow> bool" where
  "same_sem os os' \<longleftrightarrow> sem_names os' = sem_names os \<and> sem_heap os' = sem_heap os \<and> heap os' = heap os"

lemma global_mem_get_success:
  assumes "os_ok os" and "urt_global_mem_get URT_GLOBAL_MEM_NAME sz os = (Inr p, os')"
  obtains k m where "p = (m, 0)" "os_next os \<le> m" "0 < unat sz" "maps os' = (maps os)(m \<mapsto> (k, unat sz))"
    "fds os' = fds os" "same_sem os os'" "shm_names os' ''/$URTGM'' = Some k"
    "\<not> mem_missing os \<Longrightarrow> shm_names os' = shm_names os"
    "length (shm_bytes os' k) = unat sz" "mem_missing os \<Longrightarrow> shm_bytes os' k = replicate (unat sz) 0"
proof -
  have fd: "(fds os)(os_next os := None) = fds os" using os_okD(1) [OF assms(1)] by (simp add: fun_upd_idem)
  show ?thesis
    using assms(2) that fd
    unfolding urt_global_mem_get_def shmem_common_good [OF reserved_names(2)]
    by (auto simp: syscall_defs Let_def same_sem_def split: if_splits option.splits)
qed

lemma global_mem_get_os:
  assumes "os_ok os" and "urt_global_mem_get URT_GLOBAL_MEM_NAME sz os = (Inr p, os')"
  shows "os_ok os'" and "n \<noteq> ''/$URTGM'' \<Longrightarrow> shm_names os' n = shm_names os n"
proof -
  have fd: "(fds os)(os_next os := None) = fds os" using os_okD(1) [OF assms(1)] by (simp add: fun_upd_idem)
  show "n \<noteq> ''/$URTGM'' \<Longrightarrow> shm_names os' n = shm_names os n"
    using assms(2) unfolding urt_global_mem_get_def shmem_common_good [OF reserved_names(2)]
    by (auto simp: syscall_defs Let_def split: if_splits option.splits)
  let ?fd = "os_next os"
  show "os_ok os'"
  proof (cases "shm_names os ''/$URTGM''")
    case None
    then have "os' = os\<lparr>os_tick := os_tick os + 3, os_next := os_next os + 3,
        shm_names := (shm_names os)(''/$URTGM'' \<mapsto> Suc ?fd), shm_bytes := (shm_bytes os)(Suc ?fd := replicate (unat sz) 0),
        maps := (maps os)(Suc (Suc ?fd) \<mapsto> (Suc ?fd, unat sz))\<rparr>"
      using assms(2) fd unfolding urt_global_mem_get_def shmem_common_good [OF reserved_names(2)]
      by (auto simp: syscall_defs Let_def numeral_eq_Suc split: if_splits option.splits)
    then show ?thesis
      by (auto simp: os_ok_def os_okD(1-3,6) [OF assms(1)] dest: os_okD(4,5) [OF assms(1)])
  next
    case (Some k)
    then have "os' = os\<lparr>os_tick := os_tick os + 3, os_next := os_next os + 2, shm_bytes := shm_bytes os',
        maps := (maps os)(Suc ?fd \<mapsto> (k, unat sz))\<rparr>"
      using assms(2) fd unfolding urt_global_mem_get_def shmem_common_good [OF reserved_names(2)]
      by (auto simp: syscall_defs Let_def numeral_eq_Suc split: if_splits option.splits)
    then obtain b where "os' = os\<lparr>os_tick := os_tick os + 3, os_next := os_next os + 2, shm_bytes := b,
        maps := (maps os)(Suc ?fd \<mapsto> (k, unat sz))\<rparr>" by blast
    then show ?thesis using os_okD(4) [OF assms(1) Some]
      by (auto simp: os_ok_def os_okD(1-3,6) [OF assms(1)] dest: os_okD(4,5) [OF assms(1)])
  qed
qed

lemma global_mem_get_failure:
  assumes "os_ok os" and "urt_global_mem_get URT_GLOBAL_MEM_NAME sz os = (Inl e, os')"
  shows "e \<noteq> 0 \<and> maps os' = maps os \<and> fds os' = fds os \<and> same_sem os os'
    \<and> (shm_names os' = shm_names os \<or> mem_missing os')"
proof -
  have fd: "(fds os)(os_next os := None) = fds os" using os_okD(1) [OF assms(1)] by (simp add: fun_upd_idem)
  show ?thesis
    using assms(2) fd
    unfolding urt_global_mem_get_def shmem_common_good [OF reserved_names(2)]
    by (auto simp: syscall_defs Let_def same_sem_def split: if_splits option.splits)
qed

lemma global_sem_get_nofault:
  assumes "\<And>t. os_fault os t = 0"
  shows "\<exists>s os'. urt_global_sem_get URT_GLOBAL_LOCK_NAME os = ((0, Some s), os') \<and> os_fault os' = os_fault os"
  unfolding urt_global_sem_get_def shsem_common_good [OF reserved_names(1)]
  by (cases "sem_names os ''/$URTGL''") (simp_all add: assms semcall_defs Let_def SEM_VALUE_MAX_def)

lemma global_mem_get_nofault:
  assumes "\<And>t. os_fault os t = 0" and "0 < unat sz" and "0 \<le> sint sz"
  shows "\<exists>q os'. urt_global_mem_get URT_GLOBAL_MEM_NAME sz os = (Inr q, os')"
  unfolding urt_global_mem_get_def shmem_common_good [OF reserved_names(2)]
  using assms(2,3) by (cases "shm_names os ''/$URTGM''") (simp_all add: assms(1) syscall_defs Let_def)

section \<open>Recovery of the index\<close>

lemma recover_index_objects [simp]: "objects (recover_index n g) = objects g"
  by (induction n) (simp_all add: Let_def)

lemma recover_index_frame: "(recover_index n g)\<lparr>objects_max_index := k\<rparr> = g\<lparr>objects_max_index := k\<rparr>"
  by (induction n arbitrary: k) (simp_all add: Let_def)

lemma recover_index_max:
  assumes "objects_max_index g = 0"
  shows "(\<forall>j<n. ro_used (objects g ! j) \<longrightarrow> j \<le> objects_max_index (recover_index n g)) \<and>
    (objects_max_index (recover_index n g) = 0 \<or>
      objects_max_index (recover_index n g) < n \<and> ro_used (objects g ! objects_max_index (recover_index n g)))"
proof (induction n)
  case (Suc n)
  then show ?case by (auto simp: Let_def ro_used_def less_Suc_eq)
qed (use assms in simp)

text \<open>The index after recovery is exact: it bounds the used slots and is itself 0 or used.\<close>

lemma recover_index_exact:
  assumes "0 < URT_MAX_OBJECTS g" and "g' = recover_index (URT_MAX_OBJECTS g) (g\<lparr>objects_max_index := 0\<rparr>)"
  shows "objects g' = objects g" and "g'\<lparr>objects_max_index := k\<rparr> = g\<lparr>objects_max_index := k\<rparr>"
    and "objects_max_index g' < URT_MAX_OBJECTS g" and "used_bounded g'" and "max_index_tight g'"
  using assms(1) recover_index_max [of "g\<lparr>objects_max_index := 0\<rparr>" "URT_MAX_OBJECTS g"]
  unfolding assms(2) used_bounded_def max_index_tight_def by (auto simp: recover_index_frame)

section \<open>Set-up\<close>

text \<open>The value of the global semaphore and the registry that a process finds or creates.\<close>

definition lock_value :: "posix_global \<Rightarrow> nat" where
  "lock_value w = (if sem_missing (gos w) then 1 else gsem w)"

definition found_registry :: "u64 \<Rightarrow> u64 \<Rightarrow> posix_global \<Rightarrow> urt_internal" where
  "found_registry si so w =
     (if mem_missing (gos w) \<or> \<not> initialized (gmem w)
      then snd (urt_registry_init si so (zero_memory (URT_MAX_OBJECTS (gmem w)))) else gmem w)"

definition incompatible :: "u64 \<Rightarrow> u64 \<Rightarrow> posix_global \<Rightarrow> bool" where
  "incompatible si so w \<longleftrightarrow> \<not> mem_missing (gos w) \<and> initialized (gmem w) \<and>
     \<not> (sizeof_urt_internal (gmem w) = si \<and> sizeof_urt_registered_object (gmem w) = so)"

lemma urt_init_sem_refused:
  assumes "urt_global_mem p = None" and "urt_global_sem_get URT_GLOBAL_LOCK_NAME (gos w) = ((e, None), os1)" and "e \<noteq> 0"
  shows "urt_init si so (p, w) = Some (e, p\<lparr>urt_global_sem := None\<rparr>, w\<lparr>gos := os1\<rparr>)"
  using assms by (simp add: urt_init_def urt_sys_init_def global_sem_get_def Let_def)

lemma urt_init_mem_refused:
  assumes "urt_global_mem p = None" and "urt_global_sem_get URT_GLOBAL_LOCK_NAME (gos w) = ((0, Some s), os1)"
    and "0 < lock_value w" and "urt_global_mem_get URT_GLOBAL_MEM_NAME si os1 = (Inl e, os2)"
  shows "urt_init si so (p, w) = Some (e, p\<lparr>urt_global_sem := Some s\<rparr>, w\<lparr>gos := os2, gsem := lock_value w\<rparr>)"
  using assms
  by (simp add: urt_init_def urt_sys_init_def global_sem_get_def global_mem_get_def Let_def lock_value_def
      urt_global_sem_wait_def urt_global_sem_post_def reserved_names split: if_splits)

lemma urt_init_mapped:
  assumes "urt_global_mem p = None" and "urt_global_sem_get URT_GLOBAL_LOCK_NAME (gos w) = ((0, Some s), os1)"
    and "0 < lock_value w" and "urt_global_mem_get URT_GLOBAL_MEM_NAME si os1 = (Inr q, os2)"
    and "mem_missing os1 = mem_missing (gos w)"
  shows "urt_init si so (p, w) = Some (if incompatible si so w then EBUSY else 0,
           p\<lparr>urt_global_sem := Some s, urt_global_mem := Some q\<rparr>,
           w\<lparr>gos := os2, gsem := lock_value w, gmem := found_registry si so w\<rparr>)"
  using assms
  by (simp add: urt_init_def urt_sys_init_def global_sem_get_def global_mem_get_def Let_def lock_value_def
      found_registry_def incompatible_def urt_registry_init_def zero_memory_def
      urt_global_sem_wait_def urt_global_sem_post_def reserved_names split: if_splits)

lemma registry_inv_found:
  "0 < URT_MAX_OBJECTS (gmem w) \<Longrightarrow> registry_inv (gmem w) \<or> mem_missing (gos w) \<or> \<not> initialized (gmem w) \<Longrightarrow>
   registry_inv (found_registry si so w)"
  by (auto simp: found_registry_def intro!: registry_inv_init simp: zero_memory_def)


text \<open>A process without registry on a system where nothing exists yet.\<close>

definition no_registry :: urt_proc where
  "no_registry = \<lparr>urt_global_mem = None, urt_global_sem = None\<rparr>"

definition first_start :: posix_global where
  "first_start = \<lparr>gmem = zero_memory 2, gsem = 0, gos = os_empty (\<lambda>t. 0)\<rparr>"

lemma first_start_facts:
  "os_ok (gos first_start)" "sem_missing (gos first_start)" "mem_missing (gos first_start)" "lock_value first_start = 1"
  "URT_MAX_OBJECTS (gmem first_start) = 2" "os_fault (gos first_start) t = 0" "\<not> initialized (gmem first_start)"
  by (simp_all add: first_start_def os_ok_def os_empty_def lock_value_def zero_memory_def)


section \<open>Shut-down\<close>

lemma urt_exit_run:
  assumes "urt_global_mem p = Some (m, 0)" and "urt_global_sem p = Some s"
    and "maps (gos w) m = Some (k, unat si)" and "0 < unat si"
  shows "urt_exit si (p, w) = (p\<lparr>urt_global_mem := None, urt_global_sem := None\<rparr>,
    w\<lparr>gos := urt_mem_delete (Some s) (sem_close (sem_ptr (the (sem_heap (gos w) s)))
                ((gos w)\<lparr>maps := (maps (gos w))(m := None)\<rparr>))\<rparr>)"
  using assms
  by (simp add: urt_exit_def urt_sys_exit_def global_mem_free_def global_sem_free_def urt_global_mem_free_def
      urt_global_sem_free_def munmap_whole Let_def)

text \<open>What a successful \<^verbatim>\<open>urt_init\<close> has opened, mapped and allocated.\<close>

lemma urt_init_success:
  assumes "urt_global_mem p = None" and "os_ok (gos w)" and "0 < lock_value w"
    and "urt_init si so (p, w) = Some (0, p1, w1)"
  obtains s m k where "p1 = p\<lparr>urt_global_sem := Some s, urt_global_mem := Some (m, 0)\<rparr>"
    "gsem w1 = lock_value w" "gmem w1 = found_registry si so w" "0 < unat si"
    "maps (gos w1) = (maps (gos w))(m \<mapsto> (k, unat si))" "fds (gos w1) = fds (gos w)" "maps (gos w) m = None"
    "(sem_heap (gos w1))(s := None) = sem_heap (gos w)" "(heap (gos w1))(s := None) = heap (gos w)"
    "\<not> sem_missing (gos w1)" "shm_names (gos w1) ''/$URTGM'' = Some k" "os_ok (gos w1)"
    "\<forall>n. n \<noteq> ''/$URTGM'' \<longrightarrow> shm_names (gos w1) n = shm_names (gos w) n"
proof -
  obtain e s os1 where get: "urt_global_sem_get URT_GLOBAL_LOCK_NAME (gos w) = ((e, s), os1)" by (metis prod.exhaust)
  have "e = 0 \<and> s \<noteq> None"
  proof (rule ccontr)
    assume f: "\<not> (e = 0 \<and> s \<noteq> None)"
    from global_sem_get_failure [OF assms(2) get f] urt_init_sem_refused [of p w e os1 si so] assms(1,4) get
    show False by simp
  qed
  then obtain sm where sm: "s = Some sm" "e = 0" by blast
  note get = get [unfolded sm]
  note g = global_sem_get_success [OF assms(2) get]
  obtain r os2 where mem: "urt_global_mem_get URT_GLOBAL_MEM_NAME si os1 = (r, os2)" by fastforce
  obtain q where r: "r = Inr q"
    using global_mem_get_failure [of os1 si _ os2] g mem urt_init_mem_refused [OF assms(1) get assms(3), of si _ os2 so] assms(4)
    by (cases r) auto
  have ok1: "os_ok os1" using g by blast
  obtain m k where q: "q = (m, 0)" "os_next os1 \<le> m" "0 < unat si" "maps os2 = (maps os1)(m \<mapsto> (k, unat si))"
    "fds os2 = fds os1" "shm_names os2 ''/$URTGM'' = Some k" "same_sem os1 os2"
    using global_mem_get_success [OF ok1 mem [unfolded r]] by metis
  have fresh: "maps (gos w) m = None" "heap (gos w) sm = None" "sem_heap (gos w) sm = None"
    using os_okD(2) [of os1 m] os_okD(3,6) [OF assms(2), of sm] g q(2) by (simp_all add: same_mem_def)
  have p1: "p1 = p\<lparr>urt_global_sem := Some sm, urt_global_mem := Some (m, 0)\<rparr>"
    and w1: "w1 = w\<lparr>gos := os2, gsem := lock_value w, gmem := found_registry si so w\<rparr>"
    using urt_init_mapped [OF assms(1) get assms(3) mem [unfolded r], of so] g assms(4) q(1)
    by (simp_all add: same_mem_def)
  show ?thesis
    using g q fresh global_mem_get_os [OF ok1 mem [unfolded r]]
    by (intro that [OF p1]) (simp_all add: w1 same_mem_def same_sem_def fun_upd_idem)
qed

text \<open>
  \<^verbatim>\<open>urt_exit\<close> undoes \<^verbatim>\<open>urt_init\<close> for the process and leaves what is shared. After a successful
  set-up (and only then can there be something to undo), the pointers are NULL again, the
  mappings, the descriptors and the heap are as they were before, and the registry, the
  semaphore and their names stay for the other processes. A second call does nothing.
\<close>

theorem init_then_exit:
  assumes "urt_global_mem p = None" and "os_ok (gos w)" and "0 < lock_value w"
    and "urt_init si so (p, w) = Some (0, p1, w1)" and "urt_exit si (p1, w1) = (p2, w2)"
  shows "urt_global_mem p2 = None \<and> urt_global_sem p2 = None \<and> maps (gos w2) = maps (gos w) \<and> fds (gos w2) = fds (gos w) \<and>
    heap (gos w2) = heap (gos w) \<and> sem_heap (gos w2) = sem_heap (gos w) \<and>
    gmem w2 = gmem w1 \<and> gsem w2 = lock_value w \<and> \<not> sem_missing (gos w2) \<and> \<not> mem_missing (gos w2) \<and>
    urt_exit si (p2, w2) = (p2, w2)"
proof -
  obtain s m k where p1: "p1 = p\<lparr>urt_global_sem := Some s, urt_global_mem := Some (m, 0)\<rparr>"
    and i: "gsem w1 = lock_value w" "gmem w1 = found_registry si so w" "0 < unat si"
      "maps (gos w1) = (maps (gos w))(m \<mapsto> (k, unat si))" "fds (gos w1) = fds (gos w)" "maps (gos w) m = None"
      "(sem_heap (gos w1))(s := None) = sem_heap (gos w)" "(heap (gos w1))(s := None) = heap (gos w)"
      "\<not> sem_missing (gos w1)" "shm_names (gos w1) ''/$URTGM'' = Some k"
    by (rule urt_init_success [OF assms(1-4)])
  from urt_exit_run [of p1 m s w1 k si] p1 i(3,4) assms(5)
  have p2: "p2 = p1\<lparr>urt_global_mem := None, urt_global_sem := None\<rparr>"
    and w2: "w2 = w1\<lparr>gos := urt_mem_delete (Some s) (sem_close (sem_ptr (the (sem_heap (gos w1) s))) ((gos w1)\<lparr>maps := (maps (gos w1))(m := None)\<rparr>))\<rparr>"
    by simp_all
  have ex: "urt_exit si (p2, w2) = (p2, w2)" by (simp add: urt_exit_def p2)
  have "(maps (gos w1))(m := None) = maps (gos w)" using i(4,6) by (simp add: fun_upd_idem)
  with ex i show ?thesis by (simp add: p2 w2 urt_mem_delete_def free_def sem_close_def)
qed

lemma first_start_init:
  "\<exists>p1 w1. urt_init 96 32 (no_registry, first_start) = Some (0, p1, w1) \<and> registry_inv (gmem w1) \<and> 0 < gsem w1"
proof -
  obtain s os1 where s: "urt_global_sem_get URT_GLOBAL_LOCK_NAME (gos first_start) = ((0, Some s), os1)"
    and f: "os_fault os1 = os_fault (gos first_start)"
    using global_sem_get_nofault first_start_facts(6) by blast
  obtain q os2 where "urt_global_mem_get URT_GLOBAL_MEM_NAME 96 os1 = (Inr q, os2)"
    using global_mem_get_nofault [of os1 96] f first_start_facts(6) by auto
  with urt_init_mapped [of no_registry first_start s os1 96 q os2 32] s global_sem_get_success [OF first_start_facts(1) s]
    registry_inv_found [of first_start 96 32]
  show ?thesis using first_start_facts by (simp add: no_registry_def incompatible_def same_mem_def)
qed

theorem init_then_exit_witness:
  "\<exists>p1 w1. urt_init 96 32 (no_registry, first_start) = Some (0, p1, w1) \<and>
     maps (gos (snd (urt_exit 96 (p1, w1)))) = maps (gos first_start) \<and> gsem (snd (urt_exit 96 (p1, w1))) = 1"
proof -
  obtain p1 w1 where i: "urt_init 96 32 (no_registry, first_start) = Some (0, p1, w1)" using first_start_init by blast
  obtain p2 w2 where e: "urt_exit 96 (p1, w1) = (p2, w2)" by fastforce
  from init_then_exit [OF _ _ _ i e] first_start_facts i e show ?thesis by (auto simp: no_registry_def)
qed

section \<open>Recovery\<close>

lemma urt_recover_run:
  assumes "urt_global_sem_get URT_GLOBAL_LOCK_NAME (gos w) = ((0, Some s), os1)"
    and "urt_global_mem_get URT_GLOBAL_MEM_NAME si os1 = (Inr (m, 0), os2)"
    and "\<not> mem_missing os1" and "maps os2 m = Some (k, unat si)" and "0 < unat si"
  shows "urt_recover si (p, w) = (p\<lparr>urt_global_sem := None, urt_global_mem := None\<rparr>,
    w\<lparr>gos := urt_mem_delete (Some s) (sem_close (sem_ptr (the (sem_heap os2 s))) (os2\<lparr>maps := (maps os2)(m := None)\<rparr>)),
      gsem := max 1 (lock_value w),
      gmem := recover_index (URT_MAX_OBJECTS (gmem w)) ((gmem w)\<lparr>objects_max_index := 0\<rparr>)\<rparr>)"
proof -
  have v: "(if lock_value w = 0 then 1 else lock_value w) = max 1 (lock_value w)" by simp
  show ?thesis
    using assms v
    by (simp add: urt_recover_def urt_sys_init_def urt_sys_exit_def global_sem_get_def global_mem_get_def
        global_mem_free_def global_sem_free_def urt_global_mem_free_def urt_global_sem_free_def munmap_whole
        reserved_names Let_def urt_global_sem_try_wait_def urt_global_sem_post_def lock_value_def split: if_splits)
qed

lemma urt_recover_effect:
  assumes "os_ok (gos w)" and "\<And>t. os_fault (gos w) t = 0" and "0 < unat si" and "0 \<le> sint si"
    and "\<not> mem_missing (gos w)" and "0 < URT_MAX_OBJECTS (gmem w)"
    and "urt_recover si (p, w) = (p', w')"
  shows "gsem w' = max 1 (lock_value w) \<and>
    objects_max_index (gmem w') < URT_MAX_OBJECTS (gmem w') \<and> used_bounded (gmem w') \<and> max_index_tight (gmem w') \<and>
    (gmem w')\<lparr>objects_max_index := 0\<rparr> = (gmem w)\<lparr>objects_max_index := 0\<rparr> \<and>
    (used_distinct (gmem w) \<and> gen_name (next_free_name (gmem w)) \<and> (\<forall>ro\<in>set (objects (gmem w)). length (ro_name ro) = 7)
       \<longrightarrow> registry_inv (gmem w')) \<and>
    maps (gos w') = maps (gos w) \<and> fds (gos w') = fds (gos w) \<and> heap (gos w') = heap (gos w) \<and>
    urt_global_mem p' = None \<and> urt_global_sem p' = None"
proof -
  obtain s os1 where get: "urt_global_sem_get URT_GLOBAL_LOCK_NAME (gos w) = ((0, Some s), os1)"
    and flt: "os_fault os1 = os_fault (gos w)"
    using global_sem_get_nofault [OF assms(2)] by blast
  note g = global_sem_get_success [OF assms(1) get]
  obtain q os2 where mem: "urt_global_mem_get URT_GLOBAL_MEM_NAME si os1 = (Inr q, os2)"
    using global_mem_get_nofault [of os1 si] flt assms(2-4) by auto
  obtain m k where q: "q = (m, 0)" "os_next os1 \<le> m" "maps os2 = (maps os1)(m \<mapsto> (k, unat si))"
    "fds os2 = fds os1" "same_sem os1 os2"
    using global_mem_get_success [OF _ mem] g by metis
  let ?g = "recover_index (URT_MAX_OBJECTS (gmem w)) ((gmem w)\<lparr>objects_max_index := 0\<rparr>)"
  let ?os = "urt_mem_delete (Some s) (sem_close (sem_ptr (the (sem_heap os2 s))) (os2\<lparr>maps := (maps os2)(m := None)\<rparr>))"
  from urt_recover_run [OF get mem [unfolded q(1)], of k p] q(3) g assms(3,5,7)
  have p': "p' = p\<lparr>urt_global_sem := None, urt_global_mem := None\<rparr>"
    and w': "w' = w\<lparr>gos := ?os, gsem := max 1 (lock_value w), gmem := ?g\<rparr>"
    by (simp_all add: same_mem_def)
  have fresh: "maps (gos w) m = None" "heap (gos w) s = None"
    using os_okD(2) [of os1 m] os_okD(6) [OF assms(1), of s] g q(2) by (simp_all add: same_mem_def)
  note r = recover_index_exact [OF assms(6) refl]
  have os: "maps ?os = maps (gos w)" "heap ?os = heap (gos w)" "fds ?os = fds (gos w)"
    using g q fresh by (simp_all add: urt_mem_delete_def free_def sem_close_def same_mem_def same_sem_def fun_upd_idem)
  have inv: "registry_inv ?g" if "used_distinct (gmem w)" "gen_name (next_free_name (gmem w))"
    "\<forall>ro\<in>set (objects (gmem w)). length (ro_name ro) = 7"
  proof -
    have "next_free_name ?g = next_free_name (gmem w)" using r(2) [of 0] by (metis urt_internal.ext_inject urt_internal.surjective urt_internal.update_convs(4))
    with that r(1,3,4) show ?thesis by (simp add: registry_inv_def used_distinct_def)
  qed
  show ?thesis using r os inv by (simp add: w' p' del: One_nat_def)
qed

text \<open>
  C14: \<^verbatim>\<open>urt_recover\<close> repairs what a process that died can leave behind. When the system refuses
  nothing, whatever the value of the semaphore (0 if the process died while it held it) and
  whatever the stored index, afterwards the semaphore is free and the index is exact; if the
  slots themselves are in order, the registry is consistent again. Nothing else of the registry
  changes, and the caller's mappings, descriptors and heap are as before.
\<close>

theorem urt_recover_repairs:
  assumes "os_ok (gos w)" and "\<And>t. os_fault (gos w) t = 0" and "0 < unat si" and "0 \<le> sint si"
    and "\<not> mem_missing (gos w)" and "0 < URT_MAX_OBJECTS (gmem w)"
    and "urt_recover si (p, w) = (p', w')"
  shows "0 < gsem w' \<and> (gsem w' = gsem w \<or> gsem w = 0 \<or> sem_missing (gos w)) \<and>
    objects_max_index (gmem w') < URT_MAX_OBJECTS (gmem w') \<and> used_bounded (gmem w') \<and> max_index_tight (gmem w') \<and>
    (gmem w')\<lparr>objects_max_index := 0\<rparr> = (gmem w)\<lparr>objects_max_index := 0\<rparr> \<and>
    (used_distinct (gmem w) \<and> gen_name (next_free_name (gmem w)) \<and> (\<forall>ro\<in>set (objects (gmem w)). length (ro_name ro) = 7)
       \<longrightarrow> registry_inv (gmem w')) \<and>
    maps (gos w') = maps (gos w) \<and> fds (gos w') = fds (gos w) \<and> heap (gos w') = heap (gos w) \<and>
    urt_global_mem p' = None \<and> urt_global_sem p' = None"
proof -
  have "0 < max 1 (lock_value w)" "max 1 (lock_value w) = gsem w \<or> gsem w = 0 \<or> sem_missing (gos w)"
    by (simp_all add: lock_value_def max_def)
  with urt_recover_effect [OF assms] show ?thesis by (simp del: One_nat_def)
qed

text \<open>A process died while it held the semaphore, after it had changed the index.\<close>

definition crashed :: posix_global where
  "crashed = \<lparr>gmem = (snd (urt_registry_init 96 32 (zero_memory 2)))\<lparr>objects_max_index := 1\<rparr>, gsem = 0,
     gos = (os_empty (\<lambda>t. 0))\<lparr>os_next := 2, shm_names := [''/$URTGM'' \<mapsto> 0], shm_bytes := (\<lambda>k. replicate 96 0),
        sem_names := [''/$URTGL'' \<mapsto> 1]\<rparr>\<rparr>"

lemma crashed_facts:
  "os_ok (gos crashed)" "os_fault (gos crashed) t = 0" "shm_names (gos crashed) ''/$URTGM'' = Some 0"
  "URT_MAX_OBJECTS (gmem crashed) = 2" "gsem crashed = 0" "initialized (gmem crashed)"
  "sizeof_urt_internal (gmem crashed) = 96" "length (shm_bytes (gos crashed) 0) = 96" "\<not> sem_missing (gos crashed)"
  by (simp_all add: crashed_def os_ok_def os_empty_def zero_memory_def urt_registry_init_def)

theorem urt_recover_repairs_witness:
  "gsem crashed = 0 \<and> 0 < gsem (snd (urt_recover 96 (no_registry, crashed))) \<and>
   max_index_tight (gmem (snd (urt_recover 96 (no_registry, crashed))))"
proof -
  obtain p' w' where r: "urt_recover 96 (no_registry, crashed) = (p', w')" by fastforce
  from urt_recover_repairs [OF crashed_facts(1,2) _ _ _ _ r] crashed_facts r show ?thesis by simp
qed

text \<open>
  C35: A process compiled with another layout damages the registry that it then refuses to use:
  before the sizes are compared, the segment is cut (or extended) to the size of the newcomer.
  The call fails with \<^verbatim>\<open>EBUSY\<close>, yet the pointer stays set, so that trying again reports
  \<^verbatim>\<open>EALREADY\<close>.
\<close>

theorem incompatible_init_resizes_registry:
  assumes "urt_global_mem p = None" and "os_ok (gos w)" and "0 < lock_value w" and "\<And>t. os_fault (gos w) t = 0"
    and "0 < unat si" and "0 \<le> sint si" and "shm_names (gos w) ''/$URTGM'' = Some k" and "incompatible si so w"
  shows "\<exists>p' w'. urt_init si so (p, w) = Some (EBUSY, p', w') \<and> length (shm_bytes (gos w') k) = unat si \<and>
    urt_init si so (p', w') = Some (EALREADY, p', w')"
proof -
  obtain s os1 where get: "urt_global_sem_get URT_GLOBAL_LOCK_NAME (gos w) = ((0, Some s), os1)"
    and flt: "os_fault os1 = os_fault (gos w)"
    using global_sem_get_nofault [OF assms(4)] by blast
  note g = global_sem_get_success [OF assms(2) get]
  obtain q os2 where mem: "urt_global_mem_get URT_GLOBAL_MEM_NAME si os1 = (Inr q, os2)"
    using global_mem_get_nofault [of os1 si] flt assms(4-6) by auto
  obtain j where "shm_names os2 ''/$URTGM'' = Some j" "length (shm_bytes os2 j) = unat si"
    "\<not> mem_missing os1 \<Longrightarrow> shm_names os2 = shm_names os1"
    using global_mem_get_success [OF _ mem] g by metis
  then have len: "length (shm_bytes os2 k) = unat si" using g assms(7) by (simp add: same_mem_def)
  from urt_init_mapped [OF assms(1) get assms(3) mem, of so] g assms(8) len show ?thesis
    by (simp add: same_mem_def urt_init_def [of _ _ "(_, _)"] urt_sys_init_def)
qed

theorem incompatible_init_resizes_registry_witness:
  "\<exists>p' w'. urt_init 64 32 (no_registry, crashed\<lparr>gsem := 1\<rparr>) = Some (EBUSY, p', w') \<and>
     length (shm_bytes (gos w') 0) = 64 \<and> length (shm_bytes (gos crashed) 0) = 96"
proof -
  have "incompatible 64 32 (crashed\<lparr>gsem := 1\<rparr>)" "0 < lock_value (crashed\<lparr>gsem := 1\<rparr>)"
    using crashed_facts by (simp_all add: incompatible_def lock_value_def)
  with incompatible_init_resizes_registry [of no_registry "crashed\<lparr>gsem := 1\<rparr>" 64 0 32] crashed_facts
  show ?thesis by (simp add: no_registry_def) blast
qed

end
