(* ===== verification/Urt_Crash.thy ===== *)
theory Urt_Crash
  imports Urt_Interleaving Urt_Setup
begin

text \<open>
  A process that dies inside a critical section, which is a process that takes no further step
  there: what the others can still do, and what \<^verbatim>\<open>urt_recover\<close> makes of the registry it left.
\<close>

section \<open>The registry at the moment of death\<close>

lemma max_objects_point_step [simp]: "URT_MAX_OBJECTS (gmem (snd (point_step pc w))) = URT_MAX_OBJECTS (gmem w)"
  by (cases "(pc, w)" rule: point_step.cases)
     (simp_all add: Let_def split: option.splits prod.splits)

lemma run_points_sound:
  "sound (fst x) (snd x) \<Longrightarrow> sound (fst (run_points k x)) (snd (run_points k x)) \<and>
   URT_MAX_OBJECTS (gmem (snd (run_points k x))) = URT_MAX_OBJECTS (gmem (snd x))"
  by (induction k) (simp_all add: sound_step)

lemma inside_sound:
  assumes "interleave_reachable w0 s" and "good_registry w0" and "lawful w0 (served s @ [(p, rq, out)])"
    and "procs s p = Inside rq pc"
  shows "sound pc (world s)" and "0 < URT_MAX_OBJECTS (gmem (world s))" and "gsem (world s) = 0" and "alone_inside s p rq pc"
proof -
  have g: "gsem w0 = 1" using assms(2) by (simp add: good_registry_def)
  from reachable_serialized [OF assms(1) g] obtain w1 where w1: "serialized w0 s w1" by blast
  then have h: "serial_run w0 (served s) = Some w1" by (simp add: serialized_def)
  from lawful_append [OF assms(3) h] have law: "lawful w0 (served s)" "obliged rq w1" by simp_all
  have good: "good_registry w1" using serial_run_good [OF h law(1) assms(2)] .
  from serialized_inside [OF w1 assms(4)] obtain k where
    k: "run_points k (Begin rq, w1\<lparr>gsem := 0\<rparr>) = (pc, world s)" and al: "alone_inside s p rq pc" by blast
  have "sound (Begin rq) (w1\<lparr>gsem := 0\<rparr>)"
    using good law(2) by (auto simp: good_registry_def obliged_def)
  with run_points_sound [of "(Begin rq, w1\<lparr>gsem := 0\<rparr>)" k] k
  have r: "sound pc (world s)" "URT_MAX_OBJECTS (gmem (world s)) = URT_MAX_OBJECTS (gmem w1)" by simp_all
  show "sound pc (world s)" by (rule r)
  have "objects_max_index (gmem w1) < URT_MAX_OBJECTS (gmem w1)" using good registry_invD(1) by (auto simp: good_registry_def)
  then show "0 < URT_MAX_OBJECTS (gmem (world s))" using r(2) by linarith
  show "gsem (world s) = 0" using run_points_gsem [of k "(Begin rq, w1\<lparr>gsem := 0\<rparr>)"] k by simp
  show "alone_inside s p rq pc" by (rule al)
qed

section \<open>The others\<close>

lemma point_step_moves: "fst (point_step pc w) = pc \<Longrightarrow> \<exists>out. pc = Leave out"
  by (cases "(pc, w)" rule: point_step.cases) (auto simp: Let_def split: option.splits prod.splits if_splits)

definition others_step :: "'p \<Rightarrow> ('p, 'os) urt_system \<Rightarrow> ('p, 'os) urt_system \<Rightarrow> bool" where
  "others_step p s s' \<longleftrightarrow> interleave s s' \<and> procs s' p = procs s p"

lemma others_blocked:
  assumes "others_step p s s'" and "alone_inside s p rq pc" and "gsem (world s) = 0"
  shows "world s' = world s \<and> alone_inside s' p rq pc"
proof -
  from assms(1) have st: "interleave s s'" "procs s' p = procs s p" by (simp_all add: others_step_def)
  from st(1) show ?thesis
  proof cases
    case (call q rq')
    with st(2) assms(2) show ?thesis by (auto simp: alone_inside_def split: if_splits)
  next
    case (enter q rq' w)
    with assms(3) show ?thesis by (simp add: sem_wait_run)
  next
    case (work q rq' c c' w)
    with assms(2) have "q = p" unfolding alone_inside_def by (metis inside.simps(1))
    with work st(2) point_step_moves [of c "world s"] show ?thesis by simp
  next
    case (leave q rq' out)
    with assms(2) have "q = p" unfolding alone_inside_def by (metis inside.simps(1))
    with leave st(2) show ?thesis by simp
  qed
qed

lemma others_blocked_forever:
  assumes "(others_step p)\<^sup>*\<^sup>* s s'" and "alone_inside s p rq pc" and "gsem (world s) = 0"
  shows "world s' = world s \<and> alone_inside s' p rq pc"
  using assms(1)
proof induction
  case base
  show ?case using assms(2) by simp
next
  case (step s1 s2)
  then show ?case using others_blocked [OF step(2), of rq pc] assms(3) by simp
qed

section \<open>Example states\<close>

text \<open>
  A system in order, with the name \<^verbatim>\<open>A\<close> in use. Process 0 reserves \<^verbatim>\<open>AB\<close>: it comes in, and has
  copied one character of the name; or it has copied the name and not yet raised the index.
\<close>

definition demo_posix :: posix_global where
  "demo_posix = crashed\<lparr>gmem := snd (urt_registry_init 96 32 (zero_memory 2)), gsem := 1\<rparr>"

definition demo_one :: posix_global where
  "demo_one = snd (the (urt_reserve_name ''A'' demo_posix))"

definition demo_entered :: "(nat, posix_os) urt_system" where
  "demo_entered = \<lparr>world = demo_one\<lparr>gsem := 0\<rparr>, procs = (\<lambda>p. Idle)
     (0 := Inside (Reserve_name ''AB'') (Begin (Reserve_name ''AB'')), 1 := Waiting (Get_and_inc_count ''A'')), served = []\<rparr>"

definition demo_at :: "nat \<Rightarrow> (nat, posix_os) urt_system" where
  "demo_at k = demo_entered\<lparr>world := snd (run_points k (Begin (Reserve_name ''AB''), world demo_entered)),
     procs := (procs demo_entered)(0 := Inside (Reserve_name ''AB'') (fst (run_points k (Begin (Reserve_name ''AB''), world demo_entered))))\<rparr>"

lemma demo_one_facts:
  "urt_reserve_name ''A'' demo_posix = Some (Inr 0, demo_one)"
  "objects (gmem demo_one) = [reserved_slot ''A'', ro_zero]" "objects_max_index (gmem demo_one) = 0"
  "gsem demo_one = 1" "gos demo_one = gos crashed" "good_registry demo_posix"
proof -
  have f: "find_by_name (gmem demo_posix) ''A'' = None" "find_free_slot (gmem demo_posix) = 0"
    "objects (gmem demo_posix) = [ro_zero, ro_zero]" "objects_max_index (gmem demo_posix) = 0"
    by code_simp+
  have g: "gsem demo_posix = 1" by (simp add: demo_posix_def)
  have r: "urt_reserve_name ''A'' demo_posix = Some (Inr 0, demo_posix\<lparr>gmem := put_slot 0 (reserved_slot ''A'') 0 (gmem demo_posix)\<rparr>)"
    using f g by (simp add: urt_reserve_name_run)
  then show "urt_reserve_name ''A'' demo_posix = Some (Inr 0, demo_one)" by (simp add: demo_one_def)
  show "objects (gmem demo_one) = [reserved_slot ''A'', ro_zero]" "objects_max_index (gmem demo_one) = 0"
    "gsem demo_one = 1" "gos demo_one = gos crashed"
    using r f g by (simp_all add: demo_one_def) (simp add: demo_posix_def)
  have "registry_inv (gmem demo_posix)" unfolding demo_posix_def
    using registry_inv_init [of "zero_memory 2" 96 32] by (simp add: zero_memory_def)
  with f g show "good_registry demo_posix" by (simp add: good_registry_def max_index_tight_def)
qed

lemma demo_one_good: "good_registry demo_one"
proof -
  have "serve (Reserve_name ''A'') demo_posix = Some (Return_object (Inr 0), demo_one)" by (simp add: serve_def demo_one_facts)
  from serve_good [OF this] demo_one_facts(6) show ?thesis by (simp add: obliged_def)
qed

lemma demo_at_facts:
  shows "interleave_reachable demo_one (demo_at k)" and "lawful demo_one (served (demo_at k) @ [(0, Reserve_name ''AB'', out)])"
    and "procs (demo_at k) 0 = Inside (Reserve_name ''AB'') (fst (run_points k (Begin (Reserve_name ''AB''), world demo_entered)))"
proof -
  have e: "interleave_reachable demo_one demo_entered"
    unfolding demo_entered_def by (rule entered_reachable) (simp_all add: demo_one_facts)
  have p: "procs demo_entered 0 = Inside (Reserve_name ''AB'') (Begin (Reserve_name ''AB''))" by (simp add: demo_entered_def)
  obtain pc' w' where r: "run_points k (Begin (Reserve_name ''AB''), world demo_entered) = (pc', w')" by fastforce
  from interleave_reachable_trans [OF run_alone [OF p r] e] show "interleave_reachable demo_one (demo_at k)"
    by (simp add: demo_at_def r)
  show "lawful demo_one (served (demo_at k) @ [(0, Reserve_name ''AB'', out)])"
    by (simp add: demo_at_def demo_entered_def obliged_def split: option.split)
  show "procs (demo_at k) 0 = Inside (Reserve_name ''AB'') (fst (run_points k (Begin (Reserve_name ''AB''), world demo_entered)))"
    by (simp add: demo_at_def)
qed

lemma run_points_Suc: "run_points (Suc k) (pc, w) = run_points k (point_step pc w)"
  using run_points_add [of k 1 "(pc, w)"] by simp

lemma demo_points:
  assumes "objects (gmem w) = [reserved_slot ''A'', ro_zero]" and "objects_max_index (gmem w) = 0"
  shows "run_points 8 (Begin (Reserve_name ''AB''), w) = (Copy ''AB'' 1 1, update_slot 1 (\<lambda>_. torn_slot ''AB'' 1) w)"
    and "run_points 10 (Begin (Reserve_name ''AB''), w) = (Raise_index 1, update_slot 1 (\<lambda>_. torn_slot ''AB'' 2) w)"
proof -
  have n: "name_eq (ro_name (reserved_slot ''A'')) ''AB'' = False" "ro_reserved (reserved_slot ''A'')" by code_simp+
  have c: "cname ''AB'' = ''AB''" by code_simp
  note t = torn_start [of "''AB''"] torn_next(1) [of 0 "''AB''"] torn_next(1) [of 1 "''AB''"] torn_end(2) [of 2 "''AB''"]
  show first: "run_points 8 (Begin (Reserve_name ''AB''), w) = (Copy ''AB'' 1 1, update_slot 1 (\<lambda>_. torn_slot ''AB'' 1) w)"
    using assms n t c by (simp add: eval_nat_numeral run_points_Suc update_slot_twice del: run_points_simps(2))
  have "run_points 10 (Begin (Reserve_name ''AB''), w) = run_points 2 (run_points 8 (Begin (Reserve_name ''AB''), w))"
    using run_points_add [of 2 8] by simp
  also have "\<dots> = (Raise_index 1, update_slot 1 (\<lambda>_. torn_slot ''AB'' 2) w)"
    unfolding first using assms t c
    by (simp add: eval_nat_numeral run_points_Suc update_slot_twice del: run_points_simps(2))
  finally show "run_points 10 (Begin (Reserve_name ''AB''), w) = (Raise_index 1, update_slot 1 (\<lambda>_. torn_slot ''AB'' 2) w)" .
qed

lemma demo_at_points:
  "procs (demo_at 8) 0 = Inside (Reserve_name ''AB'') (Copy ''AB'' 1 1)"
  "procs (demo_at 10) 0 = Inside (Reserve_name ''AB'') (Raise_index 1)"
  "gos (world (demo_at 8)) = gos crashed" "gos (world (demo_at 10)) = gos crashed"
  "objects (gmem (world (demo_at 8))) ! 0 = reserved_slot ''A''" "URT_MAX_OBJECTS (gmem (world (demo_at 8))) = 2"
proof -
  have e: "objects (gmem (world demo_entered)) = [reserved_slot ''A'', ro_zero]" "objects_max_index (gmem (world demo_entered)) = 0"
    "gos (world demo_entered) = gos crashed"
    by (simp_all add: demo_entered_def demo_one_facts)
  note p = demo_points [OF e(1,2)]
  show "procs (demo_at 8) 0 = Inside (Reserve_name ''AB'') (Copy ''AB'' 1 1)"
    "procs (demo_at 10) 0 = Inside (Reserve_name ''AB'') (Raise_index 1)"
    "gos (world (demo_at 8)) = gos crashed" "gos (world (demo_at 10)) = gos crashed"
    "objects (gmem (world (demo_at 8))) ! 0 = reserved_slot ''A''" "URT_MAX_OBJECTS (gmem (world (demo_at 8))) = 2"
    using e by (simp_all add: demo_at_def p objects_ro_update)
qed

section \<open>Properties\<close>

text \<open>
  C15: A process dies inside a critical section of the registry, at any program point except while it
  copies a name into a slot. Then all other processes are stuck: whatever they do, the shared
  state does not change any more. \<^verbatim>\<open>urt_recover\<close>, when the system refuses nothing, frees the semaphore
  and makes the registry consistent again, with an exact index, although the operation was left
  halfway; it does not touch the slots.
\<close>

theorem recovery_after_crash:
  fixes s :: "('p, posix_os) urt_system"
  assumes "interleave_reachable w0 s" and "good_registry w0" and "lawful w0 (served s @ [(p, rq, out)])"
    and "procs s p = Inside rq pc" and "\<not> copying pc"
    and "os_ok (gos (world s))" and "\<And>t. os_fault (gos (world s)) t = 0" and "0 < unat si" and "0 \<le> sint si"
    and "\<not> mem_missing (gos (world s))" and "urt_recover si (q, world s) = (q', w')"
  shows "(\<forall>s'. (others_step p)\<^sup>*\<^sup>* s s' \<longrightarrow> world s' = world s) \<and>
    gsem w' = 1 \<and> registry_inv (gmem w') \<and> max_index_tight (gmem w') \<and> objects (gmem w') = objects (gmem (world s))"
proof -
  note i = inside_sound [OF assms(1-4)]
  have ok: "slots_ok (gmem (world s))" using sound_slots_ok [OF i(1) assms(5)] .
  then have "\<forall>ro\<in>set (objects (gmem (world s))). length (ro_name ro) = 7" by (auto simp: slots_ok_def in_set_conv_nth)
  with ok i(3) urt_recover_effect [OF assms(6-10) i(2) assms(11)]
  have r: "gsem w' = 1" "registry_inv (gmem w')" "max_index_tight (gmem w')"
    "(gmem w')\<lparr>objects_max_index := 0\<rparr> = (gmem (world s))\<lparr>objects_max_index := 0\<rparr>"
    by (auto simp: slots_ok_def lock_value_def)
  from r(4) have "objects (gmem w') = objects (gmem (world s))" by (metis urt_internal.select_convs(3) urt_internal.surjective urt_internal.update_convs(4))
  with r others_blocked_forever [OF _ i(4,3)] show ?thesis by blast
qed

theorem recovery_after_crash_witness:
  "gsem (snd (urt_recover 96 (no_registry, world (demo_at 10)))) = 1 \<and>
   registry_inv (gmem (snd (urt_recover 96 (no_registry, world (demo_at 10)))))"
proof -
  obtain q' w' where r: "urt_recover 96 (no_registry, world (demo_at 10)) = (q', w')" by fastforce
  have "gsem w' = 1 \<and> registry_inv (gmem w')"
    using recovery_after_crash [OF demo_at_facts(1) demo_one_good demo_at_facts(2) demo_at_points(2) _ _ _ _ _ _ r] crashed_facts
    by (simp add: demo_at_points(4))
  with r show ?thesis by simp
qed

text \<open>
  C33: While a name is being copied, the slot is already reserved but carries a part of the name. If
  the process dies there and the part is the name of another object, recovery leaves two slots
  in use with one name, although it has just freed the semaphore.
\<close>

theorem torn_reservation_duplicates_name:
  fixes s :: "('p, posix_os) urt_system"
  assumes "interleave_reachable w0 s" and "good_registry w0" and "lawful w0 (served s @ [(p, rq, out)])"
    and "procs s p = Inside rq (Copy n i k)"
    and "j < URT_MAX_OBJECTS (gmem (world s))" and "j \<noteq> i" and "ro_used (objects (gmem (world s)) ! j)"
    and "cname (ro_name (objects (gmem (world s)) ! j)) = take k (cname n)"
    and "os_ok (gos (world s))" and "\<And>t. os_fault (gos (world s)) t = 0" and "0 < unat si" and "0 \<le> sint si"
    and "\<not> mem_missing (gos (world s))" and "urt_recover si (q, world s) = (q', w')"
  shows "gsem w' = 1 \<and> ro_used (objects (gmem w') ! i) \<and> ro_used (objects (gmem w') ! j) \<and>
    cname (ro_name (objects (gmem w') ! i)) = cname (ro_name (objects (gmem w') ! j)) \<and> \<not> registry_inv (gmem w')"
proof -
  note i = inside_sound [OF assms(1-4)]
  from i(3) urt_recover_effect [OF assms(9-13) i(2) assms(14)]
  have r: "gsem w' = 1" "(gmem w')\<lparr>objects_max_index := 0\<rparr> = (gmem (world s))\<lparr>objects_max_index := 0\<rparr>"
    by (auto simp: lock_value_def)
  from r(2) have o: "objects (gmem w') = objects (gmem (world s))"
    by (metis urt_internal.select_convs(3) urt_internal.surjective urt_internal.update_convs(4))
  have t: "objects (gmem w') ! i = torn_slot n k" "k \<le> length (cname n)" "i < URT_MAX_OBJECTS (gmem w')"
    using i(1) o by simp_all
  have same: "ro_used (objects (gmem w') ! i)" "cname (ro_name (objects (gmem w') ! i)) = cname (ro_name (objects (gmem w') ! j))"
    using t torn_slot_used torn_name(2) [OF t(2)] assms(8) o by simp_all
  have "\<not> used_distinct (gmem w')"
    using used_distinctD [of "gmem w'" i j] same t(3) assms(5-7) o by auto
  with r(1) same o assms(7) show ?thesis by (auto simp: registry_inv_def)
qed

theorem torn_reservation_duplicates_name_witness:
  "gsem (snd (urt_recover 96 (no_registry, world (demo_at 8)))) = 1 \<and>
   \<not> registry_inv (gmem (snd (urt_recover 96 (no_registry, world (demo_at 8)))))"
proof -
  obtain q' w' where r: "urt_recover 96 (no_registry, world (demo_at 8)) = (q', w')" by fastforce
  have n: "cname (ro_name (reserved_slot ''A'')) = take 1 (cname ''AB'')" "ro_used (reserved_slot ''A'')" by code_simp+
  have "gsem w' = 1 \<and> \<not> registry_inv (gmem w')"
    using torn_reservation_duplicates_name [OF demo_at_facts(1) demo_one_good demo_at_facts(2) demo_at_points(1) _ _ _ _ _ _ _ _ _ r, of 0]
      crashed_facts n
    by (simp add: demo_at_points(3,5,6))
  with r show ?thesis by simp
qed

end
