(* ===== verification/Urt_Session.thy ===== *)
theory Urt_Session
  imports Shmem_Users Urt_Setup
begin

text \<open>
  A whole session of an application with the POSIX back-end: \<^verbatim>\<open>urt_init\<close>, any use of shared memories by its
  threads, \<^verbatim>\<open>urt_exit\<close>. It joins the theories on set-up and on the users of shared memories.
\<close>

section \<open>What the use of shared memories leaves alone\<close>











section \<open>The session invariant\<close>













section \<open>Properties\<close>





end
