(* ===== verification/Urt_Param.thy ===== *)
theory Urt_Param
  imports Urt_Prelude "HOL-Library.Char_ord"
begin

text \<open>
  Command line parameters of applications (\<^verbatim>\<open>src/param.c\<close>). A parameter is a record with the
  contents of its variable; an argument is a character list without NUL. The conversions work
  on 64-bit values as the C library returns them. Messages are not modelled.

  The lemmas characterise \<^verbatim>\<open>strtol\<close> on printed numbers, the range checks of the seven integer
  types, the matching of names, and parsing of scalar and array arguments as the inverse of
  printing them.
\<close>

section \<open>C library\<close>

definition isspace :: "char \<Rightarrow> bool" where
  "isspace c \<longleftrightarrow> c = CHR '' '' \<or> (CHR 0x09 \<le> c \<and> c \<le> CHR 0x0D)"

definition isdigit :: "char \<Rightarrow> bool" where
  "isdigit c \<longleftrightarrow> CHR ''0'' \<le> c \<and> c \<le> CHR ''9''"

definition digit_of :: "char \<Rightarrow> nat" where
  "digit_of c = of_char c - of_char CHR ''0''"

definition decimal :: "string \<Rightarrow> nat" where
  "decimal ds = foldl (\<lambda>a c. 10 * a + digit_of c) 0 ds"

text \<open>
  What \<^verbatim>\<open>strtol\<close> and \<^verbatim>\<open>strtoul\<close> with base 10 read: white space, a sign, digits. Without
  digits the value is 0.
\<close>

definition read_number :: "string \<Rightarrow> bool \<times> nat" where
  "read_number s =
     (let s1 = dropWhile isspace s;
          neg = (s1 \<noteq> [] \<and> hd s1 = CHR ''-'');
          s2 = (if s1 \<noteq> [] \<and> (hd s1 = CHR ''-'' \<or> hd s1 = CHR ''+'') then tl s1 else s1)
      in (neg, decimal (takeWhile isdigit s2)))"

text \<open>The result is the value as a 64-bit word and \<^verbatim>\<open>errno\<close>.\<close>

definition strtol :: "string \<Rightarrow> u64 \<times> int" where
  "strtol s =
     (let (neg, n) = read_number s; v = (if neg then - int n else int n) in
      if v < - (2 ^ 63) then (of_int (- (2 ^ 63)), ERANGE)
      else if v \<ge> 2 ^ 63 then (of_int (2 ^ 63 - 1), ERANGE)
      else (of_int v, 0))"

definition strtoul :: "string \<Rightarrow> u64 \<times> int" where
  "strtoul s =
     (let (neg, n) = read_number s in
      if int n \<ge> 2 ^ 64 then (-1, ERANGE)
      else (if neg then - of_nat n else of_nat n, 0))"

text \<open>\<^verbatim>\<open>strchr(value, delim) + 1\<close>, the empty string when there is none.\<close>

definition get_next_value :: "string \<Rightarrow> char \<Rightarrow> string" where
  "get_next_value value delim = tl (dropWhile (\<lambda>c. c \<noteq> delim) value)"

section \<open>Parameters\<close>

datatype pvalue = VInt int | VBool bool | VStr string

text \<open>
  \<^verbatim>\<open>var\<close> is the array the parameter points to; \<^verbatim>\<open>nump\<close> is the variable it points to, if any.
  \<open>copies\<close> counts the blocks allocated for strings and not freed.
\<close>

record urt_module_param =
  p_name :: string
  p_type :: string
  p_desc :: string
  p_max :: nat
  p_var :: "pvalue list"
  p_num :: nat
  p_nump :: "nat option"
  p_is_array :: bool
  p_copies :: nat

text \<open>
  The macros that make up the table of an application: a fake entry of zeros, then one entry
  per parameter. \<open>v\<close> is the variable; \<^verbatim>\<open>max\<close> is its size in bytes for a scalar and the number of elements for an array.
\<close>

definition URT_MODULE_PARAM_START :: "urt_module_param list" where
  "URT_MODULE_PARAM_START = [\<lparr>p_name = [], p_type = [], p_desc = [], p_max = 0, p_var = [], p_num = 0, p_nump = None,
     p_is_array = False, p_copies = 0\<rparr>]"

definition URT_MODULE_PARAM_COMMON ::
    "string \<Rightarrow> pvalue list \<Rightarrow> string \<Rightarrow> nat option \<Rightarrow> string \<Rightarrow> bool \<Rightarrow> nat \<Rightarrow> urt_module_param" where
  "URT_MODULE_PARAM_COMMON nam v typ nump dsc ia mx = \<lparr>p_name = nam, p_type = typ, p_desc = dsc, p_max = mx, p_var = v,
     p_num = 0, p_nump = nump, p_is_array = ia, p_copies = 0\<rparr>"

definition URT_MODULE_PARAM :: "string \<Rightarrow> pvalue \<Rightarrow> nat \<Rightarrow> string \<Rightarrow> string \<Rightarrow> urt_module_param" where
  "URT_MODULE_PARAM nam v sz typ desc = URT_MODULE_PARAM_COMMON nam [v] typ None desc False sz"

definition URT_MODULE_PARAM_ARRAY :: "string \<Rightarrow> pvalue list \<Rightarrow> string \<Rightarrow> nat option \<Rightarrow> string \<Rightarrow> urt_module_param" where
  "URT_MODULE_PARAM_ARRAY nam v typ nump desc = URT_MODULE_PARAM_COMMON nam v typ nump desc True (length v)"

type_synonym converter = "urt_module_param \<Rightarrow> string \<Rightarrow> nat \<Rightarrow> int \<times> urt_module_param"

text \<open>The output of \<^verbatim>\<open>show_help\<close>, line by line. The first entry of the table is a fake.\<close>

definition show_help :: "urt_module_param list \<Rightarrow> string \<Rightarrow> string list" where
  "show_help params prog = (''usage:          '' @ prog @ '' [OPTION[=VALUE]]'') #
     map (\<lambda>param. ''parm:           '' @ p_name param @ '':'' @ p_desc param @ '' (''
            @ (if p_is_array param then ''array of '' else '''') @ p_type param @ '')'') (tl params)"

definition param_matches :: "string \<Rightarrow> string \<Rightarrow> bool" where
  "param_matches param_name value =
     (let k = for_break (\<lambda>k. \<not> (c_at param_name k = (if c_at value k = CHR ''-'' then CHR ''_'' else c_at value k)
                \<and> c_at param_name k \<noteq> NUL \<and> c_at value k \<noteq> NUL \<and> c_at value k \<noteq> CHR ''=''))
              0 (length param_name + length value + 1)
      in c_at param_name k = c_at value k \<or> (c_at param_name k = NUL \<and> c_at value k = CHR ''=''))"

text \<open>\<^verbatim>\<open>TO_X\<close>: \<open>cast\<close> is \<^verbatim>\<open>(bigtype)(type)temp\<close>, \<open>store\<close> the value stored for \<^verbatim>\<open>temp\<close>.\<close>

definition TO_X :: "(string \<Rightarrow> u64 \<times> int) \<Rightarrow> (u64 \<Rightarrow> u64) \<Rightarrow> (u64 \<Rightarrow> int) \<Rightarrow> converter" where
  "TO_X cnv cast store param value index =
     (if value = [] then (EINVAL, param)
      else (let (temp, errno) = cnv value in
        if errno \<noteq> 0 then (errno, param)
        else if cast temp \<noteq> temp then (ERANGE, param)
        else (0, param\<lparr>p_var := (p_var param)[index := VInt (store temp)]\<rparr>)))"

definition to_byte :: converter where
  "to_byte = TO_X strtoul (\<lambda>t. ucast (ucast t :: 8 word)) uint"
definition to_short :: converter where
  "to_short = TO_X strtol (\<lambda>t. scast (ucast t :: 16 word)) sint"
definition to_ushort :: converter where
  "to_ushort = TO_X strtoul (\<lambda>t. ucast (ucast t :: 16 word)) uint"
definition to_int :: converter where
  "to_int = TO_X strtol (\<lambda>t. scast (ucast t :: 32 word)) sint"
definition to_uint :: converter where
  "to_uint = TO_X strtoul (\<lambda>t. ucast (ucast t :: 32 word)) uint"
definition to_long :: converter where
  "to_long = TO_X strtol (\<lambda>t. t) sint"
definition to_ulong :: converter where
  "to_ulong = TO_X strtoul (\<lambda>t. t) uint"

text \<open>\<open>mem n\<close> tells whether the allocation of \<open>n\<close> bytes succeeds.\<close>

definition to_charp :: "(nat \<Rightarrow> bool) \<Rightarrow> converter" where
  "to_charp mem param value index =
     (let copy = (if p_is_array param then takeWhile (\<lambda>c. c \<noteq> CHR '','') value else value) in
      if \<not> mem (length copy + 1) then (ENOMEM, param)
      else (0, param\<lparr>p_var := (p_var param)[index := VStr copy], p_copies := p_copies param + 1\<rparr>))"

text \<open>The third comparison of the condition is with the character of code 1.\<close>

definition extract_bool :: "string \<Rightarrow> int + bool" where
  "extract_bool str =
     (if c_at str 0 = NUL then Inr True
      else if c_at str 0 \<noteq> CHR ''0'' \<and> c_at str 0 \<noteq> CHR 0x01 \<and> c_at str 0 \<noteq> CHR ''y'' \<and> c_at str 0 \<noteq> CHR ''n''
        \<and> c_at str 0 \<noteq> CHR ''Y'' \<and> c_at str 0 \<noteq> CHR ''N'' then Inl EINVAL
      else Inr (c_at str 0 = CHR ''1'' \<or> c_at str 0 = CHR ''y'' \<or> c_at str 0 = CHR ''Y''))"

definition to_bool :: converter where
  "to_bool param value index =
     (case extract_bool value of
        Inl e \<Rightarrow> (e, param)
      | Inr b \<Rightarrow> (0, param\<lparr>p_var := (p_var param)[index := VBool b]\<rparr>))"

definition to_invbool :: converter where
  "to_invbool param value index =
     (case extract_bool value of
        Inl e \<Rightarrow> (e, param)
      | Inr b \<Rightarrow> (0, param\<lparr>p_var := (p_var param)[index := VBool (\<not> b)]\<rparr>))"

definition select_convert :: "(nat \<Rightarrow> bool) \<Rightarrow> string \<Rightarrow> converter option" where
  "select_convert mem ty =
     (if ty = ''byte'' then Some to_byte
      else if ty = ''short'' then Some to_short
      else if ty = ''ushort'' then Some to_ushort
      else if ty = ''int'' then Some to_int
      else if ty = ''uint'' then Some to_uint
      else if ty = ''long'' then Some to_long
      else if ty = ''ulong'' then Some to_ulong
      else if ty = ''charp'' then Some (to_charp mem)
      else if ty = ''bool'' then Some to_bool
      else if ty = ''_Bool'' then Some to_bool
      else if ty = ''invbool'' then Some to_invbool
      else None)"

section \<open>Parsing\<close>

lemma length_get_next_value: "s \<noteq> [] \<Longrightarrow> length (get_next_value s d) < length s"
proof -
  assume "s \<noteq> []"
  then have "0 < length s" by simp
  moreover have "length (dropWhile (\<lambda>c. c \<noteq> d) s) \<le> length s" by (rule length_dropWhile_le)
  ultimately show ?thesis unfolding get_next_value_def length_tl by linarith
qed

lemma get_next_value_Nil [simp]: "get_next_value [] d = []"
  by (simp add: get_next_value_def)

text \<open>The \<^verbatim>\<open>do ... while\<close> loop over the values; the result is \<^verbatim>\<open>err\<close>, the parameter and \<^verbatim>\<open>index\<close>.\<close>

function parse_values :: "converter \<Rightarrow> urt_module_param \<Rightarrow> string \<Rightarrow> nat \<Rightarrow> int \<times> urt_module_param \<times> nat" where
  "parse_values convert param value index =
     (if index \<ge> p_max param then (E2BIG, param, index)
      else (let r = convert param value index; value' = get_next_value value CHR '','' in
        if fst r = 0 \<and> p_is_array (snd r) \<and> value' \<noteq> []
        then parse_values convert (snd r) value' (Suc index)
        else (fst r, snd r, Suc index)))"
  by pat_completeness auto
termination
  by (relation "measure (\<lambda>(c, p, v, i). length v)") (auto intro: length_get_next_value)

declare parse_values.simps [simp del]

text \<open>
  \<open>beyond\<close> is what stands in memory after the argument. A value that consists of a single quote
  is taken for a value in quotes: the quote is overwritten with the terminator and the pointer
  moved past it. The last component of the result is the argument as it is left.
\<close>

definition parse_arg :: "(nat \<Rightarrow> bool) \<Rightarrow> string \<Rightarrow> urt_module_param \<Rightarrow> string \<Rightarrow> int \<times> urt_module_param \<times> string" where
  "parse_arg mem beyond param arg =
     (let value = get_next_value arg CHR ''='';
          quoted = (c_at value 0 = CHR 0x22 \<and> last arg = CHR 0x22);
          value' = (if quoted then (if length value = 1 then beyond else butlast (tl value)) else value);
          arg' = (if quoted then butlast arg else arg)
      in case select_convert mem (p_type param) of
           None \<Rightarrow> (EINVAL, param, arg')
         | Some convert \<Rightarrow>
             (case parse_values convert param value' 0 of
                (err, param', index) \<Rightarrow>
                  (err, if err = 0 then param'\<lparr>p_num := index, p_nump := map_option (\<lambda>n. index) (p_nump param')\<rparr>
                        else param', arg')))"

text \<open>The loop over the parameters for one argument: \<open>(matches_any, *err)\<close> and the argument.\<close>

fun match_params :: "(nat \<Rightarrow> bool) \<Rightarrow> string \<Rightarrow> urt_module_param list \<Rightarrow> string \<Rightarrow> bool \<Rightarrow> int
    \<Rightarrow> urt_module_param list \<times> bool \<times> int" where
  "match_params mem beyond [] arg any err = ([], any, err)"
| "match_params mem beyond (param # params) arg any err =
     (if param_matches (p_name param) arg
      then (let (e, param', arg') = parse_arg mem beyond param arg;
                (ps, any', err') = match_params mem beyond params arg' True (if e \<noteq> 0 then e else err)
            in (param' # ps, any', err'))
      else (let (ps, any', err') = match_params mem beyond params arg any err
            in (param # ps, any', err')))"

text \<open>
  The loop over the arguments; what stands beyond an argument is the next one. The result is
  the return value, \<^verbatim>\<open>*err\<close> and the parameters.
\<close>

fun parse_args_from :: "(nat \<Rightarrow> bool) \<Rightarrow> urt_module_param list \<Rightarrow> string list \<Rightarrow> int \<Rightarrow> int \<times> int \<times> urt_module_param list" where
  "parse_args_from mem params [] err = (err, err, params)"
| "parse_args_from mem params (arg # argv) err =
     (if arg = ''--help'' \<or> arg = ''-h'' then (-1, err, params)
      else (let (ps, any, err') = match_params mem (case argv of [] \<Rightarrow> [] | a # _ \<Rightarrow> a) (tl params) arg False err
            in parse_args_from mem (take 1 params @ ps) argv (if any then err' else EINVAL)))"

definition reset_nump :: "urt_module_param \<Rightarrow> urt_module_param" where
  "reset_nump param = (if p_is_array param then param\<lparr>p_nump := map_option (\<lambda>n. 0) (p_nump param)\<rparr> else param)"

definition urt_parse_args :: "(nat \<Rightarrow> bool) \<Rightarrow> urt_module_param list \<Rightarrow> string list \<Rightarrow> int \<times> int \<times> urt_module_param list" where
  "urt_parse_args mem params argv =
     parse_args_from mem (take 1 params @ map reset_nump (tl params)) (tl argv) 0"

definition urt_free_args :: "urt_module_param list \<Rightarrow> urt_module_param list" where
  "urt_free_args params = take 1 params @
     map (\<lambda>param. if p_type param = ''charp'' then param\<lparr>p_copies := p_copies param - p_num param\<rparr> else param) (tl params)"

section \<open>Numbers\<close>

text \<open>Decimal notation.\<close>

definition digit_char :: "nat \<Rightarrow> char" where
  "digit_char d = char_of (d + 48)"

function dec_nat :: "nat \<Rightarrow> string" where
  "dec_nat n = (if n < 10 then [digit_char n] else dec_nat (n div 10) @ [digit_char (n mod 10)])"
  by pat_completeness auto
termination by (relation "measure id") auto

declare dec_nat.simps [simp del]

definition dec_int :: "int \<Rightarrow> string" where
  "dec_int n = (if n < 0 then CHR ''-'' # dec_nat (nat (- n)) else dec_nat (nat n))"

lemma digit_char_cases: "d < 10 \<Longrightarrow> d \<in> {0, 1, 2, 3, 4, 5, 6, 7, 8, 9 :: nat}"
  by auto

lemma digit_char_facts:
  assumes "d < 10"
  shows "isdigit (digit_char d)" "digit_of (digit_char d) = d" "\<not> isspace (digit_char d)"
    "digit_char d \<noteq> CHR ''-''" "digit_char d \<noteq> CHR ''+''" "digit_char d \<noteq> CHR '',''"
proof -
  have "\<forall>d\<in>{0, 1, 2, 3, 4, 5, 6, 7, 8, 9}. isdigit (digit_char d) \<and> digit_of (digit_char d) = d
      \<and> \<not> isspace (digit_char d) \<and> digit_char d \<noteq> CHR ''-'' \<and> digit_char d \<noteq> CHR ''+'' \<and> digit_char d \<noteq> CHR '',''"
    by code_simp
  from bspec [OF this digit_char_cases [OF assms]] show "isdigit (digit_char d)" "digit_of (digit_char d) = d" "\<not> isspace (digit_char d)"
    "digit_char d \<noteq> CHR ''-''" "digit_char d \<noteq> CHR ''+''" "digit_char d \<noteq> CHR '',''" by blast+
qed

lemma dec_nat_chars: "list_all (\<lambda>c. isdigit c \<and> \<not> isspace c \<and> c \<noteq> CHR ''-'' \<and> c \<noteq> CHR ''+'' \<and> c \<noteq> CHR '','') (dec_nat n)"
proof (induction n rule: dec_nat.induct)
  case (1 n)
  then show ?case by (simp add: dec_nat.simps [of n] digit_char_facts)
qed

lemma dec_nat_not_Nil [simp]: "dec_nat n \<noteq> []"
  by (simp add: dec_nat.simps [of n])

lemma decimal_dec_nat: "decimal (dec_nat n) = n"
proof (induction n rule: dec_nat.induct)
  case (1 n)
  then show ?case by (simp add: dec_nat.simps [of n] digit_char_facts decimal_def)
qed

text \<open>A number followed by something that is not a digit is read back.\<close>

lemma read_number_dec:
  assumes "rest = [] \<or> \<not> isdigit (hd rest)"
  shows "read_number (dec_int n @ rest) = (n < 0, nat \<bar>n\<bar>)"
proof -
  have tw: "takeWhile isdigit (dec_nat m @ rest) = dec_nat m" for m
  proof -
    have "takeWhile isdigit rest = []" using assms by (cases rest) auto
    then show ?thesis using dec_nat_chars [of m] by (subst takeWhile_append2) (auto simp: list_all_iff)
  qed
  have hd: "\<not> isspace (hd (dec_nat m))" "hd (dec_nat m) \<noteq> CHR ''-''" "hd (dec_nat m) \<noteq> CHR ''+''" for m
    using dec_nat_chars [of m] by (cases "dec_nat m"; force)+
  have dw: "dropWhile isspace (dec_nat m @ rest) = dec_nat m @ rest" for m
    using hd(1) [of m] by (cases "dec_nat m") auto
  have sp: "\<not> isspace CHR ''-''" by code_simp
  show ?thesis
  proof (cases "n < 0")
    case True
    then show ?thesis by (simp add: read_number_def dec_int_def sp tw decimal_dec_nat)
  next
    case False
    then show ?thesis
      using hd(2,3) [of "nat n"] by (simp add: read_number_def dec_int_def dw tw decimal_dec_nat)
  qed
qed

lemma strtol_dec:
  assumes "rest = [] \<or> \<not> isdigit (hd rest)"
  shows "strtol (dec_int n @ rest) =
    (if n < - (2 ^ 63) then (of_int (- (2 ^ 63)), ERANGE)
     else if n \<ge> 2 ^ 63 then (of_int (2 ^ 63 - 1), ERANGE) else (of_int n, 0))"
proof -
  have v: "(if n < 0 then - int (nat \<bar>n\<bar>) else int (nat \<bar>n\<bar>)) = n" by simp
  show ?thesis unfolding strtol_def read_number_dec [OF assms] Let_def prod.case v ..
qed

lemma strtoul_dec:
  assumes "rest = [] \<or> \<not> isdigit (hd rest)" and "0 \<le> n"
  shows "strtoul (dec_int n @ rest) = (if n \<ge> 2 ^ 64 then (-1, ERANGE) else (of_int n, 0))"
  using assms(2) by (simp add: strtoul_def read_number_dec [OF assms(1)] of_nat_nat le_nat_iff)

section \<open>The integer types\<close>

definition ends_number :: "string \<Rightarrow> bool" where
  "ends_number rest \<longleftrightarrow> rest = [] \<or> \<not> isdigit (hd rest)"

lemma ends_number_simps [simp]: "ends_number []" "ends_number (CHR '','' # s)"
proof -
  have "\<not> isdigit CHR '',''" by code_simp
  then show "ends_number (CHR '','' # s)" by (simp add: ends_number_def)
qed (simp add: ends_number_def)

lemma dec_int_not_Nil [simp]: "dec_int n \<noteq> []"
  by (simp add: dec_int_def)

text \<open>
  What the parser relies on for an integer type: numbers in the range of the type, in decimal
  notation, are stored; numbers that the type does not have are refused and nothing changes.
\<close>

locale integer_converter =
  fixes conv :: converter and lo hi :: int
  assumes accept: "lo \<le> n \<Longrightarrow> n \<le> hi \<Longrightarrow> ends_number rest \<Longrightarrow>
      conv param (dec_int n @ rest) i = (0, param\<lparr>p_var := (p_var param)[i := VInt n]\<rparr>)"
    and refuse: "0 \<le> n \<or> lo < 0 \<Longrightarrow> \<not> (lo \<le> n \<and> n \<le> hi) \<Longrightarrow> ends_number rest \<Longrightarrow>
      conv param (dec_int n @ rest) i = (ERANGE, param)"

lemma TO_X_unsigned:
  assumes "\<And>t. cast t = t \<longleftrightarrow> uint t \<le> hi" and "0 \<le> hi" and "hi < 2 ^ 64"
  shows "integer_converter (TO_X strtoul cast uint) 0 hi"
proof
  fix n rest param i
  assume n: "0 \<le> n" "n \<le> hi" and rest: "ends_number rest"
  then have "strtoul (dec_int n @ rest) = (of_int n, 0)" using assms(3) strtoul_dec by (simp add: ends_number_def)
  moreover have "uint (of_int n :: u64) = n" using n assms(3) by (intro uint_u64_of_int) simp_all
  ultimately show "TO_X strtoul cast uint param (dec_int n @ rest) i = (0, param\<lparr>p_var := (p_var param)[i := VInt n]\<rparr>)"
    using assms(1) n by (simp add: TO_X_def)
next
  fix n rest param i
  assume n: "0 \<le> n \<or> (0 :: int) < 0" "\<not> (0 \<le> n \<and> n \<le> hi)" and rest: "ends_number rest"
  then have n': "0 \<le> n" "hi < n" by auto
  show "TO_X strtoul cast uint param (dec_int n @ rest) i = (ERANGE, param)"
  proof (cases "n < 2 ^ 64")
    case True
    then have "strtoul (dec_int n @ rest) = (of_int n, 0)" using n' rest strtoul_dec by (simp add: ends_number_def)
    moreover have "uint (of_int n :: u64) = n" using n' True by (intro uint_u64_of_int)
    ultimately show ?thesis using assms(1) n' by (simp add: TO_X_def)
  next
    case False
    then have "strtoul (dec_int n @ rest) = (-1, ERANGE)" using n' rest strtoul_dec by (simp add: ends_number_def)
    then show ?thesis by (simp add: TO_X_def)
  qed
qed

lemma TO_X_signed:
  assumes "\<And>t. cast t = t \<longleftrightarrow> lo \<le> sint t \<and> sint t \<le> hi" and "- (2 ^ 63) \<le> lo" and "hi < 2 ^ 63"
  shows "integer_converter (TO_X strtol cast sint) lo hi"
proof
  fix n rest param i
  assume n: "lo \<le> n" "n \<le> hi" and rest: "ends_number rest"
  then have r: "- (2 ^ 63) \<le> n" "n < 2 ^ 63" using assms(2,3) by simp_all
  then have "strtol (dec_int n @ rest) = (of_int n, 0)" using rest strtol_dec [of rest n] by (simp add: ends_number_def)
  moreover have "sint (of_int n :: u64) = n" using r by (rule sint_u64_of_int)
  ultimately show "TO_X strtol cast sint param (dec_int n @ rest) i = (0, param\<lparr>p_var := (p_var param)[i := VInt n]\<rparr>)"
    using assms(1) n by (simp add: TO_X_def)
next
  fix n rest param i
  assume n: "\<not> (lo \<le> n \<and> n \<le> hi)" and rest: "ends_number rest"
  show "TO_X strtol cast sint param (dec_int n @ rest) i = (ERANGE, param)"
  proof (cases "- (2 ^ 63) \<le> n \<and> n < 2 ^ 63")
    case True
    then have "strtol (dec_int n @ rest) = (of_int n, 0)" using rest strtol_dec [of rest n] by (simp add: ends_number_def)
    moreover have "sint (of_int n :: u64) = n" using True by (intro sint_u64_of_int) simp_all
    ultimately show ?thesis using assms(1) n by (auto simp: TO_X_def)
  next
    case False
    then have "snd (strtol (dec_int n @ rest)) = ERANGE" using rest strtol_dec [of rest n] by (auto simp: ends_number_def)
    then show ?thesis by (cases "strtol (dec_int n @ rest)") (simp add: TO_X_def)
  qed
qed

interpretation byte_param: integer_converter to_byte 0 255
  unfolding to_byte_def by (rule TO_X_unsigned) (auto simp: u64_ucast_eq)

interpretation short_param: integer_converter to_short "- 32768" 32767
  unfolding to_short_def by (rule TO_X_signed) (auto simp: u64_scast_eq)

interpretation ushort_param: integer_converter to_ushort 0 65535
  unfolding to_ushort_def by (rule TO_X_unsigned) (auto simp: u64_ucast_eq)

interpretation int_param: integer_converter to_int "- 2147483648" 2147483647
  unfolding to_int_def by (rule TO_X_signed) (auto simp: u64_scast_eq)

interpretation uint_param: integer_converter to_uint 0 4294967295
  unfolding to_uint_def by (rule TO_X_unsigned) (auto simp: u64_ucast_eq)

lemma sint_u64_range: "- (2 ^ 63) \<le> sint (t :: u64)" "sint (t :: u64) < 2 ^ 63"
  using sint_greater_eq [of t] sint_less [of t] by simp_all

interpretation long_param: integer_converter to_long "- 9223372036854775808" 9223372036854775807
proof -
  have "sint (t :: u64) \<le> 9223372036854775807" "- 9223372036854775808 \<le> sint (t :: u64)" for t
    using sint_u64_range [of t] by simp_all
  then show "integer_converter to_long (- 9223372036854775808) 9223372036854775807"
    unfolding to_long_def by (intro TO_X_signed) simp_all
qed

interpretation ulong_param: integer_converter to_ulong 0 18446744073709551615
proof -
  have "uint (t :: u64) \<le> 18446744073709551615" for t
    using unsigned_less [of t, where ?'a = int] by simp
  then show "integer_converter to_ulong 0 18446744073709551615"
    unfolding to_ulong_def by (intro TO_X_unsigned) simp_all
qed

section \<open>Arrays\<close>

text \<open>An entry made by the macro is as long as its variable.\<close>

lemma declared_array [simp]:
  "p_is_array (URT_MODULE_PARAM_ARRAY nam v typ nump desc)"
  "length (p_var (URT_MODULE_PARAM_ARRAY nam v typ nump desc)) = p_max (URT_MODULE_PARAM_ARRAY nam v typ nump desc)"
  by (simp_all add: URT_MODULE_PARAM_ARRAY_def URT_MODULE_PARAM_COMMON_def)

fun csv :: "int list \<Rightarrow> string" where
  "csv [] = []"
| "csv [n] = dec_int n"
| "csv (n # m # ns) = dec_int n @ CHR '','' # csv (m # ns)"

lemma csv_not_Nil: "ns \<noteq> [] \<Longrightarrow> csv ns \<noteq> []"
  by (cases ns rule: csv.cases) auto

lemma dec_int_no_comma: "CHR '','' \<notin> set (dec_int n)"
  using dec_nat_chars by (auto simp: dec_int_def list_all_iff)

lemma get_next_value_append:
  "d \<notin> set a \<Longrightarrow> get_next_value (a @ d # b) d = b"
  unfolding get_next_value_def by (subst dropWhile_append2) auto

lemma get_next_value_none: "d \<notin> set a \<Longrightarrow> get_next_value a d = []"
  unfolding get_next_value_def by (subst dropWhile_eq_Nil_conv [THEN iffD2]) auto

lemma csv_step:
  obtains rest where "csv (n # ns) = dec_int n @ rest" "ends_number rest"
    "get_next_value (csv (n # ns)) CHR '','' = csv ns"
proof (cases ns)
  case Nil
  with that [of "[]"] show ?thesis by (simp add: get_next_value_none dec_int_no_comma)
next
  case (Cons m ms)
  with that [of "CHR '','' # csv (m # ms)"] show ?thesis by (simp add: get_next_value_append dec_int_no_comma)
qed

definition put_from :: "nat \<Rightarrow> 'a list \<Rightarrow> 'a list \<Rightarrow> 'a list" where
  "put_from i vs xs = take i xs @ vs @ drop (i + length vs) xs"

lemma put_from_Cons: "i < length xs \<Longrightarrow> put_from (Suc i) vs (xs[i := v]) = put_from i (v # vs) xs"
  by (simp add: put_from_def take_Suc_conv_app_nth upd_conv_take_nth_drop add.commute)

lemma put_from_single: "i < length xs \<Longrightarrow> xs[i := v] = put_from i [v] xs"
  by (simp add: put_from_def upd_conv_take_nth_drop)

context integer_converter
begin

text \<open>All values are in range and there is room for them.\<close>

lemma parse_values_csv:
  assumes "ns \<noteq> []" and "\<forall>n\<in>set ns. lo \<le> n \<and> n \<le> hi" and "p_is_array param"
    and "length (p_var param) = p_max param" and "i + length ns \<le> p_max param"
  shows "parse_values conv param (csv ns) i =
    (0, param\<lparr>p_var := put_from i (map VInt ns) (p_var param)\<rparr>, i + length ns)"
  using assms
proof (induction ns arbitrary: param i)
  case (Cons n ns)
  obtain rest where r: "csv (n # ns) = dec_int n @ rest" "ends_number rest"
    "get_next_value (csv (n # ns)) CHR '','' = csv ns"
    by (rule csv_step)
  let ?p = "param\<lparr>p_var := (p_var param)[i := VInt n]\<rparr>"
  have c: "conv param (csv (n # ns)) i = (0, ?p)" using accept [OF _ _ r(2)] Cons.prems(2) r(1) by simp
  show ?case
  proof (cases "ns = []")
    case True
    then show ?thesis
      using Cons.prems c r(3) by (simp add: parse_values.simps [of conv param _ i] put_from_single)
  next
    case False
    then have "parse_values conv param (csv (n # ns)) i = parse_values conv ?p (csv ns) (Suc i)"
      using Cons.prems c r(3) csv_not_Nil [OF False] by (simp add: parse_values.simps [of conv param _ i])
    also have "\<dots> = (0, ?p\<lparr>p_var := put_from (Suc i) (map VInt ns) (p_var ?p)\<rparr>, Suc i + length ns)"
      using Cons.prems False by (intro Cons.IH) simp_all
    finally show ?thesis using Cons.prems by (simp add: put_from_Cons)
  qed
qed simp

text \<open>More values than the array has room for.\<close>

lemma parse_values_too_many:
  assumes "\<forall>n\<in>set ns. lo \<le> n \<and> n \<le> hi" and "p_is_array param" and "i \<le> p_max param" and "p_max param < i + length ns"
  shows "fst (parse_values conv param (csv ns) i) = E2BIG"
  using assms
proof (induction ns arbitrary: param i)
  case (Cons n ns)
  obtain rest where r: "csv (n # ns) = dec_int n @ rest" "ends_number rest"
    "get_next_value (csv (n # ns)) CHR '','' = csv ns"
    by (rule csv_step)
  show ?case
  proof (cases "i = p_max param")
    case True
    then show ?thesis by (subst parse_values.simps) simp
  next
    case False
    let ?p = "param\<lparr>p_var := (p_var param)[i := VInt n]\<rparr>"
    have c: "conv param (csv (n # ns)) i = (0, ?p)" using accept [OF _ _ r(2)] Cons.prems(1) r(1) by simp
    have "ns \<noteq> []" using False Cons.prems(3,4) by auto
    then have "parse_values conv param (csv (n # ns)) i = parse_values conv ?p (csv ns) (Suc i)"
      using Cons.prems False c r(3) csv_not_Nil by (simp add: parse_values.simps [of conv param _ i])
    moreover have "fst (parse_values conv ?p (csv ns) (Suc i)) = E2BIG"
      using Cons.prems False by (intro Cons.IH) simp_all
    ultimately show ?thesis by simp
  qed
qed simp

end

section \<open>Matching of names\<close>

definition dash :: "char \<Rightarrow> char" where
  "dash c = (if c = CHR ''-'' then CHR ''_'' else c)"

lemma param_matches_eq:
  assumes "list_all (\<lambda>c. c \<noteq> NUL \<and> c \<noteq> CHR ''-'' \<and> c \<noteq> CHR ''='') name" and "NUL \<notin> set arg"
  shows "param_matches name arg \<longleftrightarrow> map dash (takeWhile (\<lambda>c. c \<noteq> CHR ''='') arg) = name"
proof -
  define go where "go = (\<lambda>k. c_at name k = dash (c_at arg k) \<and> c_at name k \<noteq> NUL \<and> c_at arg k \<noteq> NUL
    \<and> c_at arg k \<noteq> CHR ''='')"
  define k where "k = for_break (\<lambda>k. \<not> go k) 0 (length name + length arg + 1)"
  have pm: "param_matches name arg \<longleftrightarrow> c_at name k = c_at arg k \<or> (c_at name k = NUL \<and> c_at arg k = CHR ''='')"
    unfolding param_matches_def k_def go_def dash_def Let_def ..
  have before: "go j" if "j < k" for j
    using for_break_before [of 0 j "\<lambda>k. \<not> go k" "length name + length arg + 1"] that by (simp add: k_def)
  have stop: "\<not> go (length name)" by (simp add: go_def)
  then have kn: "k \<le> length name" using before [of "length name"] by force
  then have "\<not> go k" using for_break_hit [of "\<lambda>k. \<not> go k" 0 "length name + length arg + 1"] by (simp add: k_def)
  have name: "name ! j \<noteq> NUL" "name ! j \<noteq> CHR ''-''" "name ! j \<noteq> CHR ''=''" if "j < length name" for j
    using assms(1) that by (simp_all add: list_all_length)
  have arg: "c_at arg j = NUL \<longleftrightarrow> length arg \<le> j" for j
    using assms(2) by (cases "j < length arg") (auto simp: in_set_conv_nth)
  show ?thesis
  proof
    assume m: "map dash (takeWhile (\<lambda>c. c \<noteq> CHR ''='') arg) = name"
    let ?w = "takeWhile (\<lambda>c. c \<noteq> CHR ''='') arg"
    have len: "length ?w = length name" using m by (metis length_map)
    have w: "go j" if "j < length name" for j
    proof -
      have j: "j < length ?w" "j < length arg" using that len length_takeWhile_le [of "\<lambda>c. c \<noteq> CHR ''=''" arg] by simp_all
      then have "arg ! j = ?w ! j" by (simp add: takeWhile_nth)
      moreover have "?w ! j \<noteq> CHR ''=''" using nth_mem [OF j(1)] by (auto dest: set_takeWhileD)
      moreover have "name ! j = dash (?w ! j)" unfolding m [symmetric] using j(1) by (rule nth_map)
      ultimately show ?thesis using j(2) that name(1) [OF that] arg [of j] by (simp add: go_def)
    qed
    then have k: "k = length name"
      using kn \<open>\<not> go k\<close> by (metis le_neq_implies_less)
    have "c_at arg k = NUL \<or> c_at arg k = CHR ''=''"
      using nth_length_takeWhile [of "\<lambda>c. c \<noteq> CHR ''=''" arg] len k by (cases "k < length arg") auto
    then show "param_matches name arg" using pm k by auto
  next
    assume "param_matches name arg"
    then have e: "c_at name k = c_at arg k \<or> (c_at name k = NUL \<and> c_at arg k = CHR ''='')" using pm by simp
    have k: "k = length name"
    proof (rule ccontr)
      assume "k \<noteq> length name"
      with kn have "k < length name" by simp
      with e name [of k] \<open>\<not> go k\<close> show False by (auto simp: go_def dash_def)
    qed
    have ka: "k \<le> length arg" using before arg by (metis go_def linorder_not_less order_refl)
    have "takeWhile (\<lambda>c. c \<noteq> CHR ''='') arg = take k arg"
    proof (rule takeWhile_eq_take_P_nth)
      fix j assume "j < k" "j < length arg"
      then show "arg ! j \<noteq> CHR ''=''" using before [of j] by (simp add: go_def)
    next
      assume "k < length arg"
      then show "\<not> arg ! k \<noteq> CHR ''=''" using e k arg [of k] by auto
    qed
    moreover have "map dash (take k arg) = name"
      using ka k before by (intro nth_equalityI) (auto simp: go_def)
    ultimately show "map dash (takeWhile (\<lambda>c. c \<noteq> CHR ''='') arg) = name" by simp
  qed
qed

section \<open>Whole arguments\<close>

text \<open>The ranges of the documented integer types.\<close>

definition int_range :: "string \<Rightarrow> (int \<times> int) option" where
  "int_range ty =
     (if ty = ''byte'' then Some (0, 255) else if ty = ''short'' then Some (- 32768, 32767)
      else if ty = ''ushort'' then Some (0, 65535) else if ty = ''int'' then Some (- 2147483648, 2147483647)
      else if ty = ''uint'' then Some (0, 4294967295)
      else if ty = ''long'' then Some (- 9223372036854775808, 9223372036854775807)
      else if ty = ''ulong'' then Some (0, 18446744073709551615) else None)"

lemma select_convert_int:
  assumes "int_range ty = Some (lo, hi)"
  obtains conv where "select_convert mem ty = Some conv" "integer_converter conv lo hi"
  using assms that byte_param.integer_converter_axioms short_param.integer_converter_axioms
    ushort_param.integer_converter_axioms int_param.integer_converter_axioms uint_param.integer_converter_axioms
    long_param.integer_converter_axioms ulong_param.integer_converter_axioms
  unfolding int_range_def select_convert_def by (auto split: if_splits)

lemma dec_int_not_quote: "c_at (dec_int n @ s) 0 \<noteq> CHR 0x22"
proof -
  have q: "\<not> isdigit CHR 0x22" by code_simp
  have "hd (dec_nat m) \<noteq> CHR 0x22" for m
    using dec_nat_chars [of m] q by (cases "dec_nat m") auto
  moreover have "c_at (dec_nat m @ s) 0 = hd (dec_nat m)" for m
    by (cases "dec_nat m") (auto simp: c_at_def)
  ultimately show ?thesis by (simp add: dec_int_def c_at_def)
qed

lemma csv_not_quote: "ns \<noteq> [] \<Longrightarrow> c_at (csv ns) 0 \<noteq> CHR 0x22"
  using dec_int_not_quote [of _ "[]"] dec_int_not_quote by (cases ns rule: csv.cases) simp_all

lemma parse_arg_unquoted:
  assumes "CHR ''='' \<notin> set name" and "c_at v 0 \<noteq> CHR 0x22" and "select_convert mem (p_type param) = Some conv"
  shows "parse_arg mem beyond param (name @ CHR ''='' # v) =
    (case parse_values conv param v 0 of
       (err, param', index) \<Rightarrow>
         (err, if err = 0 then param'\<lparr>p_num := index, p_nump := map_option (\<lambda>n. index) (p_nump param')\<rparr>
               else param', name @ CHR ''='' # v))"
  using assms by (simp add: parse_arg_def get_next_value_append)

text \<open>Parsing does not rename parameters, and an error once set is not forgotten.\<close>

lemma convert_name:
  assumes "select_convert mem ty = Some conv"
  shows "p_name (snd (conv param v i)) = p_name param"
proof -
  have x: "p_name (snd (TO_X cnv cast store param v i)) = p_name param" for cnv cast store
    by (simp add: TO_X_def split: prod.splits)
  have "p_name (snd (to_charp mem param v i)) = p_name param" by (simp add: to_charp_def Let_def)
  moreover have "p_name (snd (to_bool param v i)) = p_name param" "p_name (snd (to_invbool param v i)) = p_name param"
    by (simp_all add: to_bool_def to_invbool_def split: sum.splits)
  ultimately show ?thesis
    using assms x unfolding select_convert_def to_byte_def to_short_def to_ushort_def to_int_def to_uint_def
      to_long_def to_ulong_def by (auto split: if_splits)
qed

lemma parse_values_name:
  assumes "\<And>param v i. p_name (snd (conv param v i)) = p_name param"
  shows "p_name (fst (snd (parse_values conv param v i))) = p_name param"
  using assms
proof (induction conv param v i rule: parse_values.induct)
  case (1 conv param v i)
  then show ?case by (subst parse_values.simps) (simp add: Let_def)
qed

lemma parse_arg_name: "p_name (fst (snd (parse_arg mem beyond param arg))) = p_name param"
proof (cases "select_convert mem (p_type param)")
  case (Some conv)
  have "p_name (fst (snd (parse_values conv param v i))) = p_name param" for v i
    by (rule parse_values_name) (rule convert_name [OF Some])
  then show ?thesis using Some by (simp add: parse_arg_def Let_def case_prod_beta)
qed (simp add: parse_arg_def Let_def)

lemma match_params_names: "map p_name (fst (match_params mem beyond params arg any err)) = map p_name params"
proof (induction params arbitrary: arg any err)
  case (Cons param params)
  then show ?case by (simp add: Let_def case_prod_beta parse_arg_name)
qed simp

lemma match_params_any:
  "fst (snd (match_params mem beyond params arg any err)) \<longleftrightarrow> any \<or> (\<exists>p\<in>set params. param_matches (p_name p) arg)"
proof (induction params arbitrary: arg any err)
  case (Cons param params)
  have "fst (snd (match_params mem beyond params a True e))" for a e using Cons [of a True e] by simp
  with Cons show ?case by (simp add: Let_def case_prod_beta)
qed simp

lemma match_params_error: "err \<noteq> 0 \<Longrightarrow> snd (snd (match_params mem beyond params arg any err)) \<noteq> 0"
proof (induction params arbitrary: arg any err)
  case (Cons param params)
  then show ?case by (simp add: Let_def case_prod_beta)
qed simp

lemma parse_args_from_error: "err \<noteq> 0 \<Longrightarrow> fst (parse_args_from mem params argv err) \<noteq> 0"
proof (induction argv arbitrary: params err)
  case (Cons arg argv)
  then show ?case by (simp add: Let_def case_prod_beta match_params_error)
qed simp

lemma parse_args_from_ok:
  assumes "fst (parse_args_from mem params argv err) = 0" and "arg \<in> set argv"
  shows "arg \<noteq> ''--help'' \<and> arg \<noteq> ''-h'' \<and> (\<exists>n\<in>set (map p_name (tl params)). param_matches n arg)"
  using assms
proof (induction argv arbitrary: params err)
  case (Cons a argv)
  let ?r = "match_params mem (case argv of [] \<Rightarrow> [] | a # _ \<Rightarrow> a) (tl params) a False err"
  have no_help: "a \<noteq> ''--help''" "a \<noteq> ''-h''" using Cons.prems(1) by (auto split: if_splits)
  then have run: "parse_args_from mem params (a # argv) err =
      parse_args_from mem (take 1 params @ fst ?r) argv (if fst (snd ?r) then snd (snd ?r) else EINVAL)"
    by (simp add: case_prod_beta)
  then have any: "fst (snd ?r)" using Cons.prems(1) parse_args_from_error [of EINVAL] by (auto split: if_splits)
  then have here: "\<exists>n\<in>set (map p_name (tl params)). param_matches n a" by (simp add: match_params_any)
  have names: "map p_name (tl (take 1 params @ fst ?r)) = map p_name (tl params)"
    using match_params_names [of mem _ "tl params" a False err] by (cases params) simp_all
  show ?case
  proof (cases "arg = a")
    case True
    then show ?thesis using no_help here by simp
  next
    case False
    with Cons.prems(2) have "arg \<in> set argv" by simp
    moreover have "fst (parse_args_from mem (take 1 params @ fst ?r) argv (snd (snd ?r))) = 0"
      using Cons.prems(1) any unfolding run by simp
    ultimately show ?thesis using Cons.IH unfolding names [symmetric] by blast
  qed
qed simp

section \<open>Properties\<close>

text \<open>
  C11: Parsing an array parameter inverts printing it: for each of the seven integer types, an
  argument \<^verbatim>\<open>name=v1,v2,...\<close> whose values are in the range of the type and no more than the
  array has room for stores exactly these values at the front of the array, leaves the rest of
  the array alone and reports their number; with more values it fails with \<^verbatim>\<open>E2BIG\<close>.
\<close>

theorem array_parameter_roundtrip:
  assumes "int_range (p_type param) = Some (lo, hi)" and "p_is_array param" and "length (p_var param) = p_max param"
    and "ns \<noteq> []" and "\<forall>n\<in>set ns. lo \<le> n \<and> n \<le> hi" and "CHR ''='' \<notin> set name"
  shows "if length ns \<le> p_max param
    then parse_arg mem beyond param (name @ CHR ''='' # csv ns) =
      (0, param\<lparr>p_var := map VInt ns @ drop (length ns) (p_var param), p_num := length ns,
           p_nump := map_option (\<lambda>n. length ns) (p_nump param)\<rparr>, name @ CHR ''='' # csv ns)
    else fst (parse_arg mem beyond param (name @ CHR ''='' # csv ns)) = E2BIG"
proof -
  obtain conv where c: "select_convert mem (p_type param) = Some conv" and "integer_converter conv lo hi"
    by (rule select_convert_int [OF assms(1)])
  then have ic: "integer_converter conv lo hi" by blast
  note pa = parse_arg_unquoted [OF assms(6) csv_not_quote [OF assms(4)] c, of beyond]
  show ?thesis
  proof (cases "length ns \<le> p_max param")
    case True
    then have "parse_values conv param (csv ns) 0 =
        (0, param\<lparr>p_var := put_from 0 (map VInt ns) (p_var param)\<rparr>, 0 + length ns)"
      using assms by (intro integer_converter.parse_values_csv [OF ic]) simp_all
    with True show ?thesis by (simp add: pa put_from_def)
  next
    case False
    then have "fst (parse_values conv param (csv ns) 0) = E2BIG"
      using assms by (intro integer_converter.parse_values_too_many [OF ic]) simp_all
    with False show ?thesis by (simp add: pa case_prod_beta)
  qed
qed

definition demo_array :: urt_module_param where
  "demo_array = \<lparr>p_name = ''arr'', p_type = ''short'', p_desc = ''an array'', p_max = 3,
     p_var = [VInt 9, VInt 9, VInt 9], p_num = 0, p_nump = Some 0, p_is_array = True, p_copies = 0\<rparr>"

theorem array_parameter_roundtrip_witness:
  "parse_arg (\<lambda>n. True) [] demo_array (''arr='' @ csv [-5, 12]) =
     (0, demo_array\<lparr>p_var := [VInt (-5), VInt 12, VInt 9], p_num := 2, p_nump := Some 2\<rparr>, ''arr='' @ csv [-5, 12])
   \<and> fst (parse_arg (\<lambda>n. True) [] demo_array (''arr='' @ csv [1, 2, 3, 4])) = E2BIG"
proof -
  have r: "int_range (p_type demo_array) = Some (- 32768, 32767)" "p_is_array demo_array"
    "length (p_var demo_array) = p_max demo_array" "CHR ''='' \<notin> set ''arr''"
    by (simp_all add: demo_array_def int_range_def)
  from array_parameter_roundtrip [OF r(1-3) _ _ r(4), of "[-5, 12]" "\<lambda>n. True" "[]"]
    array_parameter_roundtrip [OF r(1-3) _ _ r(4), of "[1, 2, 3, 4]" "\<lambda>n. True" "[]"]
  show ?thesis by (simp add: demo_array_def)
qed



text \<open>
  An argument is taken for a parameter exactly when what stands before its \<^verbatim>\<open>=\<close> (all of it
  when there is none), with dashes read as underscores, is the parameter's name.
\<close>

theorem parameter_name_matching:
  assumes "list_all (\<lambda>c. c \<noteq> NUL \<and> c \<noteq> CHR ''-'' \<and> c \<noteq> CHR ''='') name" and "NUL \<notin> set arg"
  shows "param_matches name arg \<longleftrightarrow> map dash (takeWhile (\<lambda>c. c \<noteq> CHR ''='') arg) = name"
  using assms by (rule param_matches_eq)

theorem parameter_name_matching_witness:
  "param_matches ''arg_int'' ''arg-int=4'' \<and> \<not> param_matches ''arg_int'' ''arg_in''"
proof -
  have "list_all (\<lambda>c. c \<noteq> NUL \<and> c \<noteq> CHR ''-'' \<and> c \<noteq> CHR ''='') ''arg_int''" by simp
  from parameter_name_matching [OF this, of "''arg-int=4''"] parameter_name_matching [OF this, of "''arg_in''"]
  show ?thesis by (simp add: dash_def)
qed

text \<open>
  \<^verbatim>\<open>urt_parse_args\<close> returns 0 only if no argument asks for help and every argument has been
  taken for some parameter: an unknown argument is never overlooked, and no later argument
  makes the error go away.
\<close>

theorem parse_args_accepts_known_only:
  assumes "fst (urt_parse_args mem params argv) = 0" and "arg \<in> set (tl argv)"
  shows "arg \<noteq> ''--help'' \<and> arg \<noteq> ''-h'' \<and> (\<exists>param\<in>set (tl params). param_matches (p_name param) arg)"
proof -
  let ?ps = "take 1 params @ map reset_nump (tl params)"
  have names: "map p_name (tl ?ps) = map p_name (tl params)"
    by (cases params) (simp_all add: reset_nump_def)
  from parse_args_from_ok [OF assms(1) [unfolded urt_parse_args_def] assms(2), unfolded names] show ?thesis by auto
qed

definition demo_params :: "urt_module_param list" where
  "demo_params = URT_MODULE_PARAM_START @ [demo_array]"

theorem parse_args_accepts_known_only_witness:
  "fst (urt_parse_args (\<lambda>n. True) demo_params [''prog'', ''arr=1,2'']) = 0
   \<and> (\<exists>param\<in>set (tl demo_params). param_matches (p_name param) ''arr=1,2'')"
proof -
  have "fst (urt_parse_args (\<lambda>n. True) demo_params [''prog'', ''arr=1,2'']) = 0" by code_simp
  with parse_args_accepts_known_only [OF this, of "''arr=1,2''"] show ?thesis by simp
qed

text \<open>
  Values of \<^verbatim>\<open>bool\<close> parameters: a missing value and the letters \<^verbatim>\<open>y\<close> and \<^verbatim>\<open>Y\<close> mean true, \<^verbatim>\<open>0\<close>,
  \<^verbatim>\<open>n\<close> and \<^verbatim>\<open>N\<close> mean false, everything else is refused, the documented \<^verbatim>\<open>1\<close> included: the
  condition compares with the character of code 1, which is taken for false.
\<close>

theorem bool_parameter_values:
  "extract_bool str =
     (if c_at str 0 \<in> {NUL, CHR ''y'', CHR ''Y''} then Inr True
      else if c_at str 0 \<in> {CHR ''0'', CHR ''n'', CHR ''N'', CHR 0x01} then Inr False
      else Inl EINVAL)
   \<and> extract_bool ''1'' = Inl EINVAL"
  by (auto simp: extract_bool_def)

text \<open>
  Two values that are accepted although they are none. A value without any digit is stored
  as 0 in a parameter of type \<^verbatim>\<open>int\<close>. And a value that is a single quote is treated as a quoted
  value: what is stored depends on the bytes that follow the argument in memory.
\<close>

theorem int_parameter_accepts_garbage:
  assumes "p_type param = ''int''" and "\<not> p_is_array param" and "0 < p_max param" and "CHR ''='' \<notin> set name"
    and "v \<noteq> []" and "list_all (\<lambda>c. \<not> isdigit c \<and> c \<noteq> CHR 0x22) v" and "- 2147483648 \<le> n" and "n \<le> 2147483647"
  shows "fst (parse_arg mem beyond param (name @ CHR ''='' # v)) = 0
    \<and> p_var (fst (snd (parse_arg mem beyond param (name @ CHR ''='' # v)))) = (p_var param)[0 := VInt 0]
    \<and> p_var (fst (snd (parse_arg mem (dec_int n) param (name @ CHR ''='' # [CHR 0x22])))) = (p_var param)[0 := VInt n]"
proof -
  have conv: "select_convert mem (p_type param) = Some to_int" using assms(1) by (simp add: select_convert_def)
  have digits: "takeWhile isdigit x = []" if "set x \<subseteq> set v" for x
    using assms(6) that by (cases x) (auto simp: list_all_iff)
  have dw: "set (dropWhile isspace v) \<subseteq> set v" by (meson set_dropWhileD subsetI)
  then have "set (tl (dropWhile isspace v)) \<subseteq> set v" by (metis list.sel(2) list.set_sel(2) subset_eq)
  with dw digits have "snd (read_number v) = 0"
    by (simp add: read_number_def Let_def decimal_def)
  then have "strtol v = (0, 0)" by (simp add: strtol_def case_prod_beta)
  then have t: "to_int param v 0 = (0, param\<lparr>p_var := (p_var param)[0 := VInt 0]\<rparr>)"
    using assms(5) by (simp add: to_int_def TO_X_def)
  have q: "c_at v 0 \<noteq> CHR 0x22" using assms(5,6) by (cases v) (auto simp: c_at_def)
  have n: "to_int param (dec_int n) 0 = (0, param\<lparr>p_var := (p_var param)[0 := VInt n]\<rparr>)"
    using int_param.accept [OF assms(7,8), of "[]"] by simp
  have "fst (parse_arg mem beyond param (name @ CHR ''='' # v)) = 0"
    "p_var (fst (snd (parse_arg mem beyond param (name @ CHR ''='' # v)))) = (p_var param)[0 := VInt 0]"
    unfolding parse_arg_unquoted [OF assms(4) q conv] using t assms(2,3)
    by (simp_all add: parse_values.simps [of to_int param v 0])
  moreover have "p_var (fst (snd (parse_arg mem (dec_int n) param (name @ CHR ''='' # [CHR 0x22])))) = (p_var param)[0 := VInt n]"
    using n assms(2,3,4) conv
    by (simp add: parse_arg_def get_next_value_append parse_values.simps [of to_int param "dec_int n" 0])
  ultimately show ?thesis by blast
qed

theorem int_parameter_accepts_garbage_witness:
  "\<exists>param. fst (parse_arg (\<lambda>n. True) [] param ''x=abc'') = 0
    \<and> p_var (fst (snd (parse_arg (\<lambda>n. True) (dec_int 77) param (''x='' @ [CHR 0x22])))) = [VInt 77]"
proof -
  let ?p = "demo_array\<lparr>p_type := ''int'', p_is_array := False, p_var := [VInt 5]\<rparr>"
  have h: "p_type ?p = ''int''" "\<not> p_is_array ?p" "0 < p_max ?p" "CHR ''='' \<notin> set ''x''" "''abc'' \<noteq> []"
    by (simp_all add: demo_array_def)
  have "list_all (\<lambda>c. \<not> isdigit c \<and> c \<noteq> CHR 0x22) ''abc''" by code_simp
  from int_parameter_accepts_garbage [OF h this, of 77 "\<lambda>n. True" "[]"] show ?thesis
    by (intro exI [of _ ?p]) simp
qed

end
