(* ===== verification/Urt_App.thy ===== *)
theory Urt_App
  imports Urt_Param
begin

text \<open>
  The glue that turns the functions of an application into a program or a kernel module
  (the macros of \<^verbatim>\<open>include/urt_setup.h\<close>). The functions \<^verbatim>\<open>init\<close>, \<^verbatim>\<open>body\<close> and \<^verbatim>\<open>exit\<close> are the
  application's, and so are arguments here; they see the parameters of the program.

  The lemmas show which of them run and in which order, that the copies of parameters are freed
  on every path, and when a program or the removal of a module ends.
\<close>

section \<open>Definitions\<close>

text \<open>
  The variables \<^verbatim>\<open>interrupted\<close> and \<^verbatim>\<open>done\<close> of the macros, the application's own state, and what
  the process does with each signal.
\<close>

datatype disposition = SIG_DFL | SIG_HANDLER

record 's app =
  app_interrupted :: bool
  app_done :: bool
  app_data :: 's
  app_signals :: "int \<Rightarrow> disposition"

definition urt_app_sig_handler :: "'s app \<Rightarrow> 's app" where
  "urt_app_sig_handler a = a\<lparr>app_interrupted := True\<rparr>"

text \<open>The signal numbers of Linux on x86.\<close>

definition SIGHUP :: int where "SIGHUP = 1"
definition SIGINT :: int where "SIGINT = 2"
definition SIGQUIT :: int where "SIGQUIT = 3"
definition SIGUSR1 :: int where "SIGUSR1 = 10"
definition SIGSEGV :: int where "SIGSEGV = 11"
definition SIGUSR2 :: int where "SIGUSR2 = 12"
definition SIGTERM :: int where "SIGTERM = 15"

definition sigaction :: "int \<Rightarrow> disposition \<Rightarrow> 's app \<Rightarrow> 's app" where
  "sigaction signum sa a = a\<lparr>app_signals := (app_signals a)(signum := sa)\<rparr>"

definition urt_app_set_handlers :: "'s app \<Rightarrow> 's app" where
  "urt_app_set_handlers a =
     fold (\<lambda>signum. sigaction signum SIG_HANDLER) [SIGSEGV, SIGINT, SIGHUP, SIGTERM, SIGQUIT, SIGUSR1, SIGUSR2] a"

text \<open>A signal arrives: \<open>None\<close> is the default action of these signals, which ends the process.\<close>

definition deliver :: "int \<Rightarrow> 's app \<Rightarrow> 's app option" where
  "deliver signum a = (case app_signals a signum of SIG_DFL \<Rightarrow> None | SIG_HANDLER \<Rightarrow> Some (urt_app_sig_handler a))"

text \<open>The loop that waits for \<^verbatim>\<open>done\<close>: \<open>pause\<close> is what the rest of the world does during one sleep.\<close>

partial_function (option) wait_done :: "('s app \<Rightarrow> 's app) \<Rightarrow> 's app \<Rightarrow> 's app option" where
  "wait_done pause a = (if app_done a then Some a else wait_done pause (pause a))"

text \<open>
  The parts of \<^verbatim>\<open>main\<close>. \<open>allocs\<close> says which copies of strings succeed; the label \<^verbatim>\<open>exit_cleanup\<close> is where
  both error branches go.
\<close>

definition urt_app_cleanup :: "urt_module_param list \<Rightarrow> int \<Rightarrow> 's app \<Rightarrow> int \<times> urt_module_param list \<times> 's app" where
  "urt_app_cleanup params err a = (err, urt_free_args params, a)"

definition urt_app_main ::
    "('s app \<Rightarrow> 's app option) \<Rightarrow> (nat \<Rightarrow> bool) \<Rightarrow> (urt_module_param list \<Rightarrow> 's app \<Rightarrow> int \<times> 's app) \<Rightarrow> (urt_module_param list \<Rightarrow> 's app \<Rightarrow> 's app)
      \<Rightarrow> (urt_module_param list \<Rightarrow> 's app \<Rightarrow> 's app) \<Rightarrow> urt_module_param list \<Rightarrow> string list \<Rightarrow> 's app
      \<Rightarrow> (int \<times> urt_module_param list \<times> 's app) option" where
  "urt_app_main wait allocs init body exit params argv a =
     (let (stop, err, params) = urt_parse_args allocs params argv in
      if stop \<noteq> 0 then Some (urt_app_cleanup params err a)
      else (let (err, a) = init params a in
        if err \<noteq> 0 then Some (urt_app_cleanup params err a)
        else do {
          a \<leftarrow> wait (body params a);
          Some (urt_app_cleanup params err (exit params a)) }))"

text \<open>\<^verbatim>\<open>main\<close> as generated by \<^verbatim>\<open>URT_GLUE\<close> and by \<^verbatim>\<open>URT_GLUE_NO_INTERRUPT\<close>.\<close>

definition URT_GLUE where
  "URT_GLUE pause allocs init body exit params argv a =
     urt_app_main (wait_done pause) allocs init body exit params argv (urt_app_set_handlers a)"

definition URT_GLUE_NO_INTERRUPT where
  "URT_GLUE_NO_INTERRUPT = urt_app_main Some"

text \<open>The thread of a kernel module runs the body and exits with 0.\<close>

definition urt_app_body :: "('s app \<Rightarrow> 's app) \<Rightarrow> 's app \<Rightarrow> int \<times> 's app" where
  "urt_app_body body a = (0, body a)"

text \<open>
  The kernel module. \<^verbatim>\<open>kthread_run\<close> starts the thread \<^verbatim>\<open>urt_app_body_\<close> or fails with an error number; the
  thread then runs beside the module.
\<close>

definition urt_app_init ::
    "('s app \<Rightarrow> int \<times> 's app) \<Rightarrow> ('s app \<Rightarrow> 's app) \<Rightarrow> ('s app \<Rightarrow> (int + unit) \<times> 's app) \<Rightarrow> 's app \<Rightarrow> int \<times> 's app" where
  "urt_app_init init body kthread_run a =
     (let (err, a) = init a in
      if err \<noteq> 0 then (err, a)
      else (let (thread, a) = kthread_run a
            in if thread = Inl ENOMEM then (0, body a) else (0, a)))"

definition urt_app_exit :: "('s app \<Rightarrow> 's app) \<Rightarrow> ('s app \<Rightarrow> 's app) \<Rightarrow> 's app \<Rightarrow> 's app option" where
  "urt_app_exit pause exit a = do { a \<leftarrow> wait_done pause (a\<lparr>app_interrupted := True\<rparr>); Some (exit a) }"

definition urt_app_exit_no_interrupt :: "('s app \<Rightarrow> 's app) \<Rightarrow> 's app \<Rightarrow> 's app" where
  "urt_app_exit_no_interrupt exit a = exit a"

section \<open>Lemmas\<close>

lemma wait_done_steps: "\<forall>j<n. \<not> app_done ((pause ^^ j) a) \<Longrightarrow> wait_done pause a = wait_done pause ((pause ^^ n) a)"
proof (induction n)
  case (Suc n)
  then show ?case by (simp add: wait_done.simps [of pause "(pause ^^ n) a"])
qed simp

lemma wait_done_Some:
  assumes "wait_done pause a = Some b"
  shows "\<exists>n. app_done ((pause ^^ n) a)"
  using assms
proof (rule wait_done.raw_induct [where P = "\<lambda>pause a b. \<exists>n. app_done ((pause ^^ n) a)", rotated])
  fix loop and pause :: "'s app \<Rightarrow> 's app" and a b
  assume 1: "\<And>pause a b. loop pause a = Some b \<Longrightarrow> \<exists>n. app_done ((pause ^^ n) a)"
    "(if app_done a then Some a else loop pause (pause a)) = Some b"
  show "\<exists>n. app_done ((pause ^^ n) a)"
  proof (cases "app_done a")
    case True
    then show ?thesis by (intro exI [of _ 0]) simp
  next
    case False
    with 1(2) have "loop pause (pause a) = Some b" by simp
    from 1(1) [OF this] obtain n where "app_done ((pause ^^ n) (pause a))" ..
    then show ?thesis by (intro exI [of _ "Suc n"]) (simp add: funpow_swap1)
  qed
qed

text \<open>The loop ends exactly when \<^verbatim>\<open>done\<close> gets set, in the first state in which it is.\<close>

lemma wait_done_first:
  "wait_done pause a = (if \<exists>n. app_done ((pause ^^ n) a) then Some ((pause ^^ (LEAST n. app_done ((pause ^^ n) a))) a) else None)"
proof (cases "\<exists>n. app_done ((pause ^^ n) a)")
  case True
  let ?n = "LEAST n. app_done ((pause ^^ n) a)"
  have "wait_done pause a = wait_done pause ((pause ^^ ?n) a)"
    by (rule wait_done_steps) (blast dest: not_less_Least)
  also have "\<dots> = Some ((pause ^^ ?n) a)" using LeastI_ex [OF True] by (simp add: wait_done.simps)
  finally show ?thesis using True by simp
next
  case False
  then show ?thesis using wait_done_Some [of pause a] by (cases "wait_done pause a") auto
qed

text \<open>A program that is told to end by \<^verbatim>\<open>done\<close>: it returns exactly when \<^verbatim>\<open>done\<close> gets set after the body, or it did not get that far.\<close>

lemma URT_GLUE_returns:
  assumes "urt_parse_args allocs params argv = (stop, perr, ps)" and "init ps (urt_app_set_handlers a) = (ierr, a1)"
  shows "(\<exists>r. URT_GLUE pause allocs init body exit params argv a = Some r)
      \<longleftrightarrow> stop \<noteq> 0 \<or> ierr \<noteq> 0 \<or> (\<exists>n. app_done ((pause ^^ n) (body ps a1)))"
    and "URT_GLUE pause allocs init body exit params argv a = Some (err, ps', a') \<Longrightarrow>
      ps' = urt_free_args ps \<and> err = (if stop \<noteq> 0 then perr else ierr)
      \<and> (if stop \<noteq> 0 then a' = urt_app_set_handlers a else if ierr \<noteq> 0 then a' = a1
         else \<exists>n. app_done ((pause ^^ n) (body ps a1)) \<and> a' = exit ps ((pause ^^ n) (body ps a1)))"
proof -
  have eq: "URT_GLUE pause allocs init body exit params argv a =
      (if stop \<noteq> 0 then Some (perr, urt_free_args ps, urt_app_set_handlers a) else if ierr \<noteq> 0 then Some (ierr, urt_free_args ps, a1)
       else if \<exists>n. app_done ((pause ^^ n) (body ps a1))
       then Some (ierr, urt_free_args ps, exit ps ((pause ^^ (LEAST n. app_done ((pause ^^ n) (body ps a1)))) (body ps a1))) else None)"
    using assms by (simp add: URT_GLUE_def urt_app_main_def urt_app_cleanup_def wait_done_first)
  show "(\<exists>r. URT_GLUE pause allocs init body exit params argv a = Some r)
      \<longleftrightarrow> stop \<noteq> 0 \<or> ierr \<noteq> 0 \<or> (\<exists>n. app_done ((pause ^^ n) (body ps a1)))"
    unfolding eq by auto
  show "URT_GLUE pause allocs init body exit params argv a = Some (err, ps', a') \<Longrightarrow>
      ps' = urt_free_args ps \<and> err = (if stop \<noteq> 0 then perr else ierr)
      \<and> (if stop \<noteq> 0 then a' = urt_app_set_handlers a else if ierr \<noteq> 0 then a' = a1
         else \<exists>n. app_done ((pause ^^ n) (body ps a1)) \<and> a' = exit ps ((pause ^^ n) (body ps a1)))"
    unfolding eq by (auto split: if_splits intro: LeastI)
qed

text \<open>From the start of \<^verbatim>\<open>main\<close> each of the seven signals only sets the variable; others do what they did before.\<close>

lemma app_signals_fold:
  "app_signals (fold (\<lambda>signum. sigaction signum sa) xs a) n = (if n \<in> set xs then sa else app_signals a n)"
  by (induction xs arbitrary: a) (auto simp: sigaction_def)

lemma app_signals_set:
  "app_signals (urt_app_set_handlers a) signum =
     (if signum \<in> {SIGSEGV, SIGINT, SIGHUP, SIGTERM, SIGQUIT, SIGUSR1, SIGUSR2} then SIG_HANDLER else app_signals a signum)"
  unfolding urt_app_set_handlers_def app_signals_fold by simp

lemma signals_interrupt:
  "deliver signum (urt_app_set_handlers a) =
     (if signum \<in> {SIGSEGV, SIGINT, SIGHUP, SIGTERM, SIGQUIT, SIGUSR1, SIGUSR2} \<or> app_signals a signum = SIG_HANDLER
      then Some ((urt_app_set_handlers a)\<lparr>app_interrupted := True\<rparr>) else None)"
  unfolding deliver_def app_signals_set urt_app_sig_handler_def by (cases "app_signals a signum") auto

text \<open>
  A kernel module whose thread could not be created for another reason than memory is loaded
  successfully, although its body does not run; when nothing else sets \<^verbatim>\<open>done\<close>, removing it
  never ends.
\<close>

theorem kernel_thread_failure_hangs:
  assumes "init a = (0, a1)" and "kthread_run a1 = (Inl e, a2)" and "e \<noteq> ENOMEM"
    and "\<not> app_done a2" and "\<And>b. app_done (pause b) = app_done b"
  shows "urt_app_init init body kthread_run a = (0, a2) \<and> urt_app_exit pause exit a2 = None"
proof -
  have "app_done ((pause ^^ n) b) = app_done b" for n b by (induction n) (simp_all add: assms(5))
  with assms show ?thesis by (simp add: urt_app_init_def urt_app_exit_def wait_done_first)
qed

theorem kernel_thread_failure_hangs_witness:
  "urt_app_init (\<lambda>a. (0, a)) (\<lambda>a. a\<lparr>app_done := True\<rparr>) (\<lambda>a. (Inl EINTR, a)) \<lparr>app_interrupted = False, app_done = False, app_data = (), app_signals = (\<lambda>n. SIG_DFL)\<rparr>
     = (0, \<lparr>app_interrupted = False, app_done = False, app_data = (), app_signals = (\<lambda>n. SIG_DFL)\<rparr>)
   \<and> urt_app_exit id id \<lparr>app_interrupted = False, app_done = False, app_data = (), app_signals = (\<lambda>n. SIG_DFL)\<rparr> = None"
  by (rule kernel_thread_failure_hangs [where e = EINTR]) simp_all

end
