(* ===== verification/Urt_Tools.thy ===== *)
theory Urt_Tools
  imports Urt_Param Urt_Setup
begin

text \<open>
  Inspection of the registry (\<^verbatim>\<open>urt_print_names\<close> and \<^verbatim>\<open>urt_dump_memory\<close> of \<^verbatim>\<open>src/registry.c\<close>) and the
  command-line tools \<^verbatim>\<open>urt-names\<close>, \<^verbatim>\<open>urt-dump\<close>, \<^verbatim>\<open>urt-clear\<close> and \<^verbatim>\<open>urt-recover\<close> (\<^verbatim>\<open>tools/\<close>), with the
  POSIX back-end. What is printed is a string that an operation returns; the error stream is
  left out.

  The lemmas show that a dump can be read back into the bytes of the object, that it leaves the
  registry and the object as they were, and which names the tool \<^verbatim>\<open>urt-clear\<close> removes.
\<close>

section \<open>Formatted output\<close>

text \<open>\<^verbatim>\<open>%*s\<close> and its kind: \<open>s\<close> in a field of at least \<open>n\<close> characters, filled with \<open>c\<close> on the left.\<close>

definition pad :: "nat \<Rightarrow> char \<Rightarrow> string \<Rightarrow> string" where
  "pad n c s = replicate (n - length s) c @ s"

text \<open>\<^verbatim>\<open>%X\<close>\<close>

definition hex_digits :: string where
  "hex_digits = ''0123456789ABCDEF''"

function hex_nat :: "nat \<Rightarrow> string" where
  "hex_nat n = (if n < 16 then [hex_digits ! n] else hex_nat (n div 16) @ [hex_digits ! (n mod 16)])"
  by pat_completeness auto
termination by (relation "measure id") auto

declare hex_nat.simps [simp del]

abbreviation newline :: char where "newline \<equiv> CHR 0x0A"

text \<open>\<^verbatim>\<open>urt_out\<close> as built with \<^verbatim>\<open>NDEBUG\<close>; otherwise the prefix has the file and the line, too.\<close>

definition urt_out :: "string \<Rightarrow> string" where
  "urt_out s = ''URT: '' @ s"

text \<open>\<^verbatim>\<open>isalnum\<close> in the C locale.\<close>

definition c_isalnum :: "char \<Rightarrow> bool" where
  "c_isalnum c \<longleftrightarrow> isdigit c \<or> CHR ''A'' \<le> c \<and> c \<le> CHR ''Z'' \<or> CHR ''a'' \<le> c \<and> c \<le> CHR ''z''"

section \<open>Printing the registry\<close>

definition type_label :: "int \<Rightarrow> string" where
  "type_label ty =
     (if ty = URT_TYPE_MEM then ''MEM '' else if ty = URT_TYPE_SEM then ''SEM ''
      else if ty = URT_TYPE_MUTEX then ''MUTEX'' else if ty = URT_TYPE_RWLOCK then ''RWLOCK''
      else if ty = URT_TYPE_COND then ''COND'' else ''??????'')"

definition yes_no :: "bool \<Rightarrow> string" where
  "yes_no b = (if b then ''Yes'' else ''No'')"

definition print_row :: "nat \<Rightarrow> urt_registered_object \<Rightarrow> string" where
  "print_row i obj = '' '' @ pad 7 CHR '' '' (dec_nat i) @ '' | '' @ pad URT_NAME_LEN CHR '' '' (cstr (ro_name obj))
     @ '' | '' @ pad 7 CHR '' '' (dec_nat (unat (ro_count obj))) @ '' | '' @ pad 8 CHR '' '' (yes_no (ro_reserved obj))
     @ '' | '' @ pad 11 CHR '' '' (yes_no (ro_has_bookkeeping obj))
     @ '' | '' @ pad 12 CHR '' '' (dec_nat (unat (ro_size obj - (if ro_has_bookkeeping obj then 16 else 0))))
     @ '' | '' @ pad 6 CHR '' '' (type_label (ro_type obj)) @ [newline]"

definition print_head :: string where
  "print_head = ''  index  | '' @ replicate (URT_NAME_LEN div 2 - 2) CHR '' '' @ ''name''
     @ replicate (URT_NAME_LEN - URT_NAME_LEN div 2 - 2) CHR '' ''
     @ '' |  count  | reserved | bookkeeping | size (bytes) |  type'' @ [newline]
     @ ''---------+-'' @ replicate URT_NAME_LEN CHR ''-''
     @ ''-+---------+----------+-------------+--------------+--------'' @ [newline]"

definition urt_print_names :: "'os urt_global \<Rightarrow> (string \<times> 'os urt_global) option" where
  "urt_print_names w = do {
     w1 \<leftarrow> urt_global_sem_wait w;
     let g = gmem w1;
     let rows = map (\<lambda>i. let obj = objects g ! i
           in if \<not> ro_reserved obj \<and> ro_count obj = 0 then [] else print_row i obj) [0..<URT_MAX_OBJECTS g];
     Some (print_head @ concat rows @ [newline] @ ''max index: '' @ dec_nat (objects_max_index g) @ [newline]
       @ ''next free name: '' @ pad URT_NAME_LEN CHR '' '' (cstr (next_free_name g))
       @ (if names_exhausted g then '' (cycled)'' else []) @ [newline], urt_global_sem_post w1)}"

section \<open>Dumping a memory\<close>

text \<open>One line of the dump: \<open>peek\<close> reads a byte of the object. Additions wrap as in C.\<close>

definition dump_row :: "(u64 \<Rightarrow> byte) \<Rightarrow> u64 \<Rightarrow> u64 \<Rightarrow> string" where
  "dump_row peek i fin =
     (let n = for_break (\<lambda>j. \<not> i + of_nat j < fin) 0 16; gap = (\<lambda>j. if j = 8 then '' '' else '''') in
      pad 8 CHR ''0'' (hex_nat (unat i)) @ '':''
      @ concat (map (\<lambda>j. gap j @ '' '' @ pad 2 CHR ''0'' (hex_nat (unat (peek (i + of_nat j))))) [0..<n])
      @ concat (map (\<lambda>j. gap j @ ''   '') [n..<16]) @ ''  ''
      @ map (\<lambda>j. let c = char_of (unat (peek (i + of_nat j))) in if c_isalnum c then c else CHR ''.'') [0..<n]
      @ [newline])"

partial_function (option) dump_rows :: "(u64 \<Rightarrow> byte) \<Rightarrow> u64 \<Rightarrow> u64 \<Rightarrow> string option" where
  "dump_rows peek i fin =
     (if i < fin then do { rest \<leftarrow> dump_rows peek (i + 16) fin; Some (dump_row peek i fin @ rest) } else Some [])"

declare dump_rows.simps [code]

text \<open>
  \<^verbatim>\<open>urt_dump_memory\<close> for any back-end: \<open>att\<close> and \<open>det\<close> are its two \<^verbatim>\<open>switch\<close> statements, \<open>peek\<close> reads the
  memory that the pointer of the attachment points to.
\<close>

definition dump_with ::
    "(int \<Rightarrow> string \<Rightarrow> 'os urt_global \<Rightarrow> ((int + 'obj) \<times> 'os urt_global) option) \<Rightarrow> (int \<Rightarrow> 'obj \<Rightarrow> 'os urt_global \<Rightarrow> 'os urt_global option)
      \<Rightarrow> (int \<Rightarrow> 'os \<Rightarrow> 'obj \<Rightarrow> u64 \<Rightarrow> byte) \<Rightarrow> string \<Rightarrow> u64 \<Rightarrow> u64 \<Rightarrow> 'os urt_global \<Rightarrow> (string \<times> 'os urt_global) option" where
  "dump_with att det peek name start fin w = do {
     w1 \<leftarrow> urt_global_sem_wait w;
     let ro = find_by_name (gmem w1) name;
     let w2 = urt_global_sem_post w1;
     (case ro of
        None \<Rightarrow> Some (''No such name '' @ [CHR 0x27] @ name @ [CHR 0x27, newline], w2)
      | Some i \<Rightarrow>
          (let ty = ro_type (objects (gmem w1) ! i);
               sz = ro_size (objects (gmem w1) ! i) - (if ro_has_bookkeeping (objects (gmem w1) ! i) then 16 else 0)
           in if ty \<notin> {URT_TYPE_MEM, URT_TYPE_SEM, URT_TYPE_MUTEX, URT_TYPE_RWLOCK, URT_TYPE_COND} then Some ([], w2)
              else do {
                (r, w3) \<leftarrow> att ty name w2;
                (case r of
                   Inl error \<Rightarrow> Some (''failed to attach to object with name '' @ [CHR 0x27] @ name @ [CHR 0x27]
                     @ '' (error: '' @ dec_int error @ '')'' @ [newline], w3)
                 | Inr obj \<Rightarrow>
                     (let start = (if start > sz then sz else start);
                          fin = (if fin = 0 \<or> fin > sz then sz else fin)
                      in do {
                        rows \<leftarrow> dump_rows (peek ty (gos w3) obj) start fin;
                        w4 \<leftarrow> det ty obj w3;
                        Some (''Displaying contents of '' @ [CHR 0x27] @ name @ [CHR 0x27] @ '':'' @ [newline] @ rows, w4)})) }))}"

text \<open>
  The object that \<^verbatim>\<open>obj\<close> points to: an address in a mapping, or the block of a semaphore. The
  bytes of a shared memory are those of the mapped object, and zero behind its end as far as its
  last page reaches. The bytes of locks are \<open>layout\<close>, which is up to the C library.
\<close>

datatype dump_obj = Mapped ptr | Sem_block nat

definition dump_peek :: "(posix_os \<Rightarrow> dump_obj \<Rightarrow> u64 \<Rightarrow> byte) \<Rightarrow> int \<Rightarrow> posix_os \<Rightarrow> dump_obj \<Rightarrow> u64 \<Rightarrow> byte" where
  "dump_peek layout ty os obj k =
     (case obj of
        Mapped p \<Rightarrow> if ty = URT_TYPE_MEM
          then (let bs = shm_bytes os (map_object (fst p) os); j = snd p + unat k in if j < length bs then bs ! j else 0)
          else layout os obj k
      | Sem_block s \<Rightarrow> layout os obj k)"

definition as_obj :: "('p \<Rightarrow> 'obj) \<Rightarrow> ((int + 'p) \<times> 'w) option \<Rightarrow> ((int + 'obj) \<times> 'w) option" where
  "as_obj f = map_option (map_prod (map_sum id f) id)"

text \<open>The two \<^verbatim>\<open>switch\<close> statements; \<open>self\<close> is the calling thread.\<close>

definition dump_attach :: "int \<Rightarrow> string \<Rightarrow> posix_global \<Rightarrow> ((int + dump_obj) \<times> posix_global) option" where
  "dump_attach ty name w =
     (if ty = URT_TYPE_MEM then as_obj Mapped (urt_shmem_attach name w)
      else if ty = URT_TYPE_SEM then as_obj Sem_block (urt_shsem_attach name w)
      else if ty = URT_TYPE_MUTEX then as_obj Mapped (urt_shmutex_attach name w)
      else if ty = URT_TYPE_RWLOCK then as_obj Mapped (urt_shrwlock_attach name w)
      else as_obj Mapped (urt_shcond_attach name w))"

definition dump_detach :: "nat \<Rightarrow> int \<Rightarrow> dump_obj \<Rightarrow> posix_global \<Rightarrow> posix_global option" where
  "dump_detach self ty obj w =
     (case obj of
        Sem_block s \<Rightarrow> urt_shsem_detach (Some s) w
      | Mapped p \<Rightarrow>
          if ty = URT_TYPE_MEM then urt_shmem_detach (Some p) w
          else if ty = URT_TYPE_MUTEX then urt_shmutex_detach self (Some p) w
          else if ty = URT_TYPE_RWLOCK then urt_shrwlock_detach self (Some p) w
          else urt_shcond_detach self (Some p) w)"

definition urt_dump_memory :: "(posix_os \<Rightarrow> dump_obj \<Rightarrow> u64 \<Rightarrow> byte) \<Rightarrow> nat \<Rightarrow> string \<Rightarrow> u64 \<Rightarrow> u64 \<Rightarrow> posix_global \<Rightarrow> (string \<times> posix_global) option" where
  "urt_dump_memory layout self = dump_with dump_attach (dump_detach self) (dump_peek layout)"

section \<open>The tools\<close>

text \<open>\<^verbatim>\<open>sscanf(s, "%zu", &v) == 1\<close>: the number is read as \<^verbatim>\<open>strtoul\<close> does, and there has to be a digit.\<close>

definition scan_zu :: "string \<Rightarrow> u64 option" where
  "scan_zu s =
     (let s1 = dropWhile isspace s;
          s2 = (if s1 \<noteq> [] \<and> (hd s1 = CHR ''-'' \<or> hd s1 = CHR ''+'') then tl s1 else s1)
      in if s2 \<noteq> [] \<and> isdigit (hd s2) then Some (fst (strtoul s)) else None)"

abbreviation EXIT_FAILURE :: int where "EXIT_FAILURE \<equiv> 1"

definition is_help :: "string \<Rightarrow> bool" where
  "is_help a \<longleftrightarrow> a = ''--help'' \<or> a = ''-h''"

definition unable :: "int \<Rightarrow> string" where
  "unable ret = urt_out (''unable to initialize URT: '' @ dec_int ret @ [newline])"

definition names_main :: "u64 \<Rightarrow> u64 \<Rightarrow> setup_state \<Rightarrow> (int \<times> string \<times> setup_state) option" where
  "names_main si so s = do {
     (ret, s1) \<leftarrow> urt_init si so s;
     if ret \<noteq> 0 then Some (EXIT_FAILURE, unable ret, s1)
     else do { (out, w) \<leftarrow> urt_print_names (snd s1); Some (0, out, urt_exit si (fst s1, w)) }}"

text \<open>
  The loops over the arguments, without \<^verbatim>\<open>argv[0]\<close>; \<open>ignore_options\<close> and the range are the variables of the
  code. The operation of the tool is \<open>clear\<close> or \<open>dump\<close>.
\<close>

fun clear_args :: "(string \<Rightarrow> 's \<Rightarrow> 's option) \<Rightarrow> string \<Rightarrow> bool \<Rightarrow> string list \<Rightarrow> 's \<Rightarrow> (string \<times> 's) option" where
  "clear_args clear help ignore_options [] s = Some ([], s)"
| "clear_args clear help ignore_options (a # rest) s =
     (if \<not> ignore_options \<and> is_help a then Some (help, s)
      else if \<not> ignore_options \<and> a = ''--'' then clear_args clear help True rest s
      else do { s1 \<leftarrow> clear a s; clear_args clear help ignore_options rest s1 })"

definition clear_help :: "string \<Rightarrow> string" where
  "clear_help exe = urt_out (''usage: '' @ exe @ '' names'' @ [newline])"

definition clear_main :: "u64 \<Rightarrow> u64 \<Rightarrow> string list \<Rightarrow> setup_state \<Rightarrow> (int \<times> string \<times> setup_state) option" where
  "clear_main si so argv s =
     (if length argv < 2 then Some (0, clear_help (hd argv), s)
      else do {
        (ret, s1) \<leftarrow> urt_init si so s;
        if ret \<noteq> 0 then Some (EXIT_FAILURE, unable ret, s1)
        else do {
          (out, w) \<leftarrow> clear_args (urt_force_clear_name urt_sys_force_clear_name) (clear_help (hd argv)) False (tl argv) (snd s1);
          Some (0, out, urt_exit si (fst s1, w)) }})"

function dump_args :: "(string \<Rightarrow> u64 \<Rightarrow> u64 \<Rightarrow> 's \<Rightarrow> (string \<times> 's) option) \<Rightarrow> string \<Rightarrow> bool \<Rightarrow> u64 \<Rightarrow> u64 \<Rightarrow> string list \<Rightarrow> 's
      \<Rightarrow> (string \<times> 's) option" where
  "dump_args dump help ignore_options start fin [] s = Some ([], s)"
| "dump_args dump help ignore_options start fin (a # rest) s =
     (if \<not> ignore_options \<and> is_help a then Some (help, s)
      else if \<not> ignore_options \<and> (a = ''--size'' \<or> a = ''-s'') then
        (if length rest < 2 then Some ([], s)
         else case scan_zu (hd rest) of
             None \<Rightarrow> do { (out, s1) \<leftarrow> dump_args dump help ignore_options start fin (tl rest) s;
                         Some (urt_out (''bad argument to --size.  Use --help for help.'' @ [newline]) @ out, s1) }
           | Some v \<Rightarrow> (case scan_zu (hd (tl rest)) of
                 None \<Rightarrow> dump_args dump help ignore_options v fin (tl rest) s
               | Some u \<Rightarrow> dump_args dump help ignore_options v u (tl (tl rest)) s))
      else if \<not> ignore_options \<and> a = ''--'' then dump_args dump help True start fin rest s
      else do { (out, s1) \<leftarrow> dump a start fin s; (out', s2) \<leftarrow> dump_args dump help ignore_options 0 0 rest s1;
                Some (out @ out', s2) })"
  by pat_completeness auto
termination
  by (relation "measure (\<lambda>(dump, help, ign, start, fin, args, s). length args)") auto

definition dump_help :: "string \<Rightarrow> string" where
  "dump_help exe = urt_out (''usage: '' @ exe @ '' <[--range start [end]] name>+'' @ [newline]) @ urt_out [newline]
     @ urt_out (''  Start and end are nonnegative numbers.'' @ [newline])
     @ urt_out (''  If 1 is given for end, it means dump until the end of object.'' @ [newline])"

definition dump_main :: "(posix_os \<Rightarrow> dump_obj \<Rightarrow> u64 \<Rightarrow> byte) \<Rightarrow> nat \<Rightarrow> u64 \<Rightarrow> u64 \<Rightarrow> string list \<Rightarrow> setup_state \<Rightarrow> (int \<times> string \<times> setup_state) option" where
  "dump_main layout self si so argv s =
     (if length argv < 2 then Some (0, dump_help (hd argv), s)
      else do {
        (ret, s1) \<leftarrow> urt_init si so s;
        if ret \<noteq> 0 then Some (EXIT_FAILURE, unable ret, s1)
        else do {
          (out, w) \<leftarrow> dump_args (urt_dump_memory layout self) (dump_help (hd argv)) False 0 0 (tl argv) (snd s1);
          Some (0, out, urt_exit si (fst s1, w)) }})"

definition recover_main :: "u64 \<Rightarrow> setup_state \<Rightarrow> int \<times> setup_state" where
  "recover_main si s = (0, urt_recover si s)"


section \<open>Reading a dump\<close>

definition hex_val :: "char \<Rightarrow> nat" where
  "hex_val c = length (takeWhile (\<lambda>d. d \<noteq> c) hex_digits)"

fun hex_pairs :: "string \<Rightarrow> byte list" where
  "hex_pairs (a # b # r) = of_nat (16 * hex_val a + hex_val b) # hex_pairs r"
| "hex_pairs r = []"

text \<open>The bytes are in the 49 columns after the colon.\<close>

definition undump_row :: "string \<Rightarrow> byte list" where
  "undump_row l = hex_pairs (filter (\<lambda>c. c \<noteq> CHR '' '') (take 49 (tl (dropWhile (\<lambda>c. c \<noteq> CHR '':'') l))))"

function undump :: "string \<Rightarrow> byte list" where
  "undump s = (if s = [] then [] else undump_row (takeWhile (\<lambda>c. c \<noteq> newline) s) @ undump (tl (dropWhile (\<lambda>c. c \<noteq> newline) s)))"
  by pat_completeness auto
termination
proof (relation "measure length")
  show "(tl (dropWhile (\<lambda>c. c \<noteq> newline) s), s) \<in> measure length" if "s \<noteq> []" for s
    using that length_dropWhile_le [of "\<lambda>c. c \<noteq> newline" s] by (cases s) (auto simp: le_imp_less_Suc)
qed simp

declare undump.simps [simp del]

lemma hex_digits_facts:
  assumes "d < 16"
  shows "hex_val (hex_digits ! d) = d" "hex_digits ! d \<notin> {CHR '' '', CHR '':'', newline}"
proof -
  have "\<forall>d\<in>set [0..<16]. hex_val (hex_digits ! d) = d \<and> hex_digits ! d \<notin> {CHR '' '', CHR '':'', newline}"
    by code_simp
  with assms show "hex_val (hex_digits ! d) = d" "hex_digits ! d \<notin> {CHR '' '', CHR '':'', newline}" by auto
qed

lemma hex_nat_chars: "c \<in> set (hex_nat n) \<Longrightarrow> c \<notin> {CHR '' '', CHR '':'', newline}"
proof (induction n rule: hex_nat.induct)
  case (1 n)
  then show ?case
    using hex_digits_facts(2) [of n] hex_digits_facts(2) [of "n mod 16"]
    by (auto simp: hex_nat.simps [of n] split: if_splits)
qed

text \<open>A byte in two digits.\<close>

definition hex2 :: "byte \<Rightarrow> string" where
  "hex2 b = [hex_digits ! (unat b div 16), hex_digits ! (unat b mod 16)]"

lemma unat_byte: "unat (b :: byte) < 256"
  using unsigned_less [of b, where 'a = nat] by simp

lemma hex2_pad: "pad 2 CHR ''0'' (hex_nat (unat b)) = hex2 b" for b :: byte
proof -
  have b: "unat b < 256" "unat b div 16 < 16" using unat_byte [of b] by simp_all
  have z: "hex_digits ! 0 = CHR ''0''" by (simp add: hex_digits_def)
  from b show ?thesis
    by (simp add: hex2_def pad_def hex_nat.simps [of "unat b"] hex_nat.simps [of "unat b div 16"] z)
qed

lemma hex2_facts: "length (hex2 b) = 2" "c \<in> set (hex2 b) \<Longrightarrow> c \<notin> {CHR '' '', CHR '':'', newline}"
  "hex_pairs (hex2 b @ r) = b # hex_pairs r"
proof -
  have d: "unat b div 16 < 16" "unat b mod 16 < 16" using unat_byte [of b] by simp_all
  show "length (hex2 b) = 2" by (simp add: hex2_def)
  show "c \<in> set (hex2 b) \<Longrightarrow> c \<notin> {CHR '' '', CHR '':'', newline}"
    using hex_digits_facts(2) [OF d(1)] hex_digits_facts(2) [OF d(2)] by (auto simp: hex2_def)
  show "hex_pairs (hex2 b @ r) = b # hex_pairs r"
    using d by (simp add: hex2_def hex_digits_facts del: of_nat_add of_nat_mult)
qed

lemma hex_pairs_concat: "hex_pairs (concat (map (\<lambda>j. hex2 (f j)) xs)) = map f xs"
  by (induction xs) (simp_all add: hex2_facts)

text \<open>The columns of the bytes.\<close>

definition hex_columns :: "nat \<Rightarrow> (nat \<Rightarrow> byte) \<Rightarrow> string" where
  "hex_columns n f =
     concat (map (\<lambda>j. (if j = 8 then '' '' else '''') @ '' '' @ hex2 (f j)) [0..<n])
     @ concat (map (\<lambda>j. (if j = 8 then '' '' else '''') @ ''   '') [n..<16])"

lemma hex_columns_length:
  assumes "n \<le> 16"
  shows "length (hex_columns n f) = 49"
proof -
  let ?h = "\<lambda>j::nat. if j = 8 then 4 else 3 :: nat"
  have u: "[0..<n] @ [n..<16] = [0..<16]" using upt_add_eq_append [of 0 n "16 - n"] assms by simp
  have "length (hex_columns n f) = sum_list (map ?h [0..<n]) + sum_list (map ?h [n..<16])"
    unfolding hex_columns_def length_append length_concat map_map
    by (intro arg_cong2 [where f = "(+)"] arg_cong [where f = sum_list] map_cong) (simp_all add: hex2_facts)
  also have "\<dots> = sum_list (map ?h ([0..<n] @ [n..<16]))" by simp
  also have "\<dots> = 49" unfolding u by code_simp
  finally show ?thesis .
qed

lemma hex_columns_filter: "filter (\<lambda>c. c \<noteq> CHR '' '') (hex_columns n f) = concat (map (\<lambda>j. hex2 (f j)) [0..<n])"
proof -
  have "filter (\<lambda>c. c \<noteq> CHR '' '') (hex2 b) = hex2 b" for b
    using hex2_facts(2) [of _ b] by (auto simp: filter_id_conv)
  then have a: "filter (\<lambda>c. c \<noteq> CHR '' '') \<circ> (\<lambda>j. (if j = 8 then '' '' else '''') @ '' '' @ hex2 (f j)) = (\<lambda>j. hex2 (f j))"
    by (intro ext) simp
  have b: "filter (\<lambda>c. c \<noteq> CHR '' '') \<circ> (\<lambda>j::nat. (if j = 8 then '' '' else '''') @ ''   '') = (\<lambda>j. [])"
    by (intro ext) simp
  show ?thesis unfolding hex_columns_def filter_append filter_concat map_map a b by (simp add: concat_eq_Nil_conv)
qed

lemma no_wrap_u64: "unat (i :: u64) + j < 2 ^ 64 \<Longrightarrow> unat (i + of_nat j) = unat i + j"
  using unat_u64_plus [of i "of_nat j"] by (simp add: unat_of_nat take_bit_eq_mod)

lemma dump_row_width:
  assumes "i < (fin :: u64)" and "unat fin + 16 \<le> 2 ^ 64"
  shows "for_break (\<lambda>j. \<not> i + of_nat j < fin) 0 16 = min 16 (unat fin - unat i)"
proof -
  have i: "unat i < unat fin" using assms(1) by (simp add: word_less_nat_alt)
  have lt: "i + of_nat j < fin \<longleftrightarrow> unat i + j < unat fin" if "j < 16" for j
    using no_wrap_u64 [of i j] that i assms(2) by (simp add: word_less_nat_alt)
  show ?thesis
  proof (cases "unat fin - unat i < 16")
    case True
    with lt i show ?thesis by (simp add: for_break_unique)
  next
    case False
    with lt show ?thesis by (simp add: for_break_none)
  qed
qed

text \<open>A row: the address, a colon, the columns, the printable characters.\<close>

lemma hex_columns_chars: "c \<in> set (hex_columns n f) \<Longrightarrow> c \<noteq> newline"
  using hex2_facts(2) by (fastforce simp: hex_columns_def split: if_splits)

lemma undump_dump_row:
  assumes "n = for_break (\<lambda>j. \<not> i + of_nat j < fin) 0 16"
  shows "undump (dump_row peek i fin @ rest) = map (\<lambda>j. peek (i + of_nat j)) [0..<n] @ undump rest"
proof -
  let ?f = "\<lambda>j. peek (i + of_nat j)"
  define addr where "addr = pad 8 CHR ''0'' (hex_nat (unat i))"
  define shown where "shown = map (\<lambda>j. let c = char_of (unat (?f j)) in if c_isalnum c then c else CHR ''.'') [0..<n]"
  let ?l = "addr @ CHR '':'' # hex_columns n ?f @ ''  '' @ shown"
  have row: "dump_row peek i fin = ?l @ [newline]"
    unfolding dump_row_def Let_def assms [symmetric] hex2_pad hex_columns_def addr_def shown_def by simp
  have addr: "c \<notin> {CHR '' '', CHR '':'', newline}" if "c \<in> set addr" for c
    using that hex_nat_chars [of c "unat i"] by (auto simp: addr_def pad_def split: if_splits)
  have nl: "\<not> c_isalnum newline" by code_simp
  have shown: "newline \<notin> set shown"
    using nl by (auto simp: shown_def Let_def split: if_splits)
  have l: "newline \<notin> set ?l" using addr shown hex_columns_chars [of newline n ?f] by auto
  have n: "n \<le> 16" unfolding assms by (rule for_break_le) simp
  have "dropWhile (\<lambda>c. c \<noteq> CHR '':'') ?l = CHR '':'' # hex_columns n ?f @ ''  '' @ shown"
    using addr by (subst dropWhile_append2) auto
  then have "undump_row ?l = map ?f [0..<n]"
    using hex_columns_length [OF n, of ?f] by (simp add: undump_row_def hex_columns_filter hex_pairs_concat)
  moreover have "takeWhile (\<lambda>c. c \<noteq> newline) (?l @ newline # rest) = ?l"
    using l by (subst takeWhile_append2) auto
  moreover have "dropWhile (\<lambda>c. c \<noteq> newline) (?l @ newline # rest) = newline # rest"
    using l by (subst dropWhile_append2) auto
  moreover have "undump (?l @ newline # rest) =
      undump_row (takeWhile (\<lambda>c. c \<noteq> newline) (?l @ newline # rest)) @ undump (tl (dropWhile (\<lambda>c. c \<noteq> newline) (?l @ newline # rest)))"
    by (subst undump.simps) simp
  ultimately show ?thesis unfolding row by simp
qed

text \<open>The loop ends, and its output can be read back, when the end is at least 16 below the limit of \<^verbatim>\<open>size_t\<close>.\<close>

lemma dump_rows_read:
  assumes "unat fin + 16 \<le> 2 ^ 64"
  shows "\<exists>t. dump_rows peek i fin = Some t \<and> undump t = map (\<lambda>k. peek (of_nat k)) [unat i..<unat fin]"
proof (induction "unat fin - unat i" arbitrary: i rule: less_induct)
  case less
  show ?case
  proof (cases "i < fin")
    case False
    then have "unat fin \<le> unat i" by (simp add: word_less_nat_alt not_less)
    with False show ?thesis by (simp add: dump_rows.simps undump.simps)
  next
    case True
    then have i: "unat i < unat fin" by (simp add: word_less_nat_alt)
    let ?n = "min 16 (unat fin - unat i)"
    have i16: "unat (i + 16) = unat i + 16" using no_wrap_u64 [of i 16] i assms by simp
    then have "unat fin - unat (i + 16) < unat fin - unat i" using i by simp
    from less [OF this] obtain t where t: "dump_rows peek (i + 16) fin = Some t"
      "undump t = map (\<lambda>k. peek (of_nat k)) [unat i + 16..<unat fin]" using i16 by auto
    have m: "map (\<lambda>j. peek (i + of_nat j)) [0..<?n] = map (\<lambda>k. peek (of_nat k)) [unat i..<unat i + ?n]"
      by (rule nth_equalityI) simp_all
    have "[unat i..<unat fin] = [unat i..<unat i + ?n] @ [unat i + 16..<unat fin]"
    proof (cases "16 \<le> unat fin - unat i")
      case True
      then have "unat fin = unat i + 16 + (unat fin - (unat i + 16))" by simp
      with upt_add_eq_append [of "unat i" "unat i + 16"] True show ?thesis by (metis le_add1 min.absorb1)
    next
      case False
      with i show ?thesis by simp
    qed
    then show ?thesis
      using True t m undump_dump_row [OF refl, of peek i fin t] dump_row_width [OF True assms]
      by (subst dump_rows.simps) simp
  qed
qed

text \<open>What is printed of the registry: the slots in use, in order. Printing changes nothing.\<close>

lemma print_names_lists_used:
  assumes "0 < gsem w"
  shows "urt_print_names w = Some (print_head
    @ concat (map (\<lambda>i. print_row i (objects (gmem w) ! i)) (filter (\<lambda>i. ro_used (objects (gmem w) ! i)) [0..<URT_MAX_OBJECTS (gmem w)]))
    @ [newline] @ ''max index: '' @ dec_nat (objects_max_index (gmem w)) @ [newline]
    @ ''next free name: '' @ pad URT_NAME_LEN CHR '' '' (cstr (next_free_name (gmem w)))
    @ (if names_exhausted (gmem w) then '' (cycled)'' else []) @ [newline], w)"
proof -
  have "concat (map (\<lambda>i. if \<not> ro_reserved (objs ! i) \<and> ro_count (objs ! i) = 0 then [] else print_row i (objs ! i)) ks)
      = concat (map (\<lambda>i. print_row i (objs ! i)) (filter (\<lambda>i. ro_used (objs ! i)) ks))" for objs ks
    by (induction ks) (auto simp: ro_used_def)
  then show ?thesis using assms by (simp add: urt_print_names_def sem_wait_run urt_global_sem_post_def Let_def)
qed

section \<open>A visit to a shared memory\<close>

text \<open>What a user sees that attaches to a memory others created: the mapped object is the one behind the name.\<close>

lemma shmem_visit:
  assumes "registry_inv (gmem w)" and "0 < gsem w" and "os_ok (gos w)"
    and "name_table (gmem w) (cname name) = Some i" and "ro_count (objects (gmem w) ! i) \<noteq> -1"
    and "posix_name name = Some n" and "shm_names (gos w) n = Some k" and "16 \<le> length (shm_bytes (gos w) k)"
    and "urt_shmem_attach name w = Some (Inr p, w1)"
  obtains m where "p = (m, 16)" "registry_inv (gmem w1)" "gsem w1 = gsem w" "name_table (gmem w1) = name_table (gmem w)"
    "objects (gmem w1) = (objects (gmem w))[i := (counted_slot (objects (gmem w) ! i))\<lparr>ro_has_bookkeeping := True\<rparr>]"
    "i < URT_MAX_OBJECTS (gmem w)" "maps (gos w) m = None" "maps (gos w1) = (maps (gos w))(m \<mapsto> (k, length (shm_bytes (gos w) k)))"
    "load_u32 (m, 0) (gos w1) = of_nat i" "shm_names (gos w1) = shm_names (gos w)"
    "\<And>j. drop 16 (shm_bytes (gos w1) j) = drop 16 (shm_bytes (gos w) j)"
    "length (shm_bytes (gos w1) k) = length (shm_bytes (gos w) k)"
proof -
  from urt_shmem_attach_success [OF assms(1-3,9)] obtain m os2 where
    p: "p = (m, 16)" "os_next (gos w) \<le> m" "gsem w1 = gsem w"
    and g: "gmem w1 = ro_update i (\<lambda>ro. (counted_slot ro)\<lparr>ro_has_bookkeeping := True\<rparr>) (gmem w)"
    and o: "gos w1 = store_u32 (m, 0) (of_nat i) os2" "shm_names os2 = shm_names (gos w)"
      "shm_bytes os2 = shm_bytes (gos w)" "maps os2 = (maps (gos w))(m \<mapsto> (k, length (shm_bytes (gos w) k)))"
    using assms(4,6,7) by (metis option.inject)
  note i = name_table_invD [OF assms(1,4)]
  let ?f = "\<lambda>ro. (counted_slot ro)\<lparr>ro_has_bookkeeping := True\<rparr>"
  have "ro_used (?f (objects (gmem w) ! i))"
    using u32_inc_nonzero [OF assms(5)] by (simp add: ro_used_def counted_slot_def)
  then have reg: "registry_inv (gmem w1)" "name_table (gmem w1) = name_table (gmem w)"
    using registry_update [OF assms(1) i(1,2), of ?f] g by (simp_all add: counted_slot_def)
  have obj: "objects (gmem w1) = (objects (gmem w))[i := ?f (objects (gmem w) ! i)]"
    unfolding g by (simp add: ro_update_def)
  have m: "map_object m os2 = k" by (simp add: map_object_def o(4))
  have load: "load_u32 (m, 0) (gos w1) = of_nat i"
    unfolding o(1) by (rule load_store_u32) (use m o(3) assms(8) in simp)
  have bytes: "shm_bytes (gos w1) = (shm_bytes (gos w))(k := u32_bytes (of_nat i) @ drop 4 (shm_bytes (gos w) k))"
    unfolding o(1) by (simp add: store_u32_def Let_def m o(3))
  have "drop 16 (shm_bytes (gos w1) j) = drop 16 (shm_bytes (gos w) j)" for j by (simp add: bytes)
  moreover have "length (shm_bytes (gos w1) k) = length (shm_bytes (gos w) k)" using assms(8) by (simp add: bytes)
  moreover have "maps (gos w) m = None" by (rule os_okD(2) [OF assms(3) p(2)])
  ultimately show ?thesis
    using o by (intro that [OF p(1) reg(1) p(3) reg(2) obj i(1) _ _ load]) simp_all
qed

lemma dump_range:
  assumes "unat sz = length data" and "length data + 16 < 2 ^ 64" and "\<And>j. j < length data \<Longrightarrow> peek (of_nat j) = data ! j"
  shows "\<exists>t. dump_rows peek (if start > sz then sz else start) (if fin = 0 \<or> fin > sz then sz else fin) = Some t
    \<and> undump t = drop (unat start) (if fin = 0 then data else take (unat fin) data)"
proof -
  define s e where "s = (if start > sz then sz else start)" and "e = (if fin = 0 \<or> fin > sz then sz else fin)"
  have e: "unat s = min (unat start) (length data)" "unat e = (if fin = 0 then length data else min (unat fin) (length data))"
    using assms(1) by (auto simp: s_def e_def word_less_nat_alt min_def)
  have "unat e \<le> length data" using e(2) by simp
  with assms(2) have "unat e + 16 \<le> 2 ^ 64" by simp
  from dump_rows_read [OF this, of peek s] obtain t where
    t: "dump_rows peek s e = Some t" "undump t = map (\<lambda>j. peek (of_nat j)) [unat s..<unat e]" by blast
  have "undump t = map ((!) data) [unat s..<unat e]" using t(2) e(2) assms(3) by simp
  also have "\<dots> = drop (unat start) (if fin = 0 then data else take (unat fin) data)"
  proof (rule nth_equalityI)
    fix j assume "j < length (map ((!) data) [unat s..<unat e])"
    then have "unat s + j < unat e" "unat s = unat start" using e by (auto simp: min_def split: if_splits)
    then show "map ((!) data) [unat s..<unat e] ! j = drop (unat start) (if fin = 0 then data else take (unat fin) data) ! j"
      using e(2) by (simp split: if_splits)
  qed (use e in \<open>auto simp: min_def\<close>)
  finally show ?thesis using t(1) unfolding s_def e_def by blast
qed

text \<open>The bytes of a mapped memory, at the user's address.\<close>

lemma dump_peek_data:
  assumes "maps os m = Some (k, len)" and "drop 16 (shm_bytes os k) = data" and "length data + 16 < 2 ^ 64"
    and "j < length data"
  shows "dump_peek layout URT_TYPE_MEM os (Mapped (m, 16)) (of_nat j) = data ! j"
proof -
  have "unat (of_nat j :: u64) = j" using assms(3,4) by (simp add: unat_of_nat take_bit_eq_mod)
  then show ?thesis using assms by (auto simp: dump_peek_def map_object_def Let_def)
qed

section \<open>Properties\<close>

text \<open>
  C23: A dump of a shared memory shows the object and disturbs nothing. When the tool can attach,
  the output after the heading can be read back into exactly the bytes of the range, cut to the
  size of the object, an end of 0 standing for the size; afterwards the registry, the slot's
  count, the mappings and the contents are what they were.
\<close>

theorem dump_memory_roundtrip:
  assumes "registry_inv (gmem w)" and "0 < gsem w" and "os_ok (gos w)" and "URT_MAX_OBJECTS (gmem w) \<le> 2 ^ 32"
    and "name_table (gmem w) (cname name) = Some i" and "ro_type (objects (gmem w) ! i) = URT_TYPE_MEM"
    and "ro_has_bookkeeping (objects (gmem w) ! i)" and "ro_count (objects (gmem w) ! i) \<notin> {0, -1}"
    and "posix_name name = Some n" and "shm_names (gos w) n = Some k"
    and "shm_bytes (gos w) k = book @ data" and "length book = 16"
    and "unat (ro_size (objects (gmem w) ! i)) = 16 + length data"
    and "urt_shmem_attach name w = Some (Inr p, w1)"
  shows "\<exists>t w'. urt_dump_memory layout self name start fin w
      = Some (''Displaying contents of '' @ [CHR 0x27] @ name @ [CHR 0x27] @ '':'' @ [newline] @ t, w')
    \<and> undump t = drop (unat start) (if fin = 0 then data else take (unat fin) data)
    \<and> registry_inv (gmem w') \<and> gsem w' = gsem w \<and> name_table (gmem w') = name_table (gmem w)
    \<and> ro_count (objects (gmem w') ! i) = ro_count (objects (gmem w) ! i)
    \<and> maps (gos w') = maps (gos w) \<and> shm_names (gos w') = shm_names (gos w)
    \<and> drop 16 (shm_bytes (gos w') k) = data"
proof -
  let ?ro = "objects (gmem w) ! i"
  have sz: "unat (ro_size ?ro - 16) = length data" "length data + 16 < 2 ^ 64"
    using assms(13) unat_sub [of "16 :: u64" "ro_size ?ro"] u64_bound [of "ro_size ?ro"] by (simp_all add: word_le_nat_alt)
  have len: "length (shm_bytes (gos w) k) = 16 + length data" "ro_count ?ro \<noteq> -1" "16 \<le> length (shm_bytes (gos w) k)"
    using assms(8,11,12) by simp_all
  from shmem_visit [OF assms(1-3,5) len(2) assms(9,10) len(3) assms(14)] obtain m where
    p: "p = (m, 16)" and w1: "registry_inv (gmem w1)" "gsem w1 = gsem w" "name_table (gmem w1) = name_table (gmem w)"
      "objects (gmem w1) = (objects (gmem w))[i := (counted_slot ?ro)\<lparr>ro_has_bookkeeping := True\<rparr>]"
      "i < URT_MAX_OBJECTS (gmem w)" "maps (gos w) m = None"
    and o: "maps (gos w1) = (maps (gos w))(m \<mapsto> (k, 16 + length data))" "load_u32 (m, 0) (gos w1) = of_nat i"
      "shm_names (gos w1) = shm_names (gos w)" "drop 16 (shm_bytes (gos w1) k) = data"
    using len(1) assms(11,12) by (metis append_eq_conv_conj)
  have "maps (gos w1) m = Some (k, 16 + length data)" using o(1) by simp
  note peek = dump_peek_data [OF this o(4) sz(2), of _ layout]
  from dump_range [OF sz peek] obtain t where
    t: "dump_rows (dump_peek layout URT_TYPE_MEM (gos w1) (Mapped p)) (if start > ro_size ?ro - 16 then ro_size ?ro - 16 else start)
        (if fin = 0 \<or> fin > ro_size ?ro - 16 then ro_size ?ro - 16 else fin) = Some t"
      "undump t = drop (unat start) (if fin = 0 then data else take (unat fin) data)"
    using p by blast
  have slot: "objects (gmem w1) ! i = (counted_slot ?ro)\<lparr>ro_has_bookkeeping := True\<rparr>" using w1(4,5) by simp
  have cnt: "unat (ro_count (objects (gmem w1) ! i)) = Suc (unat (ro_count ?ro))" "unat (ro_count ?ro) \<noteq> 0"
    using assms(8) u32_inc_nonzero [OF len(2)] by (simp_all add: slot counted_slot_def unatSuc add.commute unat_eq_zero)
  have h: "name_table (gmem w1) (cname name) = Some i" "i < 2 ^ 32" "0 < gsem w1"
    "maps (gos w1) m = Some (k, unat (ro_size (objects (gmem w1) ! i)))" "0 < unat (ro_size (objects (gmem w1) ! i))"
    using w1 assms(2,4,5,13) o(1) by (simp_all add: slot counted_slot_def)
  from urt_shmem_detach_handle [OF w1(1) h(3,1,2,4,5) o(2) cnt(1)] obtain w' where
    d: "urt_shmem_detach (Some p) w1 = Some w'" "registry_inv (gmem w')" "gsem w' = gsem w1"
      "maps (gos w') = (maps (gos w1))(m := None)" "shm_bytes (gos w') = shm_bytes (gos w1)"
      "shm_names (gos w') = shm_names (gos w1)" "name_table (gmem w') = name_table (gmem w1)"
      "objects (gmem w') = (objects (gmem w1))[i := released_slot (objects (gmem w1) ! i)]"
    using cnt(2) p by (metis (no_types, lifting))
  have "urt_dump_memory layout self name start fin w
      = Some (''Displaying contents of '' @ [CHR 0x27] @ name @ [CHR 0x27] @ '':'' @ [newline] @ t, w')"
    using assms(2,5,6,7,14) t(1) d(1)
    by (simp add: urt_dump_memory_def dump_with_def sem_wait_run urt_global_sem_post_def find_by_name_table [OF assms(1)]
        dump_attach_def as_obj_def dump_detach_def Let_def)
  moreover have "ro_count (objects (gmem w') ! i) = ro_count ?ro"
    using d(8) w1(4,5) cnt u32_inc_nonzero [OF len(2)] by (simp add: slot released_slot_def counted_slot_def)
  moreover have "maps (gos w') = maps (gos w)" using d(4) o(1) w1(6) by (auto simp: fun_upd_idem)
  ultimately show ?thesis using t(2) d w1 o by simp
qed

theorem dump_memory_roundtrip_witness:
  "\<exists>t w'. urt_dump_memory (\<lambda>os obj k. 0) 0 ''AB'' 2 0 posix_shared
      = Some (''Displaying contents of '' @ [CHR 0x27] @ ''AB'' @ [CHR 0x27] @ '':'' @ [newline] @ t, w')
    \<and> undump t = replicate 6 0 \<and> name_table (gmem w') = name_table (gmem posix_shared)"
proof -
  have "case urt_shmem_attach ''AB'' posix_shared of Some (Inr q, w2) \<Rightarrow> True | _ \<Rightarrow> False" by code_simp
  from run_success [OF this] obtain q w2 where a: "urt_shmem_attach ''AB'' posix_shared = Some (Inr q, w2)" .
  have f: "URT_MAX_OBJECTS (gmem posix_shared) \<le> 2 ^ 32" "ro_has_bookkeeping (objects (gmem posix_shared) ! 0)"
    "ro_count (objects (gmem posix_shared) ! 0) \<notin> {0, -1}" "shm_bytes (gos posix_shared) 1 = replicate 16 0 @ replicate 8 0"
    "length (replicate 16 (0 :: byte)) = 16" "unat (ro_size (objects (gmem posix_shared) ! 0)) = 16 + length (replicate 8 (0 :: byte))"
    using posix_shared_facts by simp_all
  note s = posix_shared_facts(2,4,5)
  have r: "drop (unat (2 :: u64)) (replicate 8 (0 :: byte)) = replicate 6 0" by simp
  from dump_memory_roundtrip [OF posix_shared_ok f(1) _ s(2) f(2,3) name_AB(2) s(3) f(4,5,6) a, of "\<lambda>os obj k. 0" 0 2 0]
    s(1) name_AB(1) r show ?thesis by auto
qed

text \<open>
  The arguments that \<^verbatim>\<open>urt-clear\<close> takes for names: those before the first \<^verbatim>\<open>--\<close> or request for
  help, and those after \<^verbatim>\<open>--\<close>.
\<close>

definition clear_names :: "string list \<Rightarrow> string list" where
  "clear_names args =
     (let names = takeWhile (\<lambda>a. a \<noteq> ''--'' \<and> \<not> is_help a) args; rest = drop (length names) args
      in names @ (if rest \<noteq> [] \<and> hd rest = ''--'' then tl rest else []))"

lemma clear_names_Cons:
  "clear_names (a # args) = (if a = ''--'' then args else if is_help a then [] else a # clear_names args)"
  by (auto simp: clear_names_def Let_def is_help_def)

lemma force_clear_table:
  assumes "registry_inv (gmem w)" and "0 < gsem w"
  shows "\<exists>w'. urt_force_clear_name clr name w = Some w' \<and> registry_inv (gmem w') \<and> gsem w' = gsem w
    \<and> name_table (gmem w') = (name_table (gmem w))(cname name := None)"
proof (cases "name_table (gmem w) (cname name)")
  case None
  with force_clear_unknown [OF assms None] assms(1) show ?thesis by (simp add: fun_upd_idem)
next
  case (Some i)
  with force_clear_known [OF assms Some, of clr] show ?thesis by auto
qed

lemma clear_args_run:
  assumes "registry_inv (gmem w)" and "0 < gsem w"
  shows "\<exists>out w'. clear_args (urt_force_clear_name clr) help ign args w = Some (out, w') \<and> registry_inv (gmem w') \<and> gsem w' = gsem w
    \<and> name_table (gmem w') = (name_table (gmem w)) |` (- cname ` set (if ign then args else clear_names args))"
  using assms
proof (induction args arbitrary: ign w)
  case Nil
  then show ?case by (simp add: clear_names_def)
next
  case (Cons a args)
  let ?names = "\<lambda>ign args. if ign then args else clear_names args"
  consider "\<not> ign \<and> is_help a" | "\<not> ign \<and> a = ''--''" | "(ign \<or> \<not> is_help a) \<and> (ign \<or> a \<noteq> ''--'')" by blast
  then show ?case
  proof cases
    case 1
    then have "a \<noteq> ''--''" by (auto simp: is_help_def)
    with 1 Cons.prems show ?thesis by (simp add: clear_names_Cons)
  next
    case 2
    then have "\<not> is_help a" by (simp add: is_help_def)
    with 2 Cons.IH [OF Cons.prems, of True] show ?thesis by (simp add: clear_names_Cons)
  next
    case 3
    from force_clear_table [OF Cons.prems, of clr a] obtain w1 where
      w1: "urt_force_clear_name clr a w = Some w1" "registry_inv (gmem w1)" "gsem w1 = gsem w"
        "name_table (gmem w1) = (name_table (gmem w))(cname a := None)" by blast
    have "clear_args (urt_force_clear_name clr) help ign (a # args) w = clear_args (urt_force_clear_name clr) help ign args w1"
      using 3 w1(1) by auto
    moreover have "?names ign (a # args) = a # ?names ign args" using 3 by (auto simp: clear_names_Cons)
    moreover have "(name_table (gmem w1)) |` (- cname ` set (?names ign args))
        = (name_table (gmem w)) |` (- cname ` set (a # ?names ign args))"
      by (auto simp: restrict_map_def w1(4) fun_eq_iff)
    moreover have "0 < gsem w1" using w1(3) Cons.prems(2) by simp
    ultimately show ?thesis using Cons.IH [OF w1(2), of ign] w1(3) by (simp del: clear_args.simps)
  qed
qed

text \<open>
  The tool \<^verbatim>\<open>urt-clear\<close>, once it is connected, returns with status 0 whatever its arguments are. It removes
  exactly the names among them from the registry, which stays consistent, and disconnects.
\<close>

theorem clear_tool_behaviour:
  assumes "urt_init si so s = Some (0, p, w)" and "registry_inv (gmem w)" and "0 < gsem w"
  shows "\<exists>out w'. clear_main si so (exe # a # args) s = Some (0, out, urt_exit si (p, w')) \<and> registry_inv (gmem w') \<and> gsem w' = gsem w
    \<and> name_table (gmem w') = (name_table (gmem w)) |` (- cname ` set (clear_names (a # args)))"
  using clear_args_run [OF assms(2,3), of urt_sys_force_clear_name "clear_help exe" False "a # args"] assms(1)
  by (auto simp: clear_main_def simp del: clear_args.simps)

theorem clear_tool_behaviour_witness:
  "\<exists>p1 w1 out w'. urt_init 96 32 (no_registry, first_start) = Some (0, p1, w1)
    \<and> clear_main 96 32 [''urt-clear'', ''AB'', ''--'', ''-h''] (no_registry, first_start) = Some (0, out, urt_exit 96 (p1, w'))
    \<and> name_table (gmem w') ''AB'' = None"
proof -
  obtain p1 w1 where i: "urt_init 96 32 (no_registry, first_start) = Some (0, p1, w1)" "registry_inv (gmem w1)" "0 < gsem w1"
    using first_start_init by blast
  have "''AB'' \<in> cname ` set (clear_names [''AB'', ''--'', ''-h''])" by code_simp
  with clear_tool_behaviour [OF i, of "''urt-clear''" "''AB''" "[''--'', ''-h'']"] i(1) show ?thesis
    by (fastforce simp: restrict_map_def)
qed

text \<open>
  The tool \<^verbatim>\<open>urt-dump\<close> takes the argument after \<^verbatim>\<open>--size start\<close> for the end of the range whenever it
  begins with a number, although names may begin with a digit: then nothing is dumped.
\<close>

theorem dump_tool_swallows_name:
  assumes "scan_zu start = Some v" and "scan_zu name = Some u"
  shows "dump_args dump help False 0 0 [''--size'', start, name] s = Some ([], s)"
  using assms by (simp add: is_help_def)

theorem dump_tool_swallows_name_witness:
  "dump_args (urt_dump_memory (\<lambda>os obj k. 0) 0) [] False 0 0 [''--size'', ''4'', ''1AB''] posix_shared = Some ([], posix_shared)"
proof -
  have "scan_zu ''4'' = Some 4" "scan_zu ''1AB'' = Some 1" by code_simp+
  then show ?thesis by (rule dump_tool_swallows_name)
qed

end
