(* ===== verification/Posix_Lock.thy ===== *)
theory Posix_Lock
  imports Urt_Prelude
begin

text \<open>
  Waiting on locks in the POSIX back-end (\<^verbatim>\<open>sys/posix/src/lock.c\<close>) and the wrappers of
  \<^verbatim>\<open>src/lock_common.c\<close>. The calls of the C library that may block are arguments: a call takes
  the world, in which other threads act and time passes, and returns its result and the next
  world, or \<open>None\<close> when it never returns. A semaphore call returns 0 (\<open>Inr ()\<close>) or -1
  with the error number in \<^verbatim>\<open>errno\<close> (\<open>Inl errno\<close>), a call of the thread library returns its error
  number. A lock request that can be stopped polls the
  function \<^verbatim>\<open>stop\<close> between timed attempts; its loop is a partial function, and the lemmas say
  when it returns and with which result.
\<close>

section \<open>Time\<close>

record timespec =
  tv_sec :: int
  tv_nsec :: int

text \<open>C division and remainder of \<^verbatim>\<open>long long\<close> round towards 0.\<close>

definition to_timespec :: "int \<Rightarrow> timespec" where
  "to_timespec t = \<lparr>tv_sec = t sdiv 1000000000, tv_nsec = t smod 1000000000\<rparr>"

text \<open>\<^verbatim>\<open>urt_get_time_epoch\<close> reads \<^verbatim>\<open>CLOCK_REALTIME\<close>.\<close>

definition urt_get_time_epoch :: "('w \<Rightarrow> timespec \<times> 'w) \<Rightarrow> 'w \<Rightarrow> int \<times> 'w" where
  "urt_get_time_epoch clock_gettime w =
     (case clock_gettime w of (t, w1) \<Rightarrow> (tv_sec t * 1000000000 + tv_nsec t, w1))"

text \<open>\<^verbatim>\<open>URT_LOCK_STOP_MAX_DELAY\<close> is chosen at configuration time; every request gets it as \<open>delay\<close>.\<close>

type_synonym 'w call = "'w \<Rightarrow> (int \<times> 'w) option"
type_synonym 'w timed_call = "timespec \<Rightarrow> 'w \<Rightarrow> int \<times> 'w"
type_synonym 'w sem_call = "'w \<Rightarrow> ((int + unit) \<times> 'w) option"
type_synonym 'w timed_sem_call = "timespec \<Rightarrow> 'w \<Rightarrow> (int + unit) \<times> 'w"
type_synonym 'w poll = "'w \<Rightarrow> bool \<times> 'w"

section \<open>Requests that can be stopped\<close>

text \<open>
  \<^verbatim>\<open>do { if (stop(data)) return ECANCELED; t += delay; ... } while (again(res = timed(...)))\<close>;
  the result is \<open>None\<close> for the early return, else the last \<^verbatim>\<open>res\<close>.
\<close>

partial_function (option) stop_loop ::
    "int \<Rightarrow> 'w poll \<Rightarrow> ('r \<Rightarrow> bool) \<Rightarrow> (timespec \<Rightarrow> 'w \<Rightarrow> 'r \<times> 'w) \<Rightarrow> int \<Rightarrow> 'w \<Rightarrow> ('r option \<times> 'w) option" where
  "stop_loop delay stop again timed t w =
     (if fst (stop w) then Some (None, snd (stop w))
      else (let t' = t + delay;
                r = timed (to_timespec t') (snd (stop w))
            in if again (fst r) then stop_loop delay stop again timed t' (snd r)
               else Some (Some (fst r), snd r)))"

text \<open>\<^verbatim>\<open>while ((res = call()) == -1 && errno == EINTR);\<close>\<close>

partial_function (option) retry_eintr :: "'w sem_call \<Rightarrow> 'w sem_call" where
  "retry_eintr call w = do {
     (r, w1) \<leftarrow> call w;
     (if r = Inl EINTR then retry_eintr call w1 else Some (r, w1)) }"

text \<open>\<^verbatim>\<open>res == 0?0:errno\<close>\<close>

definition sem_result :: "int + unit \<Rightarrow> int" where
  "sem_result r = (case r of Inr u \<Rightarrow> 0 | Inl errno \<Rightarrow> errno)"

definition urt_sem_waitf ::
    "int \<Rightarrow> ('w \<Rightarrow> timespec \<times> 'w) \<Rightarrow> 'w timed_sem_call \<Rightarrow> 'w sem_call \<Rightarrow> 'w poll option \<Rightarrow> 'w call" where
  "urt_sem_waitf delay clock sem_timedwait sem_wait stop w =
     (case stop of
        Some f \<Rightarrow> do {
          let (t, w1) = urt_get_time_epoch clock w;
          (r, w2) \<leftarrow> stop_loop delay f (\<lambda>r. r = Inl ETIMEDOUT) sem_timedwait t w1;
          Some (case r of None \<Rightarrow> ECANCELED | Some x \<Rightarrow> sem_result x, w2) }
      | None \<Rightarrow> do { (r, w2) \<leftarrow> retry_eintr sem_wait w; Some (sem_result r, w2) })"

definition urt_sem_timed_wait ::
    "('w \<Rightarrow> timespec \<times> 'w) \<Rightarrow> 'w timed_sem_call \<Rightarrow> int \<Rightarrow> 'w call" where
  "urt_sem_timed_wait clock sem_timedwait max_wait w = do {
     let (t, w1) = urt_get_time_epoch clock w;
     let tp = to_timespec (t + max_wait);
     (r, w2) \<leftarrow> retry_eintr (\<lambda>w. Some (sem_timedwait tp w)) w1;
     Some (sem_result r, w2) }"

definition urt_sem_try_wait :: "('w \<Rightarrow> (int + unit) \<times> 'w) \<Rightarrow> 'w \<Rightarrow> int \<times> 'w" where
  "urt_sem_try_wait sem_trywait w =
     (case sem_trywait w of
        (r, w1) \<Rightarrow> (case r of Inr u \<Rightarrow> 0 | Inl errno \<Rightarrow> if errno = EAGAIN then EBUSY else errno, w1))"

definition urt_sem_post :: "('w \<Rightarrow> (int + unit) \<times> 'w) \<Rightarrow> 'w \<Rightarrow> int \<times> 'w" where
  "urt_sem_post sem_post w = (case sem_post w of (r, w1) \<Rightarrow> (case r of Inr u \<Rightarrow> 0 | Inl errno \<Rightarrow> -1, w1))"

definition urt_mutex_lockf ::
    "int \<Rightarrow> ('w \<Rightarrow> timespec \<times> 'w) \<Rightarrow> 'w timed_call \<Rightarrow> 'w call \<Rightarrow> 'w poll option \<Rightarrow> 'w call" where
  "urt_mutex_lockf delay clock pthread_mutex_timedlock pthread_mutex_lock stop w =
     (case stop of
        Some f \<Rightarrow> do {
          let (t, w1) = urt_get_time_epoch clock w;
          (r, w2) \<leftarrow> stop_loop delay f (\<lambda>r. r = ETIMEDOUT) pthread_mutex_timedlock t w1;
          Some (case r of None \<Rightarrow> ECANCELED | Some x \<Rightarrow> x, w2) }
      | None \<Rightarrow> pthread_mutex_lock w)"

definition urt_mutex_timed_lock :: "('w \<Rightarrow> timespec \<times> 'w) \<Rightarrow> 'w timed_call \<Rightarrow> int \<Rightarrow> 'w \<Rightarrow> int \<times> 'w" where
  "urt_mutex_timed_lock clock pthread_mutex_timedlock max_wait w =
     (case urt_get_time_epoch clock w of (t, w1) \<Rightarrow> pthread_mutex_timedlock (to_timespec (t + max_wait)) w1)"

definition urt_mutex_try_lock :: "('w \<Rightarrow> int \<times> 'w) \<Rightarrow> 'w \<Rightarrow> int \<times> 'w" where
  "urt_mutex_try_lock pthread_mutex_trylock w = pthread_mutex_trylock w"

definition urt_mutex_unlock :: "('w \<Rightarrow> int \<times> 'w) \<Rightarrow> 'w \<Rightarrow> int \<times> 'w" where
  "urt_mutex_unlock pthread_mutex_unlock w = pthread_mutex_unlock w"

definition urt_rwlock_read_lockf ::
    "int \<Rightarrow> ('w \<Rightarrow> timespec \<times> 'w) \<Rightarrow> 'w timed_call \<Rightarrow> 'w call \<Rightarrow> 'w poll option \<Rightarrow> 'w call" where
  "urt_rwlock_read_lockf delay clock pthread_rwlock_timedrdlock pthread_rwlock_rdlock stop w =
     (case stop of
        Some f \<Rightarrow> do {
          let (t, w1) = urt_get_time_epoch clock w;
          (r, w2) \<leftarrow> stop_loop delay f (\<lambda>r. r = ETIMEDOUT) pthread_rwlock_timedrdlock t w1;
          Some (case r of None \<Rightarrow> ECANCELED | Some x \<Rightarrow> x, w2) }
      | None \<Rightarrow> pthread_rwlock_rdlock w)"

definition urt_rwlock_write_lockf ::
    "int \<Rightarrow> ('w \<Rightarrow> timespec \<times> 'w) \<Rightarrow> 'w timed_call \<Rightarrow> 'w call \<Rightarrow> 'w poll option \<Rightarrow> 'w call" where
  "urt_rwlock_write_lockf delay clock pthread_rwlock_timedwrlock pthread_rwlock_wrlock stop w =
     (case stop of
        Some f \<Rightarrow> do {
          let (t, w1) = urt_get_time_epoch clock w;
          (r, w2) \<leftarrow> stop_loop delay f (\<lambda>r. r = ETIMEDOUT) pthread_rwlock_timedwrlock t w1;
          Some (case r of None \<Rightarrow> ECANCELED | Some x \<Rightarrow> x, w2) }
      | None \<Rightarrow> pthread_rwlock_wrlock w)"

definition urt_rwlock_timed_read_lock :: "('w \<Rightarrow> timespec \<times> 'w) \<Rightarrow> 'w timed_call \<Rightarrow> int \<Rightarrow> 'w \<Rightarrow> int \<times> 'w" where
  "urt_rwlock_timed_read_lock clock pthread_rwlock_timedrdlock max_wait w =
     (case urt_get_time_epoch clock w of (t, w1) \<Rightarrow> pthread_rwlock_timedrdlock (to_timespec (t + max_wait)) w1)"

definition urt_rwlock_timed_write_lock :: "('w \<Rightarrow> timespec \<times> 'w) \<Rightarrow> 'w timed_call \<Rightarrow> int \<Rightarrow> 'w \<Rightarrow> int \<times> 'w" where
  "urt_rwlock_timed_write_lock clock pthread_rwlock_timedwrlock max_wait w =
     (case urt_get_time_epoch clock w of (t, w1) \<Rightarrow> pthread_rwlock_timedwrlock (to_timespec (t + max_wait)) w1)"

definition urt_rwlock_try_read_lock :: "('w \<Rightarrow> int \<times> 'w) \<Rightarrow> 'w \<Rightarrow> int \<times> 'w" where
  "urt_rwlock_try_read_lock pthread_rwlock_tryrdlock w = pthread_rwlock_tryrdlock w"

definition urt_rwlock_try_write_lock :: "('w \<Rightarrow> int \<times> 'w) \<Rightarrow> 'w \<Rightarrow> int \<times> 'w" where
  "urt_rwlock_try_write_lock pthread_rwlock_trywrlock w = pthread_rwlock_trywrlock w"

definition urt_rwlock_read_unlock :: "('w \<Rightarrow> int \<times> 'w) \<Rightarrow> 'w \<Rightarrow> int \<times> 'w" where
  "urt_rwlock_read_unlock pthread_rwlock_unlock w = pthread_rwlock_unlock w"

definition urt_rwlock_write_unlock :: "('w \<Rightarrow> int \<times> 'w) \<Rightarrow> 'w \<Rightarrow> int \<times> 'w" where
  "urt_rwlock_write_unlock pthread_rwlock_unlock w = pthread_rwlock_unlock w"

definition urt_cond_signal :: "('w \<Rightarrow> int \<times> 'w) \<Rightarrow> 'w \<Rightarrow> int \<times> 'w" where
  "urt_cond_signal pthread_cond_signal w = pthread_cond_signal w"

definition urt_cond_broadcast :: "('w \<Rightarrow> int \<times> 'w) \<Rightarrow> 'w \<Rightarrow> int \<times> 'w" where
  "urt_cond_broadcast pthread_cond_broadcast w = pthread_cond_broadcast w"

definition urt_cond_waitf ::
    "int \<Rightarrow> ('w \<Rightarrow> timespec \<times> 'w) \<Rightarrow> 'w timed_call \<Rightarrow> 'w call \<Rightarrow> 'w poll option \<Rightarrow> 'w call" where
  "urt_cond_waitf delay clock pthread_cond_timedwait pthread_cond_wait stop w =
     (case stop of
        Some f \<Rightarrow> do {
          let (t, w1) = urt_get_time_epoch clock w;
          (r, w2) \<leftarrow> stop_loop delay f (\<lambda>r. r = ETIMEDOUT) pthread_cond_timedwait t w1;
          Some (case r of None \<Rightarrow> ECANCELED | Some x \<Rightarrow> x, w2) }
      | None \<Rightarrow> pthread_cond_wait w)"

definition urt_cond_timed_wait :: "('w \<Rightarrow> timespec \<times> 'w) \<Rightarrow> 'w timed_call \<Rightarrow> int \<Rightarrow> 'w \<Rightarrow> int \<times> 'w" where
  "urt_cond_timed_wait clock pthread_cond_timedwait max_wait w =
     (case urt_get_time_epoch clock w of (t, w1) \<Rightarrow> pthread_cond_timedwait (to_timespec (t + max_wait)) w1)"

text \<open>
  The functions of \<^verbatim>\<open>src/lock_common.c\<close> take a pointer to a flag; \<open>flag\<close> reads it, \<open>None\<close> is
  the NULL pointer. \<open>waitf\<close> is the function they call.
\<close>

definition lock_stop :: "('w \<Rightarrow> int \<times> 'w) \<Rightarrow> 'w poll" where
  "lock_stop flag w = (case flag w of (v, w1) \<Rightarrow> (v \<noteq> 0, w1))"

definition urt_sem_wait :: "('w poll option \<Rightarrow> 'w call) \<Rightarrow> ('w \<Rightarrow> int \<times> 'w) option \<Rightarrow> 'w call" where
  "urt_sem_wait waitf stop w = waitf (map_option lock_stop stop) w"

definition urt_mutex_lock :: "('w poll option \<Rightarrow> 'w call) \<Rightarrow> ('w \<Rightarrow> int \<times> 'w) option \<Rightarrow> 'w call" where
  "urt_mutex_lock lockf stop w = lockf (map_option lock_stop stop) w"

definition urt_rwlock_read_lock :: "('w poll option \<Rightarrow> 'w call) \<Rightarrow> ('w \<Rightarrow> int \<times> 'w) option \<Rightarrow> 'w call" where
  "urt_rwlock_read_lock lockf stop w = lockf (map_option lock_stop stop) w"

definition urt_rwlock_write_lock :: "('w poll option \<Rightarrow> 'w call) \<Rightarrow> ('w \<Rightarrow> int \<times> 'w) option \<Rightarrow> 'w call" where
  "urt_rwlock_write_lock lockf stop w = lockf (map_option lock_stop stop) w"

definition urt_cond_wait :: "('w poll option \<Rightarrow> 'w call) \<Rightarrow> ('w \<Rightarrow> int \<times> 'w) option \<Rightarrow> 'w call" where
  "urt_cond_wait waitf stop w = waitf (map_option lock_stop stop) w"

section \<open>Timed locks on systems without them\<close>

text \<open>
  \<^verbatim>\<open>SIMULATE_TIMEDLOCK_WITH_TRYLOCK\<close>: \<open>trylock\<close> returns its value, \<open>errno\<close> reads the variable.
  The results are the return value and the world.
\<close>

partial_function (option) simulate_timedlock ::
    "('w \<Rightarrow> int \<times> 'w) \<Rightarrow> ('w \<Rightarrow> int) \<Rightarrow> (int \<Rightarrow> 'w \<Rightarrow> 'w) \<Rightarrow> int \<Rightarrow> (int \<Rightarrow> 'w \<Rightarrow> 'w) \<Rightarrow> ('w \<Rightarrow> int \<times> 'w) \<Rightarrow> int \<Rightarrow> 'w call" where
  "simulate_timedlock trylock errno set_errno again_errno urt_sleep time_epoch timeout w =
     (let r = trylock w; ret = fst r; w1 = snd r in
      if ret \<noteq> 0 \<and> errno w1 \<noteq> again_errno then Some (ret, w1)
      else (let w2 = (if ret \<noteq> 0 then urt_sleep 10000 w1 else w1) in
        if ret \<noteq> 0
        then (let n = time_epoch w2 in
              if fst n < timeout
              then simulate_timedlock trylock errno set_errno again_errno urt_sleep time_epoch timeout (snd n)
              else Some (ret, set_errno ETIMEDOUT (snd n)))
        else Some (ret, w2)))"

section \<open>When a stoppable request returns\<close>

text \<open>
  One execution of the loop, as a relation: \<open>k\<close> counts the attempts that timed out. It is the
  specification of \<open>stop_loop\<close>.
\<close>

inductive stop_exec ::
    "int \<Rightarrow> 'w poll \<Rightarrow> ('r \<Rightarrow> bool) \<Rightarrow> (timespec \<Rightarrow> 'w \<Rightarrow> 'r \<times> 'w) \<Rightarrow> int \<Rightarrow> 'w \<Rightarrow> nat \<Rightarrow> 'r option \<Rightarrow> 'w \<Rightarrow> bool"
  for delay stop again timed where
  stopped: "stop w = (True, w') \<Longrightarrow> stop_exec delay stop again timed t w 0 None w'"
| finished: "stop w = (False, w1) \<Longrightarrow> timed (to_timespec (t + delay)) w1 = (r, w') \<Longrightarrow> \<not> again r \<Longrightarrow>
    stop_exec delay stop again timed t w 0 (Some r) w'"
| timed_out: "stop w = (False, w1) \<Longrightarrow> timed (to_timespec (t + delay)) w1 = (r, w2) \<Longrightarrow> again r \<Longrightarrow>
    stop_exec delay stop again timed (t + delay) w2 k res w' \<Longrightarrow>
    stop_exec delay stop again timed t w (Suc k) res w'"

inductive_cases stop_exec_0: "stop_exec delay stop again timed t w 0 res w'"
inductive_cases stop_exec_Suc: "stop_exec delay stop again timed t w (Suc k) res w'"

lemma stop_exec_loop: "stop_exec delay stop again timed t w k res w' \<Longrightarrow>
    stop_loop delay stop again timed t w = Some (res, w')"
proof (induction rule: stop_exec.induct)
  case (stopped w w' t)
  then show ?case by (simp add: stop_loop.simps [of delay stop again timed t w])
next
  case (finished w w1 t r w')
  then show ?case by (simp add: stop_loop.simps [of delay stop again timed t w])
next
  case (timed_out w w1 t r w2 k res w')
  then show ?case by (simp add: stop_loop.simps [of delay stop again timed t w])
qed

lemma stop_loop_exec:
  fixes stop :: "'w poll" and again :: "'r \<Rightarrow> bool"
  assumes "stop_loop delay stop again timed t w = Some (res, w')"
  shows "\<exists>k. stop_exec delay stop again timed t w k res w'"
proof -
  have "\<exists>k. stop_exec delay stop again timed t w k (fst y) (snd y)"
    if "stop_loop delay stop again timed t w = Some y" for y
    using that
  proof (rule stop_loop.raw_induct [where P = "\<lambda>delay stop again timed t w y.
      \<exists>k. stop_exec delay stop again timed t w k (fst y) (snd y)", rotated])
    fix loop and delay :: int and stop :: "'w poll" and again :: "'r \<Rightarrow> bool"
      and timed :: "timespec \<Rightarrow> 'w \<Rightarrow> 'r \<times> 'w" and t :: int and w :: 'w and y
    assume 1: "\<And>delay stop again timed t w y. loop delay stop again timed t w = Some y \<Longrightarrow>
        \<exists>k. stop_exec delay stop again timed t w k (fst y) (snd y)"
      "(if fst (stop w) then Some (None, snd (stop w))
        else (let t' = t + delay; r = timed (to_timespec t') (snd (stop w))
              in if again (fst r) then loop delay stop again timed t' (snd r) else Some (Some (fst r), snd r))) = Some y"
    obtain w1 b where st: "stop w = (b, w1)" by (cases "stop w") auto
    obtain r w2 where tm: "timed (to_timespec (t + delay)) w1 = (r, w2)" by fastforce
    show "\<exists>k. stop_exec delay stop again timed t w k (fst y) (snd y)"
    proof (cases b)
      case True
      with 1(2) st stop_exec.stopped [of stop w w1 delay again timed t] show ?thesis by auto
    next
      case False
      show ?thesis
      proof (cases "again r")
        case True
        with 1(2) st tm False have "loop delay stop again timed (t + delay) w2 = Some y" by (simp add: Let_def)
        from 1(1) [OF this] obtain k where "stop_exec delay stop again timed (t + delay) w2 k (fst y) (snd y)" ..
        with st tm True False stop_exec.timed_out [of stop w w1 timed t delay r w2 again k "fst y" "snd y"]
        show ?thesis by auto
      next
        case again: False
        with 1(2) st tm False have "y = (Some r, w2)" by (simp add: Let_def)
        with stop_exec.finished [of stop w w1 timed t delay r w2 again] st tm False again show ?thesis by auto
      qed
    qed
  qed
  from this [OF assms] show ?thesis by simp
qed

text \<open>The loop commutes with a translation of the results that keeps the condition to go on.\<close>

lemma stop_exec_map:
  assumes "\<And>r. again' (g r) = again r"
  shows "stop_exec delay stop again timed t w k res w' \<Longrightarrow>
    stop_exec delay stop again' (\<lambda>tp w. map_prod g id (timed tp w)) t w k (map_option g res) w'"
proof (induction rule: stop_exec.induct)
  case (stopped w w' t)
  then show ?case by (auto intro: stop_exec.stopped)
next
  case (finished w w1 t r w')
  then show ?case using assms by (auto intro!: stop_exec.finished)
next
  case (timed_out w w1 t r w2 k res w')
  then show ?case using assms by (auto intro!: stop_exec.timed_out [of _ _ w1 _ _ _ "g r" w2])
qed

lemma stop_exec_map_inv:
  assumes "\<And>r. again' (g r) = again r"
  shows "stop_exec delay stop again' (\<lambda>tp w. map_prod g id (timed tp w)) t w k res w' \<Longrightarrow>
    \<exists>r. res = map_option g r \<and> stop_exec delay stop again timed t w k r w'"
proof (induction rule: stop_exec.induct)
  case (stopped w w' t)
  then show ?case by (auto intro!: exI [of _ None] stop_exec.stopped)
next
  case (finished w w1 t r w')
  then obtain x where "timed (to_timespec (t + delay)) w1 = (x, w')" "r = g x" by (auto simp: map_prod_def split: prod.splits)
  with finished assms show ?case by (auto intro!: exI [of _ "Some x"] stop_exec.finished)
next
  case (timed_out w w1 t r w2 k res w')
  then obtain x where x: "timed (to_timespec (t + delay)) w1 = (x, w2)" "r = g x" by (auto simp: map_prod_def split: prod.splits)
  from timed_out obtain y where "res = map_option g y" "stop_exec delay stop again timed (t + delay) w2 k y w'" by blast
  with x timed_out(1,3) assms show ?case
    by (auto intro!: exI [of _ y] stop_exec.timed_out [of stop w w1 timed t delay x w2])
qed

lemma stop_loop_map:
  assumes "\<And>r. again' (g r) = again r"
  shows "stop_loop delay stop again' (\<lambda>tp w. map_prod g id (timed tp w)) t w =
    map_option (map_prod (map_option g) id) (stop_loop delay stop again timed t w)"
proof (cases "stop_loop delay stop again timed t w")
  case None
  show ?thesis
  proof (cases "stop_loop delay stop again' (\<lambda>tp w. map_prod g id (timed tp w)) t w")
    case (Some a)
    then obtain k where "stop_exec delay stop again' (\<lambda>tp w. map_prod g id (timed tp w)) t w k (fst a) (snd a)"
      using stop_loop_exec by (metis prod.collapse)
    from stop_exec_map_inv [of again' g again, OF assms this] None show ?thesis using stop_exec_loop by fastforce
  qed (simp add: None)
next
  case (Some a)
  then obtain k where "stop_exec delay stop again timed t w k (fst a) (snd a)"
    using stop_loop_exec by (metis prod.collapse)
  from stop_exec_loop [OF stop_exec_map [of again' g again, OF assms this]] Some show ?thesis by (simp add: map_prod_def split_beta)
qed

section \<open>The contract of a stoppable request\<close>

text \<open>
  All five requests are a clock reading followed by the loop over a timed call of the library,
  with the error number as its result.
\<close>

definition lock_code :: "int option \<Rightarrow> int" where
  "lock_code r = (case r of None \<Rightarrow> ECANCELED | Some x \<Rightarrow> x)"

locale stoppable_lock =
  fixes clock :: "'w \<Rightarrow> timespec \<times> 'w" and delay :: int and timed :: "'w timed_call"
    and lockf :: "'w poll option \<Rightarrow> 'w call"
  assumes lockf_loop: "lockf (Some stop) w =
    map_option (map_prod lock_code id)
      (stop_loop delay stop (\<lambda>r. r = ETIMEDOUT) timed (fst (urt_get_time_epoch clock w)) (snd (urt_get_time_epoch clock w)))"
begin

lemma lockf_returns_iff:
  "lockf (Some stop) w = Some (code, w') \<longleftrightarrow>
   (\<exists>k r. code = lock_code r \<and> stop_exec delay stop (\<lambda>r. r = ETIMEDOUT) timed
      (fst (urt_get_time_epoch clock w)) (snd (urt_get_time_epoch clock w)) k r w')"
proof -
  let ?t = "fst (urt_get_time_epoch clock w)" and ?w = "snd (urt_get_time_epoch clock w)"
  have "lockf (Some stop) w = Some (code, w') \<longleftrightarrow>
      (\<exists>r. code = lock_code r \<and> stop_loop delay stop (\<lambda>r. r = ETIMEDOUT) timed ?t ?w = Some (r, w'))"
    unfolding lockf_loop by auto
  then show ?thesis using stop_exec_loop stop_loop_exec by metis
qed

lemma never_timed_out:
  assumes "lockf (Some stop) w = Some (code, w')"
  shows "code \<noteq> ETIMEDOUT"
proof -
  from assms lockf_returns_iff obtain k r where c: "code = lock_code r" and x:
    "stop_exec delay stop (\<lambda>r. r = ETIMEDOUT) timed (fst (urt_get_time_epoch clock w)) (snd (urt_get_time_epoch clock w)) k r w'"
    by blast
  from x have "r \<noteq> Some ETIMEDOUT" by (induction rule: stop_exec.induct) auto
  with c show ?thesis by (auto simp: lock_code_def split: option.splits)
qed

end

interpretation mutex: stoppable_lock clock delay timed "urt_mutex_lockf delay clock timed block" for clock delay timed block
  by unfold_locales
    (auto simp: urt_mutex_lockf_def lock_code_def Let_def map_option_case split: option.splits prod.splits)

interpretation rdlock: stoppable_lock clock delay timed "urt_rwlock_read_lockf delay clock timed block" for clock delay timed block
  by unfold_locales
    (auto simp: urt_rwlock_read_lockf_def lock_code_def Let_def map_option_case split: option.splits prod.splits)

interpretation wrlock: stoppable_lock clock delay timed "urt_rwlock_write_lockf delay clock timed block" for clock delay timed block
  by unfold_locales
    (auto simp: urt_rwlock_write_lockf_def lock_code_def Let_def map_option_case split: option.splits prod.splits)

interpretation condvar: stoppable_lock clock delay timed "urt_cond_waitf delay clock timed block" for clock delay timed block
  by unfold_locales
    (auto simp: urt_cond_waitf_def lock_code_def Let_def map_option_case split: option.splits prod.splits)

interpretation sem: stoppable_lock clock delay "\<lambda>tp w. map_prod sem_result id (timed tp w)"
  "urt_sem_waitf delay clock timed block" for clock delay timed block
proof unfold_locales
  fix stop w
  let ?t = "fst (urt_get_time_epoch clock w)" and ?w = "snd (urt_get_time_epoch clock w)"
  have again: "(sem_result r = ETIMEDOUT) = (r = Inl ETIMEDOUT)" for r
    by (cases r) (auto simp: sem_result_def)
  have "stop_loop delay stop (\<lambda>r. r = ETIMEDOUT) (\<lambda>tp w. map_prod sem_result id (timed tp w)) ?t ?w =
      map_option (map_prod (map_option sem_result) id) (stop_loop delay stop (\<lambda>r. r = Inl ETIMEDOUT) timed ?t ?w)"
    by (rule stop_loop_map) (rule again)
  then show "urt_sem_waitf delay clock timed block (Some stop) w = map_option (map_prod lock_code id)
      (stop_loop delay stop (\<lambda>r. r = ETIMEDOUT) (\<lambda>tp w. map_prod sem_result id (timed tp w)) ?t ?w)"
    by (auto simp: urt_sem_waitf_def lock_code_def Let_def map_option_case split: option.splits prod.splits)
qed

section \<open>Deadlines and interruptions\<close>

lemma sdiv_smod_nonneg:
  fixes a b :: int
  assumes "0 \<le> a" and "0 < b"
  shows "a sdiv b = a div b" and "a smod b = a mod b"
  using assms by (simp_all add: signed_divide_int_def signed_modulo_int_def sgn_if minus_div_mult_eq_mod)

lemma to_timespec_nonneg:
  assumes "0 \<le> t"
  shows "tv_sec (to_timespec t) * 1000000000 + tv_nsec (to_timespec t) = t"
    and "0 \<le> tv_nsec (to_timespec t)" and "tv_nsec (to_timespec t) < 1000000000"
  using assms by (simp_all add: to_timespec_def sdiv_smod_nonneg)

text \<open>A sequence of \<open>n\<close> interruptions before the call ends with \<open>r\<close>.\<close>

inductive interrupted :: "'w sem_call \<Rightarrow> 'w \<Rightarrow> int + unit \<Rightarrow> 'w \<Rightarrow> bool" for call where
  ends: "call w = Some (r, w') \<Longrightarrow> r \<noteq> Inl EINTR \<Longrightarrow> interrupted call w r w'"
| interrupt: "call w = Some (Inl EINTR, w1) \<Longrightarrow> interrupted call w1 r w' \<Longrightarrow> interrupted call w r w'"

lemma retry_eintr_interrupted: "interrupted call w r w' \<Longrightarrow> retry_eintr call w = Some (r, w')"
proof (induction rule: interrupted.induct)
  case (ends w r w')
  then show ?case by (simp add: retry_eintr.simps [of call w])
next
  case (interrupt w w1 r w')
  then show ?case by (simp add: retry_eintr.simps [of call w])
qed

section \<open>Properties\<close>

text \<open>The specification of a request that starts at time \<open>fst s\<close> in world \<open>snd s\<close>.\<close>

definition stop_spec :: "int \<Rightarrow> 'w poll \<Rightarrow> 'w timed_call \<Rightarrow> int \<times> 'w \<Rightarrow> int \<Rightarrow> 'w \<Rightarrow> bool" where
  "stop_spec delay stop timed s code w' \<longleftrightarrow>
     (\<exists>k r. code = lock_code r \<and> stop_exec delay stop (\<lambda>r. r = ETIMEDOUT) timed (fst s) (snd s) k r w')"

lemma stop_spec_code: "stop_spec delay stop timed s code w' \<Longrightarrow> code \<noteq> ETIMEDOUT"
  using mutex.never_timed_out [of delay "\<lambda>w. (\<lparr>tv_sec = 0, tv_nsec = fst s\<rparr>, snd s)" timed "\<lambda>w. None" stop "snd s" code w']
  unfolding mutex.lockf_returns_iff stop_spec_def urt_get_time_epoch_def by simp

text \<open>
  C10: When a stoppable request returns, and with what. Each of the five requests that is given
  a stop function returns exactly when some round finds the stop function true (then the result
  is \<^verbatim>\<open>ECANCELED\<close>) or the timed call ends with something else than a timeout (then that is the
  result), all rounds before having timed out; the \<open>k\<close>-th attempt waits until \<open>k\<close> times the
  delay after the call. \<^verbatim>\<open>ETIMEDOUT\<close> is never the result.
\<close>

theorem stoppable_requests_return:
  "(urt_mutex_lockf delay clock timed block (Some stop) w = Some (code, w')
      \<longleftrightarrow> stop_spec delay stop timed (urt_get_time_epoch clock w) code w')
   \<and> (urt_rwlock_read_lockf delay clock timed block (Some stop) w = Some (code, w')
      \<longleftrightarrow> stop_spec delay stop timed (urt_get_time_epoch clock w) code w')
   \<and> (urt_rwlock_write_lockf delay clock timed block (Some stop) w = Some (code, w')
      \<longleftrightarrow> stop_spec delay stop timed (urt_get_time_epoch clock w) code w')
   \<and> (urt_cond_waitf delay clock timed block (Some stop) w = Some (code, w')
      \<longleftrightarrow> stop_spec delay stop timed (urt_get_time_epoch clock w) code w')
   \<and> (urt_sem_waitf delay clock semtimed semblock (Some stop) w = Some (code, w')
      \<longleftrightarrow> stop_spec delay stop (\<lambda>tp w. map_prod sem_result id (semtimed tp w)) (urt_get_time_epoch clock w) code w')
   \<and> (stop_spec delay stop timed (urt_get_time_epoch clock w) code w' \<longrightarrow> code \<noteq> ETIMEDOUT)"
proof (intro conjI impI)
  assume "stop_spec delay stop timed (urt_get_time_epoch clock w) code w'"
  then show "code \<noteq> ETIMEDOUT" by (rule stop_spec_code)
qed (simp_all only: stop_spec_def mutex.lockf_returns_iff rdlock.lockf_returns_iff wrlock.lockf_returns_iff
    condvar.lockf_returns_iff sem.lockf_returns_iff)

text \<open>
  A small world for examples: the results still to come of polls of the flag and of timed
  attempts, and the deadlines of the attempts made so far.
\<close>

record trace =
  polls :: "int list"
  results :: "int list"
  deadlines :: "int list"

definition trace_flag :: "trace \<Rightarrow> int \<times> trace" where
  "trace_flag w = (case polls w of [] \<Rightarrow> (0, w) | b # bs \<Rightarrow> (b, w\<lparr>polls := bs\<rparr>))"

definition trace_timed :: "trace timed_call" where
  "trace_timed tp w = (case results w of [] \<Rightarrow> (0, w) | r # rs \<Rightarrow>
     (r, w\<lparr>results := rs, deadlines := deadlines w @ [tv_sec tp * 1000000000 + tv_nsec tp]\<rparr>))"

definition trace_clock :: "trace \<Rightarrow> timespec \<times> trace" where
  "trace_clock w = (\<lparr>tv_sec = 5, tv_nsec = 0\<rparr>, w)"

theorem stoppable_requests_return_witness:
  "urt_mutex_lockf 1000 trace_clock trace_timed (\<lambda>w. None) (Some (lock_stop trace_flag))
     \<lparr>polls = [0, 0, 1], results = [ETIMEDOUT, ETIMEDOUT], deadlines = []\<rparr>
   = Some (ECANCELED, \<lparr>polls = [], results = [], deadlines = [5000001000, 5000002000]\<rparr>)"
proof -
  let ?w = "\<lambda>ps rs ds. \<lparr>polls = ps, results = rs, deadlines = ds\<rparr>"
  let ?ex = "stop_exec 1000 (lock_stop trace_flag) (\<lambda>r. r = ETIMEDOUT) trace_timed"
  note ev = lock_stop_def trace_flag_def trace_timed_def to_timespec_def sdiv_smod_nonneg
  have s0: "?ex 5000002000 (?w [1] [] [5000001000, 5000002000]) 0 None (?w [] [] [5000001000, 5000002000])"
    by (rule stop_exec.stopped) (simp add: ev)
  have s1: "?ex 5000001000 (?w [0, 1] [ETIMEDOUT] [5000001000]) 1 None (?w [] [] [5000001000, 5000002000])"
    unfolding One_nat_def
    by (rule stop_exec.timed_out [of _ _ "?w [1] [ETIMEDOUT] [5000001000]" _ _ _ ETIMEDOUT
          "?w [1] [] [5000001000, 5000002000]"]) (use s0 in \<open>simp_all add: ev\<close>)
  have "?ex 5000000000 (?w [0, 0, 1] [ETIMEDOUT, ETIMEDOUT] []) 2 None (?w [] [] [5000001000, 5000002000])"
    unfolding numeral_2_eq_2
    by (rule stop_exec.timed_out [of _ _ "?w [0, 1] [ETIMEDOUT, ETIMEDOUT] []" _ _ _ ETIMEDOUT
          "?w [0, 1] [ETIMEDOUT] [5000001000]"]) (use s1 in \<open>simp_all add: ev\<close>)
  moreover have "urt_get_time_epoch trace_clock (?w [0, 0, 1] [ETIMEDOUT, ETIMEDOUT] []) =
      (5000000000, ?w [0, 0, 1] [ETIMEDOUT, ETIMEDOUT] [])"
    by (simp add: urt_get_time_epoch_def trace_clock_def)
  moreover have "lock_code None = ECANCELED" by (simp add: lock_code_def)
  ultimately have "stop_spec 1000 (lock_stop trace_flag) trace_timed
      (urt_get_time_epoch trace_clock (?w [0, 0, 1] [ETIMEDOUT, ETIMEDOUT] [])) ECANCELED (?w [] [] [5000001000, 5000002000])"
    unfolding stop_spec_def by (metis fst_conv snd_conv)
  then show ?thesis by (rule stoppable_requests_return [THEN conjunct1, THEN iffD2])
qed

text \<open>
  A flag that is already raised cancels every stoppable request at once: after reading the
  clock and the flag it returns \<^verbatim>\<open>ECANCELED\<close> without touching the lock. With no flag given
  (the NULL pointer) a mutex request is the blocking call of the library.
\<close>

theorem raised_flag_cancels:
  assumes "urt_get_time_epoch clock w = (t, w1)" and "flag w1 = (v, w2)" and "v \<noteq> 0"
  shows "urt_sem_wait (urt_sem_waitf delay clock semtimed semblock) (Some flag) w = Some (ECANCELED, w2)
    \<and> urt_mutex_lock (urt_mutex_lockf delay clock timed block) (Some flag) w = Some (ECANCELED, w2)
    \<and> urt_rwlock_read_lock (urt_rwlock_read_lockf delay clock timed block) (Some flag) w = Some (ECANCELED, w2)
    \<and> urt_rwlock_write_lock (urt_rwlock_write_lockf delay clock timed block) (Some flag) w = Some (ECANCELED, w2)
    \<and> urt_cond_wait (urt_cond_waitf delay clock timed block) (Some flag) w = Some (ECANCELED, w2)
    \<and> urt_mutex_lock (urt_mutex_lockf delay clock timed block) None w = block w"
  using assms(2,3) unfolding urt_sem_wait_def urt_mutex_lock_def urt_rwlock_read_lock_def urt_rwlock_write_lock_def
    urt_cond_wait_def urt_sem_waitf_def urt_mutex_lockf_def urt_rwlock_read_lockf_def urt_rwlock_write_lockf_def
    urt_cond_waitf_def
  by (simp add: assms(1) stop_loop.simps [of delay "lock_stop flag" _ _ t w1] lock_stop_def)

theorem raised_flag_cancels_witness:
  "urt_mutex_lock (urt_mutex_lockf 1000 trace_clock trace_timed (\<lambda>w. None)) (Some trace_flag)
     \<lparr>polls = [1], results = [0], deadlines = []\<rparr>
   = Some (ECANCELED, \<lparr>polls = [], results = [0], deadlines = []\<rparr>)"
  by (rule raised_flag_cancels [of trace_clock _ 5000000000 "\<lparr>polls = [1], results = [0], deadlines = []\<rparr>" _ 1,
        THEN conjunct2, THEN conjunct1])
    (simp_all add: urt_get_time_epoch_def trace_clock_def trace_flag_def)

text \<open>
  Interruption by a signal. Without a stop function, \<^verbatim>\<open>urt_sem_waitf\<close> goes on waiting
  however often it is interrupted, and returns the result of the call that was not; so does
  \<^verbatim>\<open>urt_sem_timed_wait\<close>, with an unchanged deadline. With a stop function, however, the first
  interruption ends the wait with \<^verbatim>\<open>EINTR\<close>.
\<close>

theorem semaphore_interruption:
  assumes "urt_get_time_epoch clock w = (t, w1)"
  shows "(interrupted block w r w' \<longrightarrow>
      urt_sem_waitf delay clock timed block None w = Some (sem_result r, w'))
    \<and> (interrupted (\<lambda>w. Some (timed (to_timespec (t + max_wait)) w)) w1 r w' \<longrightarrow>
      urt_sem_timed_wait clock timed max_wait w = Some (sem_result r, w'))
    \<and> (stop w1 = (False, w2) \<and> timed (to_timespec (t + delay)) w2 = (Inl EINTR, w') \<longrightarrow>
      urt_sem_waitf delay clock timed block (Some stop) w = Some (EINTR, w'))"
  using assms
  by (auto simp: urt_sem_waitf_def urt_sem_timed_wait_def retry_eintr_interrupted sem_result_def
      stop_loop.simps [of delay stop _ timed t w1])

theorem semaphore_interruption_witness:
  "urt_sem_waitf 1000 (\<lambda>w. (\<lparr>tv_sec = 5, tv_nsec = 0\<rparr>, w)) (\<lambda>tp w. (Inl EINTR, w)) (\<lambda>w. Some (Inr (), w)) None () = Some (0, ())
   \<and> urt_sem_waitf 1000 (\<lambda>w. (\<lparr>tv_sec = 5, tv_nsec = 0\<rparr>, w)) (\<lambda>tp w. (Inl EINTR, w)) (\<lambda>w. Some (Inr (), w))
       (Some (\<lambda>w. (False, w))) () = Some (EINTR, ())"
proof -
  have c: "urt_get_time_epoch (\<lambda>w. (\<lparr>tv_sec = 5, tv_nsec = 0\<rparr>, w)) () = (5000000000, ())"
    by (simp add: urt_get_time_epoch_def)
  have "interrupted (\<lambda>w :: unit. Some (Inr (), w)) () (Inr ()) ()" by (rule interrupted.ends) simp_all
  then show ?thesis
    using semaphore_interruption [OF c, of "\<lambda>w. Some (Inr (), w)" "Inr ()" "()" 1000 "\<lambda>tp w. (Inl EINTR, w)" 0 "\<lambda>w. (False, w)" "()"]
    by (auto simp: sem_result_def)
qed

text \<open>
  Deadlines. A timed request at time \<open>t\<close> with \<open>0 \<le> t + max_wait\<close> passes the library a well-formed
  time (\<^verbatim>\<open>tv_nsec\<close> below one second) that is exactly \<open>t + max_wait\<close>.
\<close>

theorem timed_requests_deadline:
  assumes "urt_get_time_epoch clock w = (t, w1)" and "0 \<le> t + max_wait"
  shows "\<exists>tp. urt_mutex_timed_lock clock timed max_wait w = timed tp w1
    \<and> urt_rwlock_timed_read_lock clock timed max_wait w = timed tp w1
    \<and> urt_rwlock_timed_write_lock clock timed max_wait w = timed tp w1
    \<and> urt_cond_timed_wait clock timed max_wait w = timed tp w1
    \<and> tv_sec tp * 1000000000 + tv_nsec tp = t + max_wait \<and> 0 \<le> tv_nsec tp \<and> tv_nsec tp < 1000000000"
  using to_timespec_nonneg [OF assms(2)] assms(1)
  by (intro exI [of _ "to_timespec (t + max_wait)"])
    (simp add: urt_mutex_timed_lock_def urt_rwlock_timed_read_lock_def urt_rwlock_timed_write_lock_def urt_cond_timed_wait_def)

theorem timed_requests_deadline_witness:
  "\<exists>tp. urt_mutex_timed_lock trace_clock trace_timed 1500000000 \<lparr>polls = [], results = [0], deadlines = []\<rparr>
      = trace_timed tp \<lparr>polls = [], results = [0], deadlines = []\<rparr>
    \<and> tv_sec tp * 1000000000 + tv_nsec tp = 6500000000"
proof -
  have "urt_get_time_epoch trace_clock \<lparr>polls = [], results = [0], deadlines = []\<rparr>
      = (5000000000, \<lparr>polls = [], results = [0], deadlines = []\<rparr>)"
    by (simp add: urt_get_time_epoch_def trace_clock_def)
  from timed_requests_deadline [OF this, of 1500000000 trace_timed] show ?thesis by auto
qed

text \<open>
  The simulated timed locks for the thread library test \<^verbatim>\<open>errno\<close>, which its try functions
  do not set: a lock that is merely busy makes them return \<^verbatim>\<open>EBUSY\<close> at once, long before the
  deadline, unless \<^verbatim>\<open>errno\<close> happens to hold \<^verbatim>\<open>EBUSY\<close> from an earlier call.
\<close>

theorem simulated_lock_gives_up_at_once:
  assumes "trylock w = (EBUSY, w1)" and "errno w1 \<noteq> EBUSY"
  shows "simulate_timedlock trylock errno set_errno EBUSY sleep time_epoch timeout w = Some (EBUSY, w1)"
  using assms by (simp add: simulate_timedlock.simps [of trylock errno set_errno EBUSY sleep time_epoch timeout w])

theorem simulated_lock_gives_up_at_once_witness:
  "simulate_timedlock (\<lambda>w. (EBUSY, w)) (\<lambda>w. 0) (\<lambda>e w. w) EBUSY (\<lambda>t w. w) (\<lambda>w. (0, w)) 1000000 () = Some (EBUSY, ())"
  by (rule simulated_lock_gives_up_at_once) simp_all

end
