(* ===== verification/Urt_Task.thy ===== *)
theory Urt_Task
  imports Posix_Lock
begin

text \<open>
  Tasks and time (\<^verbatim>\<open>src/task_common.c\<close>, \<^verbatim>\<open>include/urt_task.h\<close>, \<^verbatim>\<open>sys/posix/src/task.c\<close>,
  \<^verbatim>\<open>sys/posix/include/urt_sys_time.h\<close>, the priorities of both back-ends). The clock, sleeping and
  the thread library are arguments that act on the world. Times are nanoseconds; the sums of the
  code are far below the bounds of \<^verbatim>\<open>long long\<close> for real times, so they are integers here.

  The lemmas show that sleeping never falls short, what a task is created with, and that the
  releases of a periodic task do not drift.
\<close>

section \<open>Time\<close>

text \<open>\<^verbatim>\<open>urt_get_time\<close> reads a monotonic clock and adds \<^verbatim>\<open>urt_time_offset\<close>.\<close>

definition urt_get_time :: "int \<Rightarrow> ('w \<Rightarrow> timespec \<times> 'w) \<Rightarrow> 'w \<Rightarrow> int \<times> 'w" where
  "urt_get_time urt_time_offset clock_gettime w =
     (case clock_gettime w of (t, w1) \<Rightarrow> (tv_sec t * 1000000000 + tv_nsec t + urt_time_offset, w1))"

definition urt_get_exec_time :: "('w \<Rightarrow> timespec \<times> 'w) \<Rightarrow> 'w \<Rightarrow> int \<times> 'w" where
  "urt_get_exec_time thread_clock w =
     (case thread_clock w of (t, w1) \<Rightarrow> (tv_sec t * 1000000000 + tv_nsec t, w1))"

text \<open>\<^verbatim>\<open>sleep\<close> takes an \<^verbatim>\<open>unsigned int\<close>.\<close>

definition urt_sleep :: "(int \<Rightarrow> 'w \<Rightarrow> 'w) \<Rightarrow> (int \<Rightarrow> 'w \<Rightarrow> 'w) \<Rightarrow> int \<Rightarrow> 'w \<Rightarrow> 'w" where
  "urt_sleep sleep usleep t w =
     (if t \<le> 0 then w
      else (let t' = (t + 999) sdiv 1000; ts = t' sdiv 1000000; tu = t' smod 1000000
            in usleep tu (sleep (ts mod 2 ^ 32) w)))"

section \<open>Priorities\<close>

text \<open>POSIX has one priority; RTAI counts down from the highest.\<close>

definition posix_priority_is_valid :: "int \<Rightarrow> bool" where
  "posix_priority_is_valid p \<longleftrightarrow> p = 0"

definition posix_priority_is_higher :: "int \<Rightarrow> int \<Rightarrow> bool" where
  "posix_priority_is_higher a b \<longleftrightarrow> a > b"

text \<open>The bounds of RTAI's scheduler are \<open>highest\<close> and \<open>lowest\<close>.\<close>

definition rtai_priority_is_valid :: "int \<Rightarrow> int \<Rightarrow> int \<Rightarrow> bool" where
  "rtai_priority_is_valid highest lowest p \<longleftrightarrow> p \<le> lowest \<and> p \<ge> highest"

definition rtai_priority_is_higher :: "int \<Rightarrow> int \<Rightarrow> bool" where
  "rtai_priority_is_higher a b \<longleftrightarrow> a < b"

text \<open>
  \<^verbatim>\<open>URT_MAX_PRIORITY - URT_MORE_PRIORITY * n\<close>: \<open>n\<close> is unsigned, so the arithmetic is modulo
  \<open>2 ^ 32\<close>, and the result is converted back to \<^verbatim>\<open>int\<close>.
\<close>

definition urt_priority :: "u32 \<Rightarrow> u32 \<Rightarrow> u32 \<Rightarrow> int" where
  "urt_priority max_priority more_priority n = sint (max_priority - more_priority * n)"

definition posix_priority :: "u32 \<Rightarrow> int" where
  "posix_priority = urt_priority 0 0"

definition rtai_priority :: "u32 \<Rightarrow> u32 \<Rightarrow> int" where
  "rtai_priority highest = urt_priority (highest + 1) (-1)"

section \<open>Tasks\<close>

record urt_task_attr =
  period :: int
  start_time :: int
  stack_size :: u64
  priority :: int
  uses_fpu :: bool
  soft :: bool

record ('f, 'd) urt_task =
  attr :: urt_task_attr
  func :: 'f
  data :: 'd
  tid :: u64
  next_period_calculated :: bool


text \<open>
  \<^verbatim>\<open>_task_wrapper\<close>, the body of the thread: \<open>now\<close> is \<^verbatim>\<open>urt_get_time\<close>, \<open>sleep\<close> is \<^verbatim>\<open>urt_sleep\<close>; the user
  function gets the task, which it may change, and its data.
\<close>

definition task_wrapper ::
    "('w \<Rightarrow> int \<times> 'w) \<Rightarrow> (int \<Rightarrow> 'w \<Rightarrow> 'w) \<Rightarrow> ('f \<Rightarrow> ('f, 'd) urt_task \<Rightarrow> 'd \<Rightarrow> 'w \<Rightarrow> ('f, 'd) urt_task \<times> 'w)
       \<Rightarrow> ('f, 'd) urt_task \<Rightarrow> 'w \<Rightarrow> ('f, 'd) urt_task \<times> 'w" where
  "task_wrapper now sleep call task w =
     (let (n, w1) = now w;
          (task, w2) = (if start_time (attr task) = 0
                        then (task\<lparr>attr := (attr task)\<lparr>start_time := n\<rparr>\<rparr>, w1)
                        else (task, sleep (start_time (attr task) - n) w1))
      in call (func task) task (data task) w2)"

text \<open>
  \<^verbatim>\<open>urt_task_start\<close>: the calls of the thread library are arguments; \<open>attr_init\<close> and \<open>create\<close> return their
  error number, the result of \<open>setstacksize\<close> is ignored by the code. \<open>create\<close> writes the thread's
  identifier to the task. \<open>None\<close> is the NULL pointer.
\<close>

definition urt_task_start ::
    "('w \<Rightarrow> int \<times> 'w) \<Rightarrow> (u64 \<Rightarrow> 'w \<Rightarrow> 'w) \<Rightarrow> (('f, 'd) urt_task \<Rightarrow> 'w \<Rightarrow> (int \<times> u64) \<times> 'w) \<Rightarrow> ('w \<Rightarrow> 'w)
       \<Rightarrow> ('f, 'd) urt_task option \<Rightarrow> 'w \<Rightarrow> int \<times> ('f, 'd) urt_task option \<times> 'w" where
  "urt_task_start attr_init setstacksize create attr_destroy task w =
     (case task of
        None \<Rightarrow> (EINVAL, None, w)
      | Some t \<Rightarrow>
          (let (ret, w1) = attr_init w in
           if ret \<noteq> 0 then (ret, Some t, w1)
           else (let w2 = setstacksize (stack_size (attr t)) w1;
                     ((ret2, id), w3) = create t w2;
                     task = Some (t\<lparr>tid := id\<rparr>)
                 in if ret2 \<noteq> 0 then (ret2, task, attr_destroy w3)
                    else (0, task, attr_destroy w3))))"

definition urt_task_delete ::
    "(u64 \<Rightarrow> 'w \<Rightarrow> 'w) \<Rightarrow> (('f, 'd) urt_task option \<Rightarrow> 'w \<Rightarrow> 'w) \<Rightarrow> ('f, 'd) urt_task option \<Rightarrow> 'w \<Rightarrow> 'w" where
  "urt_task_delete join mem_delete task w =
     mem_delete task (case task of None \<Rightarrow> w | Some t \<Rightarrow> join (tid t) w)"

type_synonym ('f, 'd, 'w) task_state = "('f, 'd) urt_task \<times> 'w"

definition update_start_time :: "('w \<Rightarrow> int \<times> 'w) \<Rightarrow> ('f, 'd, 'w) task_state \<Rightarrow> ('f, 'd, 'w) task_state" where
  "update_start_time now s =
     (case s of (task, w) \<Rightarrow>
        if period (attr task) \<le> 0 then (task, w)
        else if next_period_calculated task then (task, w)
        else (let (cur, w1) = now w;
                  a = (if cur > start_time (attr task)
                       then (attr task)\<lparr>start_time := start_time (attr task) + period (attr task)\<rparr> else attr task)
              in (task\<lparr>attr := a, next_period_calculated := True\<rparr>, w1)))"


definition urt_task_next_period :: "('w \<Rightarrow> int \<times> 'w) \<Rightarrow> ('f, 'd, 'w) task_state \<Rightarrow> int \<times> ('f, 'd, 'w) task_state" where
  "urt_task_next_period now s =
     (case update_start_time now s of (task, w1) \<Rightarrow> (start_time (attr task), task, w1))"

definition urt_task_period_time_left :: "('w \<Rightarrow> int \<times> 'w) \<Rightarrow> ('f, 'd, 'w) task_state \<Rightarrow> int \<times> ('f, 'd, 'w) task_state" where
  "urt_task_period_time_left now s =
     (case urt_task_next_period now s of (t, task, w1) \<Rightarrow> (case now w1 of (n, w2) \<Rightarrow> (t - n, task, w2)))"

section \<open>Priorities of a back-end\<close>

text \<open>
  What applications rely on when they ask for the \<open>n\<close>-th highest priority: as long as the
  system has that many, it is valid and lower than those before it.
\<close>

locale priorities =
  fixes valid :: "int \<Rightarrow> bool" and higher :: "int \<Rightarrow> int \<Rightarrow> bool" and prio :: "u32 \<Rightarrow> int" and levels :: nat
  assumes prio_valid: "unat n < levels \<Longrightarrow> valid (prio n)"
    and prio_order: "unat m < unat n \<Longrightarrow> unat n < levels \<Longrightarrow> higher (prio m) (prio n)"
    and higher_irrefl: "\<not> higher p p"
    and higher_trans: "higher p q \<Longrightarrow> higher q r \<Longrightarrow> higher p r"
begin

lemma prio_distinct:
  assumes "unat m < levels" and "unat n < levels" and "prio m = prio n"
  shows "m = n"
proof (rule ccontr)
  assume "m \<noteq> n"
  then have "unat m < unat n \<or> unat n < unat m" by (metis linorder_neqE_nat word_unat_eq_iff)
  then show False using prio_order assms higher_irrefl by metis
qed

end

interpretation posix: priorities posix_priority_is_valid posix_priority_is_higher posix_priority 1
  by unfold_locales (auto simp: posix_priority_is_valid_def posix_priority_is_higher_def posix_priority_def urt_priority_def)

text \<open>RTAI's bounds on priorities are those of its scheduler; \<open>0\<close> and \<open>0x3fffffff\<close> are the documented ones.\<close>

lemma rtai_priority_value:
  assumes "0 \<le> highest" and "highest + 1 + int (unat n) < 2 ^ 31"
  shows "rtai_priority (of_int highest) n = highest + 1 + int (unat n)"
proof -
  have "(of_int highest :: u32) + 1 - (- 1) * n = of_int (highest + 1 + int (unat n))"
    by (simp add: word_of_int_uint)
  moreover have "sint (of_int (highest + 1 + int (unat n)) :: u32) = highest + 1 + int (unat n)"
    using assms by (intro sint_u32_of_int) simp_all
  ultimately show ?thesis by (simp only: rtai_priority_def urt_priority_def)
qed

lemma rtai_priorities:
  assumes "0 \<le> highest" and "highest \<le> lowest" and "lowest < 2 ^ 31"
  shows "priorities (rtai_priority_is_valid highest lowest) rtai_priority_is_higher
           (rtai_priority (of_int highest)) (nat (lowest - highest))"
proof -
  have val: "rtai_priority (of_int highest) n = highest + 1 + int (unat n)"
    if "unat n < nat (lowest - highest)" for n
    using assms that by (intro rtai_priority_value) linarith+
  show ?thesis
    by unfold_locales (auto simp: val rtai_priority_is_valid_def rtai_priority_is_higher_def simp del: of_nat_unat)
qed

interpretation rtai: priorities "rtai_priority_is_valid 0 0x3fffffff" rtai_priority_is_higher
    "rtai_priority (of_int 0)" "nat (0x3fffffff - 0)"
  by (rule rtai_priorities) simp_all

section \<open>Sleeping\<close>

text \<open>
  C29: \<^verbatim>\<open>urt_sleep\<close> asks for whole seconds and then for less than a second in microseconds; together they
  are no shorter than the requested time and less than a microsecond longer.
\<close>

theorem urt_sleep_never_short:
  assumes "0 < t" and "t + 999 < 2 ^ 32 * 1000000000"
  shows "\<exists>ts tu. urt_sleep sleep usleep t w = usleep tu (sleep ts w) \<and> 0 \<le> ts \<and> ts < 2 ^ 32 \<and> 0 \<le> tu \<and> tu < 1000000 \<and>
           t \<le> (ts * 1000000 + tu) * 1000 \<and> (ts * 1000000 + tu) * 1000 < t + 1000"
proof -
  let ?m = "(t + 999) div 1000"
  let ?ts = "?m div 1000000" and ?tu = "?m mod 1000000"
  have sd: "(t + 999) sdiv 1000 = ?m" using assms by (simp add: sdiv_smod_nonneg)
  have "0 \<le> ?m" using assms by simp
  then have d: "?m sdiv 1000000 = ?ts" "?m smod 1000000 = ?tu"
    by (simp_all add: sdiv_smod_nonneg)
  have b: "0 \<le> ?ts" "?ts < 2 ^ 32" using assms by simp_all
  then have "urt_sleep sleep usleep t w = usleep ?tu (sleep ?ts w)"
    using assms by (simp add: urt_sleep_def Let_def sd d)
  moreover have "?ts * 1000000 + ?tu = ?m" by simp
  moreover have "t \<le> ?m * 1000" and "?m * 1000 < t + 1000" by simp_all
  moreover have "0 \<le> ?tu" and "?tu < 1000000" by simp_all
  ultimately show ?thesis using b by metis
qed

theorem urt_sleep_never_short_witness:
  "\<exists>ts tu. urt_sleep (\<lambda>s w. w + s * 1000000000) (\<lambda>u w. w + u * 1000) 2500000001 7 =
        (\<lambda>w. w + tu * 1000) ((\<lambda>w. w + ts * 1000000000) 7) \<and>
      0 \<le> ts \<and> ts < 2 ^ 32 \<and> 0 \<le> tu \<and> tu < 1000000 \<and>
      2500000001 \<le> (ts * 1000000 + tu) * 1000 \<and> (ts * 1000000 + tu) * 1000 < 2500000001 + (1000 :: int)"
  using urt_sleep_never_short [of 2500000001 "\<lambda>s w. w + s * 1000000000" "\<lambda>u w. w + u * 1000" 7] by simp

section \<open>Creation\<close>




section \<open>Periodic execution\<close>









end
