(* ===== verification/Rtai_Objects.thy ===== *)
theory Rtai_Objects
  imports Urt_Shared_Object
begin

text \<open>
  Shared objects in the RTAI back-end (\<^verbatim>\<open>sys/rtai/src/mem.c\<close>, the creation and release half of
  \<^verbatim>\<open>sys/rtai/src/lock.c\<close>, \<^verbatim>\<open>urt_sys_force_clear_name\<close> of \<^verbatim>\<open>sys/rtai/src/setup.c\<close>), as built for user
  space; \<open>Rtai_Kernel\<close> has what differs in the kernel. RTAI itself is not part of the sources: its services are the fields of a record \<open>rtai\<close>
  that every definition takes as an argument, over a state \<^typ>\<open>'k\<close> of the real-time kernel and
  addresses \<^typ>\<open>'a\<close> of its objects.

  The lemmas show that the back-end meets the contract of the registry, that the object of the
  real-time kernel is deleted by the last user and by nobody else, and when the forced removal
  of a name ends.
\<close>

section \<open>State\<close>

text \<open>The services of RTAI, with its constants for the kinds of semaphores; \<open>None\<close> is NULL.\<close>

record ('a, 'k) rtai =
  nam2num :: "string \<Rightarrow> u64"
  rt_get_adr :: "u64 \<Rightarrow> 'k \<Rightarrow> 'a option"
  rt_shm_alloc :: "u64 \<Rightarrow> u64 \<Rightarrow> 'k \<Rightarrow> 'a option \<times> 'k"
  rt_shm_free :: "u64 \<Rightarrow> 'k \<Rightarrow> 'k"
  rt_typed_sem_init :: "u32 \<Rightarrow> int \<Rightarrow> 'k \<Rightarrow> 'a option \<times> 'k"
  rt_typed_named_sem_init :: "string \<Rightarrow> u32 \<Rightarrow> int \<Rightarrow> 'k \<Rightarrow> 'a option \<times> 'k"
  rt_sem_delete :: "'a \<Rightarrow> 'k \<Rightarrow> 'k"
  rt_named_sem_delete :: "'a \<Rightarrow> 'k \<Rightarrow> 'k"
  rt_rwl_init :: "'k \<Rightarrow> 'a option \<times> 'k"
  rt_named_rwl_init :: "string \<Rightarrow> 'k \<Rightarrow> 'a option \<times> 'k"
  rt_rwl_delete :: "'a \<Rightarrow> 'k \<Rightarrow> 'k"
  rt_named_rwl_delete :: "'a \<Rightarrow> 'k \<Rightarrow> 'k"
  rt_cond_init :: "'k \<Rightarrow> 'a option \<times> 'k"
  rt_cond_delete :: "'a \<Rightarrow> 'k \<Rightarrow> 'k"
  CNT_SEM :: int
  RES_SEM :: int
  BIN_SEM_PRIO_Q :: int

text \<open>
  \<^verbatim>\<open>urt_sem\<close>, \<^verbatim>\<open>urt_rwlock\<close> and \<^verbatim>\<open>urt_cond\<close> have the same form: the pointer to the object and the
  index of its slot in the registry. The embedded object is used in kernel space only.
\<close>

record 'a rt_handle =
  rt_ptr :: "'a option"
  rt_id :: u32

text \<open>
  The process: its heap of handles, whose \<open>n\<close>-th allocation fails if \<open>rt_nomem n\<close>, the first
  word of each shared memory, and the real-time kernel.
\<close>

record ('a, 'k) rt_os =
  rt_heap :: "nat \<Rightarrow> 'a rt_handle option"
  rt_next :: nat
  rt_nomem :: "nat \<Rightarrow> bool"
  rt_word :: "'a \<Rightarrow> u32"
  rt_kernel :: 'k

type_synonym ('a, 'k) rt_global = "('a, 'k) rt_os urt_global"

section \<open>Handles\<close>

text \<open>\<^verbatim>\<open>urt_mem_new(sizeof *handle, error)\<close> and \<^verbatim>\<open>urt_mem_delete\<close>; the contents of a new handle are arbitrary.\<close>

definition rt_mem_new :: "('a, 'k) rt_os \<Rightarrow> (int + nat) \<times> ('a, 'k) rt_os" where
  "rt_mem_new os =
     (let h = rt_next os; os1 = os\<lparr>rt_next := Suc h\<rparr>
      in if rt_nomem os h then (Inl ENOMEM, os1)
         else (Inr h, os1\<lparr>rt_heap := (rt_heap os1)(h \<mapsto> \<lparr>rt_ptr = None, rt_id = 0\<rparr>)\<rparr>))"

definition rt_mem_delete :: "nat option \<Rightarrow> ('a, 'k) rt_os \<Rightarrow> ('a, 'k) rt_os" where
  "rt_mem_delete h os = (case h of None \<Rightarrow> os | Some h \<Rightarrow> os\<lparr>rt_heap := (rt_heap os)(h := None)\<rparr>)"

text \<open>A service that returns an address or NULL.\<close>

type_synonym ('a, 'k) rt_service = "'k \<Rightarrow> 'a option \<times> 'k"

definition rt_set_ptr :: "nat \<Rightarrow> 'a option \<Rightarrow> ('a, 'k) rt_os \<Rightarrow> ('a, 'k) rt_os" where
  "rt_set_ptr h p os = os\<lparr>rt_heap := (rt_heap os)(h \<mapsto> (the (rt_heap os h))\<lparr>rt_ptr := p\<rparr>)\<rparr>"

text \<open>
  The body that all creations share: allocate the handle, ask RTAI for the object, and on NULL
  report \<open>e\<close> and give the handle back. A handle that cannot be allocated is reported as \<^verbatim>\<open>ENOMEM\<close>.
\<close>

definition rt_handle_new :: "('a, 'k) rt_service \<Rightarrow> int \<Rightarrow> ('a, 'k) rt_os \<Rightarrow> (int + nat) \<times> ('a, 'k) rt_os" where
  "rt_handle_new service e os =
     (case rt_mem_new os of
        (Inl enomem, os1) \<Rightarrow> (Inl ENOMEM, rt_mem_delete None os1)
      | (Inr h, os1) \<Rightarrow>
          (case service (rt_kernel os1) of (p, k) \<Rightarrow>
             let os2 = rt_set_ptr h p (os1\<lparr>rt_kernel := k\<rparr>)
             in if p = None then (Inl e, rt_mem_delete (Some h) os2) else (Inr h, os2)))"

text \<open>Deletion of a private object.\<close>

definition rt_handle_delete :: "('a \<Rightarrow> 'k \<Rightarrow> 'k) \<Rightarrow> nat option \<Rightarrow> ('a, 'k) rt_os \<Rightarrow> ('a, 'k) rt_os" where
  "rt_handle_delete del h os =
     rt_mem_delete h (case h of None \<Rightarrow> os
       | Some h \<Rightarrow> os\<lparr>rt_kernel := del (the (rt_ptr (the (rt_heap os h)))) (rt_kernel os)\<rparr>)"

text \<open>The release callback of a shared object: the object goes with its last user.\<close>

definition rt_handle_release :: "('a \<Rightarrow> 'k \<Rightarrow> 'k) \<Rightarrow> nat \<Rightarrow> ('a, 'k) rt_os release" where
  "rt_handle_release del h ro os =
     rt_mem_delete (Some h)
       (if ro_count ro = 0 then os\<lparr>rt_kernel := del (the (rt_ptr (the (rt_heap os h)))) (rt_kernel os)\<rparr> else os)"

definition rt_handle_detach :: "(nat \<Rightarrow> ('a, 'k) rt_os release) \<Rightarrow> nat option \<Rightarrow> ('a, 'k) rt_global \<Rightarrow> ('a, 'k) rt_global option" where
  "rt_handle_detach release h w =
     (case h of None \<Rightarrow> Some w
      | Some h \<Rightarrow>
          (case urt_get_object_by_id (unat (rt_id (the (rt_heap (gos w) h)))) of
             None \<Rightarrow> Some w
           | Some ro \<Rightarrow> urt_deregister ro (Some (release h)) w))"

section \<open>Semaphores\<close>

definition rtai_sem_new_common :: "('a, 'k) rtai \<Rightarrow> u32 \<Rightarrow> int \<Rightarrow> ('a, 'k) rt_os \<Rightarrow> (int + nat) \<times> ('a, 'k) rt_os" where
  "rtai_sem_new_common rt init_value type = rt_handle_new (rt_typed_sem_init rt init_value type) ENOMEM"

definition rtai_sem_new :: "('a, 'k) rtai \<Rightarrow> u32 \<Rightarrow> ('a, 'k) rt_os \<Rightarrow> (int + nat) \<times> ('a, 'k) rt_os" where
  "rtai_sem_new rt init_value = rtai_sem_new_common rt init_value (CNT_SEM rt)"

definition rtai_sem_delete :: "('a, 'k) rtai \<Rightarrow> nat option \<Rightarrow> ('a, 'k) rt_os \<Rightarrow> ('a, 'k) rt_os" where
  "rtai_sem_delete rt = rt_handle_delete (rt_sem_delete rt)"

definition rtai_shsem_common :: "('a, 'k) rtai \<Rightarrow> string \<Rightarrow> u32 \<Rightarrow> int \<Rightarrow> ('a, 'k) rt_os \<Rightarrow> (int + nat) \<times> ('a, 'k) rt_os" where
  "rtai_shsem_common rt name init_value type = rt_handle_new (rt_typed_named_sem_init rt name init_value type) ENOMEM"

definition rtai_sys_shsem_new :: "('a, 'k) rtai \<Rightarrow> string \<Rightarrow> u32 \<Rightarrow> ('a, 'k) rt_os \<Rightarrow> (int + nat) \<times> ('a, 'k) rt_os" where
  "rtai_sys_shsem_new rt name init_value = rtai_shsem_common rt name init_value (CNT_SEM rt)"

definition rtai_sys_shsem_attach :: "('a, 'k) rtai \<Rightarrow> string \<Rightarrow> ('a, 'k) rt_os \<Rightarrow> (int + nat) \<times> ('a, 'k) rt_os" where
  "rtai_sys_shsem_attach rt name = rt_handle_new (\<lambda>k. (rt_get_adr rt (nam2num rt name) k, k)) ENOENT"

definition rtai_shsem_detach :: "('a, 'k) rtai \<Rightarrow> nat \<Rightarrow> ('a, 'k) rt_os release" where
  "rtai_shsem_detach rt = rt_handle_release (rt_named_sem_delete rt)"

definition rtai_urt_shsem_detach :: "('a, 'k) rtai \<Rightarrow> nat option \<Rightarrow> ('a, 'k) rt_global \<Rightarrow> ('a, 'k) rt_global option" where
  "rtai_urt_shsem_detach rt = rt_handle_detach (rtai_shsem_detach rt)"

section \<open>Mutexes\<close>

definition rtai_mutex_new :: "('a, 'k) rtai \<Rightarrow> ('a, 'k) rt_os \<Rightarrow> (int + nat) \<times> ('a, 'k) rt_os" where
  "rtai_mutex_new rt = rtai_sem_new_common rt 1 (RES_SEM rt)"

definition rtai_sys_shmutex_new :: "('a, 'k) rtai \<Rightarrow> string \<Rightarrow> ('a, 'k) rt_os \<Rightarrow> (int + nat) \<times> ('a, 'k) rt_os" where
  "rtai_sys_shmutex_new rt name = rtai_shsem_common rt name 1 (RES_SEM rt)"

definition rtai_mutex_delete :: "('a, 'k) rtai \<Rightarrow> nat option \<Rightarrow> ('a, 'k) rt_os \<Rightarrow> ('a, 'k) rt_os" where
  "rtai_mutex_delete rt = rtai_sem_delete rt"

definition rtai_sys_shmutex_attach :: "('a, 'k) rtai \<Rightarrow> string \<Rightarrow> ('a, 'k) rt_os \<Rightarrow> (int + nat) \<times> ('a, 'k) rt_os" where
  "rtai_sys_shmutex_attach rt name = rtai_sys_shsem_attach rt name"

definition rtai_urt_shmutex_detach :: "('a, 'k) rtai \<Rightarrow> nat option \<Rightarrow> ('a, 'k) rt_global \<Rightarrow> ('a, 'k) rt_global option" where
  "rtai_urt_shmutex_detach rt = rtai_urt_shsem_detach rt"

section \<open>Read-write locks\<close>

definition rtai_rwlock_new :: "('a, 'k) rtai \<Rightarrow> ('a, 'k) rt_os \<Rightarrow> (int + nat) \<times> ('a, 'k) rt_os" where
  "rtai_rwlock_new rt = rt_handle_new (rt_rwl_init rt) ENOMEM"

definition rtai_rwlock_delete :: "('a, 'k) rtai \<Rightarrow> nat option \<Rightarrow> ('a, 'k) rt_os \<Rightarrow> ('a, 'k) rt_os" where
  "rtai_rwlock_delete rt = rt_handle_delete (rt_rwl_delete rt)"

definition rtai_sys_shrwlock_new :: "('a, 'k) rtai \<Rightarrow> string \<Rightarrow> ('a, 'k) rt_os \<Rightarrow> (int + nat) \<times> ('a, 'k) rt_os" where
  "rtai_sys_shrwlock_new rt name = rt_handle_new (rt_named_rwl_init rt name) ENOMEM"

definition rtai_sys_shrwlock_attach :: "('a, 'k) rtai \<Rightarrow> string \<Rightarrow> ('a, 'k) rt_os \<Rightarrow> (int + nat) \<times> ('a, 'k) rt_os" where
  "rtai_sys_shrwlock_attach rt name = rt_handle_new (\<lambda>k. (rt_get_adr rt (nam2num rt name) k, k)) ENOENT"

definition rtai_shrwlock_detach :: "('a, 'k) rtai \<Rightarrow> nat \<Rightarrow> ('a, 'k) rt_os release" where
  "rtai_shrwlock_detach rt = rt_handle_release (rt_named_rwl_delete rt)"

definition rtai_urt_shrwlock_detach :: "('a, 'k) rtai \<Rightarrow> nat option \<Rightarrow> ('a, 'k) rt_global \<Rightarrow> ('a, 'k) rt_global option" where
  "rtai_urt_shrwlock_detach rt = rt_handle_detach (rtai_shrwlock_detach rt)"

section \<open>Condition variables\<close>

definition rtai_cond_new :: "('a, 'k) rtai \<Rightarrow> ('a, 'k) rt_os \<Rightarrow> (int + nat) \<times> ('a, 'k) rt_os" where
  "rtai_cond_new rt = rt_handle_new (rt_cond_init rt) ENOMEM"

definition rtai_cond_delete :: "('a, 'k) rtai \<Rightarrow> nat option \<Rightarrow> ('a, 'k) rt_os \<Rightarrow> ('a, 'k) rt_os" where
  "rtai_cond_delete rt = rt_handle_delete (rt_cond_delete rt)"

text \<open>A condition variable of RTAI is a kind of semaphore.\<close>

definition rtai_sys_shcond_new :: "('a, 'k) rtai \<Rightarrow> string \<Rightarrow> ('a, 'k) rt_os \<Rightarrow> (int + nat) \<times> ('a, 'k) rt_os" where
  "rtai_sys_shcond_new rt name = rt_handle_new (rt_typed_named_sem_init rt name 0 (BIN_SEM_PRIO_Q rt)) ENOMEM"

definition rtai_sys_shcond_attach :: "('a, 'k) rtai \<Rightarrow> string \<Rightarrow> ('a, 'k) rt_os \<Rightarrow> (int + nat) \<times> ('a, 'k) rt_os" where
  "rtai_sys_shcond_attach rt name = rt_handle_new (\<lambda>k. (rt_get_adr rt (nam2num rt name) k, k)) ENOENT"

definition rtai_shcond_detach :: "('a, 'k) rtai \<Rightarrow> nat \<Rightarrow> ('a, 'k) rt_os release" where
  "rtai_shcond_detach rt = rt_handle_release (rt_named_sem_delete rt)"

definition rtai_urt_shcond_detach :: "('a, 'k) rtai \<Rightarrow> nat option \<Rightarrow> ('a, 'k) rt_global \<Rightarrow> ('a, 'k) rt_global option" where
  "rtai_urt_shcond_detach rt = rt_handle_detach (rtai_shcond_detach rt)"

text \<open>The book-keeping of all four kinds of locks: the index is kept in the handle.\<close>

definition rtai_add_handle_book_keeping :: "(('a, 'k) rt_os, nat) bookkeeping" where
  "rtai_add_handle_book_keeping h k ro w =
     (h, w\<lparr>gos := (gos w)\<lparr>rt_heap := (rt_heap (gos w))(h \<mapsto> (the (rt_heap (gos w) h))\<lparr>rt_id := k\<rparr>)\<rparr>\<rparr>)"

section \<open>Shared memory\<close>

text \<open>A pointer into a shared memory: its address and the byte offset.\<close>

definition rtai_global_mem_get :: "('a, 'k) rtai \<Rightarrow> string \<Rightarrow> u64 \<Rightarrow> ('a, 'k) rt_os \<Rightarrow> (int + 'a \<times> nat) \<times> ('a, 'k) rt_os" where
  "rtai_global_mem_get rt name sz os =
     (case rt_shm_alloc rt (nam2num rt name) sz (rt_kernel os) of
        (None, k) \<Rightarrow> (Inl ENOMEM, os\<lparr>rt_kernel := k\<rparr>)
      | (Some mem, k) \<Rightarrow> (Inr (mem, 0), os\<lparr>rt_kernel := k\<rparr>))"

definition rtai_sys_shmem_new :: "('a, 'k) rtai \<Rightarrow> string \<Rightarrow> u64 \<Rightarrow> ('a, 'k) rt_os \<Rightarrow> (int + 'a \<times> nat) \<times> ('a, 'k) rt_os" where
  "rtai_sys_shmem_new rt name sz os =
     (let num = nam2num rt name in
      if rt_get_adr rt num (rt_kernel os) \<noteq> None then (Inl EEXIST, os)
      else case rt_shm_alloc rt num sz (rt_kernel os) of
        (None, k) \<Rightarrow> (Inl ENOMEM, os\<lparr>rt_kernel := k\<rparr>)
      | (Some mem, k) \<Rightarrow> (Inr (mem, 0), os\<lparr>rt_kernel := k\<rparr>))"

definition rtai_sys_shmem_attach :: "('a, 'k) rtai \<Rightarrow> string \<Rightarrow> ('a, 'k) rt_os \<Rightarrow> (int + 'a \<times> nat) \<times> ('a, 'k) rt_os" where
  "rtai_sys_shmem_attach rt name os =
     (case rt_shm_alloc rt (nam2num rt name) 0 (rt_kernel os) of
        (None, k) \<Rightarrow> (Inl ENOENT, os\<lparr>rt_kernel := k\<rparr>)
      | (Some mem, k) \<Rightarrow> (Inr (mem, 0), os\<lparr>rt_kernel := k\<rparr>))"

definition rtai_global_mem_free :: "('a, 'k) rtai \<Rightarrow> string \<Rightarrow> ('a, 'k) rt_os \<Rightarrow> ('a, 'k) rt_os" where
  "rtai_global_mem_free rt name os = os\<lparr>rt_kernel := rt_shm_free rt (nam2num rt name) (rt_kernel os)\<rparr>"

definition rtai_add_mem_book_keeping :: "(('a, 'k) rt_os, 'a \<times> nat) bookkeeping" where
  "rtai_add_mem_book_keeping mem k ro w =
     ((fst mem, snd mem + 16),
      w\<lparr>gos := (gos w)\<lparr>rt_word := (rt_word (gos w))(fst mem := k)\<rparr>,
        gmem := ro_update ro (\<lambda>ro. ro\<lparr>ro_has_bookkeeping := True\<rparr>) (gmem w)\<rparr>)"

text \<open>
  \<^verbatim>\<open>urt_shmem_detach\<close>: RTAI counts the users of a shared memory itself, so it is freed here,
  outside of the registry's lock, and no callback is needed.
\<close>

definition rtai_shmem_detach :: "('a, 'k) rtai \<Rightarrow> ('a \<times> nat) option \<Rightarrow> ('a, 'k) rt_global \<Rightarrow> ('a, 'k) rt_global option" where
  "rtai_shmem_detach rt mem w =
     (case mem of None \<Rightarrow> Some w
      | Some p \<Rightarrow>
          (case urt_get_object_by_id (unat (rt_word (gos w) (fst p))) of
             None \<Rightarrow> Some w
           | Some ro \<Rightarrow>
               urt_deregister ro None
                 (w\<lparr>gos := (gos w)\<lparr>rt_kernel := rt_shm_free rt (nam2num rt (ro_name (objects (gmem w) ! ro))) (rt_kernel (gos w))\<rparr>\<rparr>)))"

section \<open>The exported operations of \<open>new_common.c\<close>\<close>

definition rtai_shmem_new :: "('a, 'k) rtai \<Rightarrow> string \<Rightarrow> u64 \<Rightarrow> (('a, 'k) rt_os, 'a \<times> nat) sys_call" where
  "rtai_shmem_new rt name sz w =
     SHOBJ_NEW name sz (on_os (rtai_sys_shmem_new rt name (sz + 16))) URT_TYPE_MEM rtai_add_mem_book_keeping w"

definition rtai_shmem_attach :: "('a, 'k) rtai \<Rightarrow> string \<Rightarrow> (('a, 'k) rt_os, 'a \<times> nat) sys_call" where
  "rtai_shmem_attach rt name w = SHOBJ_ATTACH name (on_os (rtai_sys_shmem_attach rt name)) rtai_add_mem_book_keeping w"

text \<open>The four kinds of locks differ in the back-end's call and the type; \<open>sz\<close> is the size of the handle.\<close>

definition rtai_shsem_new :: "('a, 'k) rtai \<Rightarrow> u64 \<Rightarrow> string \<Rightarrow> u32 \<Rightarrow> (('a, 'k) rt_os, nat) sys_call" where
  "rtai_shsem_new rt sz name init_value w =
     SHOBJ_NEW name sz (on_os (rtai_sys_shsem_new rt name init_value)) URT_TYPE_SEM rtai_add_handle_book_keeping w"

definition rtai_shsem_attach :: "('a, 'k) rtai \<Rightarrow> string \<Rightarrow> (('a, 'k) rt_os, nat) sys_call" where
  "rtai_shsem_attach rt name w = SHOBJ_ATTACH name (on_os (rtai_sys_shsem_attach rt name)) rtai_add_handle_book_keeping w"

definition rtai_shmutex_new :: "('a, 'k) rtai \<Rightarrow> u64 \<Rightarrow> string \<Rightarrow> (('a, 'k) rt_os, nat) sys_call" where
  "rtai_shmutex_new rt sz name w =
     SHOBJ_NEW name sz (on_os (rtai_sys_shmutex_new rt name)) URT_TYPE_MUTEX rtai_add_handle_book_keeping w"

definition rtai_shrwlock_new :: "('a, 'k) rtai \<Rightarrow> u64 \<Rightarrow> string \<Rightarrow> (('a, 'k) rt_os, nat) sys_call" where
  "rtai_shrwlock_new rt sz name w =
     SHOBJ_NEW name sz (on_os (rtai_sys_shrwlock_new rt name)) URT_TYPE_RWLOCK rtai_add_handle_book_keeping w"

definition rtai_shcond_new :: "('a, 'k) rtai \<Rightarrow> u64 \<Rightarrow> string \<Rightarrow> (('a, 'k) rt_os, nat) sys_call" where
  "rtai_shcond_new rt sz name w =
     SHOBJ_NEW name sz (on_os (rtai_sys_shcond_new rt name)) URT_TYPE_COND rtai_add_handle_book_keeping w"

definition rtai_shmutex_attach :: "('a, 'k) rtai \<Rightarrow> string \<Rightarrow> (('a, 'k) rt_os, nat) sys_call" where
  "rtai_shmutex_attach rt name w = SHOBJ_ATTACH name (on_os (rtai_sys_shmutex_attach rt name)) rtai_add_handle_book_keeping w"

definition rtai_shrwlock_attach :: "('a, 'k) rtai \<Rightarrow> string \<Rightarrow> (('a, 'k) rt_os, nat) sys_call" where
  "rtai_shrwlock_attach rt name w = SHOBJ_ATTACH name (on_os (rtai_sys_shrwlock_attach rt name)) rtai_add_handle_book_keeping w"

definition rtai_shcond_attach :: "('a, 'k) rtai \<Rightarrow> string \<Rightarrow> (('a, 'k) rt_os, nat) sys_call" where
  "rtai_shcond_attach rt name w = SHOBJ_ATTACH name (on_os (rtai_sys_shcond_attach rt name)) rtai_add_handle_book_keeping w"

section \<open>Forced removal\<close>

text \<open>\<^verbatim>\<open>while ((adr = rt_get_adr(num))) delete(adr);\<close> RTAI counts users, so one deletion may not be enough.\<close>

partial_function (option) clear_loop :: "('k \<Rightarrow> 'a option) \<Rightarrow> ('a \<Rightarrow> 'k \<Rightarrow> 'k) \<Rightarrow> 'k \<Rightarrow> 'k option" where
  "clear_loop get del k = (case get k of None \<Rightarrow> Some k | Some adr \<Rightarrow> clear_loop get del (del adr k))"

definition rtai_sys_force_clear_name :: "('a, 'k) rtai \<Rightarrow> urt_registered_object \<Rightarrow> ('a, 'k) rt_os \<Rightarrow> ('a, 'k) rt_os option" where
  "rtai_sys_force_clear_name rt ro os =
     (let num = nam2num rt (ro_name ro); get = rt_get_adr rt num;
          finish = map_option (\<lambda>k. os\<lparr>rt_kernel := k\<rparr>)
      in if ro_type ro = URT_TYPE_MEM then finish (clear_loop get (\<lambda>adr. rt_shm_free rt num) (rt_kernel os))
         else if ro_type ro = URT_TYPE_SEM \<or> ro_type ro = URT_TYPE_MUTEX \<or> ro_type ro = URT_TYPE_COND
         then finish (clear_loop get (rt_named_sem_delete rt) (rt_kernel os))
         else if ro_type ro = URT_TYPE_RWLOCK then finish (clear_loop get (rt_named_rwl_delete rt) (rt_kernel os))
         else Some os)"

section \<open>The contract with the registry\<close>

definition record_rt_id :: "nat \<Rightarrow> u32 \<Rightarrow> ('a, 'k) rt_os \<Rightarrow> ('a, 'k) rt_os" where
  "record_rt_id h k os = os\<lparr>rt_heap := (rt_heap os)(h \<mapsto> (the (rt_heap os h))\<lparr>rt_id := k\<rparr>)\<rparr>"

lemma handle_book_keeping_eq: "rtai_add_handle_book_keeping h k i w = (h, w\<lparr>gos := record_rt_id h k (gos w)\<rparr>)"
  by (simp add: rtai_add_handle_book_keeping_def record_rt_id_def)

text \<open>All locks use one handle interface: \<open>new\<close> and \<open>att\<close> are the back-end's two calls.\<close>

interpretation rt_lock: clean_backend "\<lambda>name. on_os (new name)" "\<lambda>name. on_os (att name)"
  rtai_add_handle_book_keeping False "\<lambda>h. h" record_rt_id for new att
  by unfold_locales (auto simp: on_os_eq on_os_def handle_book_keeping_eq split: prod.splits)

interpretation rt_shmem: clean_backend
  "\<lambda>name. on_os (rtai_sys_shmem_new rt name sz)" "\<lambda>name. on_os (rtai_sys_shmem_attach rt name)"
  rtai_add_mem_book_keeping True "\<lambda>p. (fst p, snd p + 16)" "\<lambda>p k os. os\<lparr>rt_word := (rt_word os)(fst p := k)\<rparr>" for rt sz
  by unfold_locales (auto simp: on_os_eq on_os_def rtai_add_mem_book_keeping_def split: prod.splits)

section \<open>Creation\<close>

text \<open>What a creation promises of the registry, for the type \<open>ty\<close> and the size \<open>sz\<close>.\<close>

definition creation_spec :: "string \<Rightarrow> bool \<Rightarrow> int \<Rightarrow> u64 \<Rightarrow> 'os urt_global \<Rightarrow> ((int + 'p) \<times> 'os urt_global) option \<Rightarrow> bool" where
  "creation_spec name bk ty sz w res \<longleftrightarrow>
     (\<exists>r w'. res = Some (r, w') \<and> registry_inv (gmem w') \<and> gsem w' = gsem w \<and>
       (case r of
          Inl e \<Rightarrow> name_table (gmem w') = name_table (gmem w)
        | Inr p \<Rightarrow> \<exists>i<URT_MAX_OBJECTS (gmem w). name_table (gmem w) (cname name) = None \<and>
            name_table (gmem w') = (name_table (gmem w))(cname name \<mapsto> i) \<and>
            objects (gmem w') = (objects (gmem w))[i := new_slot name bk ty sz]))"

text \<open>
  Creation of shared objects on RTAI, whatever RTAI answers and whenever memory runs out.
  Each of the five creations returns, keeps the registry consistent and the global semaphore
  free; an error leaves the table of names as it was, success adds exactly the new name, with
  one user, the type and the size of the object (a shared memory has 16 bytes of book-keeping).
\<close>

theorem rtai_creation:
  assumes "registry_inv (gmem w)" and "0 < gsem w"
  shows "creation_spec name True URT_TYPE_MEM sz w (rtai_shmem_new rt name sz w) \<and>
    creation_spec name False URT_TYPE_SEM sz w (rtai_shsem_new rt sz name v w) \<and>
    creation_spec name False URT_TYPE_MUTEX sz w (rtai_shmutex_new rt sz name w) \<and>
    creation_spec name False URT_TYPE_RWLOCK sz w (rtai_shrwlock_new rt sz name w) \<and>
    creation_spec name False URT_TYPE_COND sz w (rtai_shcond_new rt sz name w)"
  unfolding creation_spec_def rtai_shmem_new_def rtai_shsem_new_def rtai_shmutex_new_def rtai_shrwlock_new_def rtai_shcond_new_def
  using rt_shmem.new_behaviour [OF assms, of name sz rt "sz + 16" URT_TYPE_MEM]
    rt_lock.new_behaviour [OF assms, of name sz "\<lambda>name. rtai_sys_shsem_new rt name v" URT_TYPE_SEM]
    rt_lock.new_behaviour [OF assms, of name sz "rtai_sys_shmutex_new rt" URT_TYPE_MUTEX]
    rt_lock.new_behaviour [OF assms, of name sz "rtai_sys_shrwlock_new rt" URT_TYPE_RWLOCK]
    rt_lock.new_behaviour [OF assms, of name sz "rtai_sys_shcond_new rt" URT_TYPE_COND]
  by (intro conjI)

section \<open>Release\<close>

text \<open>One user gives up its handle \<open>h\<close> of an object with \<open>c\<close> other users.\<close>

definition release_spec ::
    "('a \<Rightarrow> 'k \<Rightarrow> 'k) \<Rightarrow> nat \<Rightarrow> 'a \<Rightarrow> string \<Rightarrow> nat \<Rightarrow> ('a, 'k) rt_global \<Rightarrow> ('a, 'k) rt_global option \<Rightarrow> bool" where
  "release_spec del h a nm c w res \<longleftrightarrow>
     (\<exists>w'. res = Some w' \<and> registry_inv (gmem w') \<and> gsem w' = gsem w \<and>
        rt_heap (gos w') = (rt_heap (gos w))(h := None) \<and>
        rt_kernel (gos w') = (if c = 0 then del a (rt_kernel (gos w)) else rt_kernel (gos w)) \<and>
        name_table (gmem w') = (if c = 0 then (name_table (gmem w))(nm := None) else name_table (gmem w)))"

lemma rt_handle_detach_run:
  assumes "registry_inv (gmem w)" and "0 < gsem w" and "i < URT_MAX_OBJECTS (gmem w)" and "i < 2 ^ 32"
    and "rt_id (the (rt_heap (gos w) h)) = of_nat i"
  shows "rt_handle_detach rel (Some h) w =
    Some (w\<lparr>gmem := put_slot i (released_slot (objects (gmem w) ! i)) (lowered_max i (gmem w)) (gmem w),
      gos := rel h (released_slot (objects (gmem w) ! i)) (gos w)\<rparr>)"
  using assms
  by (simp add: rt_handle_detach_def urt_get_object_by_id_def urt_deregister_def registry_run dec_count_common_eq unat_u32_of_nat)

lemma rt_handle_detach_spec:
  assumes "registry_inv (gmem w)" and "0 < gsem w" and "name_table (gmem w) nm = Some i" and "i < 2 ^ 32"
    and "rt_heap (gos w) h = Some \<lparr>rt_ptr = Some a, rt_id = of_nat i\<rparr>"
    and "unat (ro_count (objects (gmem w) ! i)) = Suc c"
  shows "release_spec del h a nm c w (rt_handle_detach (rt_handle_release del) (Some h) w)"
proof -
  let ?ro = "released_slot (objects (gmem w) ! i)"
  note i = name_table_invD [OF assms(1,3)]
  have c: "ro_count ?ro = 0 \<longleftrightarrow> c = 0" "ro_count (objects (gmem w) ! i) \<in> {0, 1} \<longleftrightarrow> c = 0"
    using released_count [OF assms(6)] assms(6) by (auto simp: word_unat_eq_iff)
  have run: "rt_handle_detach (rt_handle_release del) (Some h) w =
    Some (w\<lparr>gmem := put_slot i ?ro (lowered_max i (gmem w)) (gmem w), gos := rt_handle_release del h ?ro (gos w)\<rparr>)"
    using rt_handle_detach_run [OF assms(1,2) i(1) assms(4)] assms(5) by simp
  show ?thesis
    unfolding release_spec_def run
    using registry_inv_released [OF assms(1) i(1)] name_table_released [OF assms(1) i(1,2)] c i(3) assms(5)
    by (simp add: rt_handle_release_def rt_mem_delete_def)
qed

text \<open>
  C21: On RTAI the object behind a shared lock dies with its last user, once, and with nobody
  else. Giving up a handle removes the handle; the object of the real-time kernel is deleted and
  the name leaves the registry exactly when no other user is left; the four kinds of locks
  delete it with the service that belongs to the creation.
\<close>

theorem rtai_object_dies_with_last_user:
  assumes "registry_inv (gmem w)" and "0 < gsem w" and "name_table (gmem w) nm = Some i" and "i < 2 ^ 32"
    and "rt_heap (gos w) h = Some \<lparr>rt_ptr = Some a, rt_id = of_nat i\<rparr>"
    and "unat (ro_count (objects (gmem w) ! i)) = Suc c"
  shows "release_spec (rt_named_sem_delete rt) h a nm c w (rtai_urt_shsem_detach rt (Some h) w) \<and>
    release_spec (rt_named_sem_delete rt) h a nm c w (rtai_urt_shmutex_detach rt (Some h) w) \<and>
    release_spec (rt_named_rwl_delete rt) h a nm c w (rtai_urt_shrwlock_detach rt (Some h) w) \<and>
    release_spec (rt_named_sem_delete rt) h a nm c w (rtai_urt_shcond_detach rt (Some h) w)"
  unfolding rtai_urt_shsem_detach_def rtai_urt_shmutex_detach_def rtai_urt_shrwlock_detach_def rtai_urt_shcond_detach_def
    rtai_shsem_detach_def rtai_shrwlock_detach_def rtai_shcond_detach_def
  using rt_handle_detach_spec [OF assms] by blast

section \<open>Termination of the forced removal\<close>

lemma clear_loop_ends:
  fixes users :: "'k \<Rightarrow> nat"
  assumes "\<And>k adr. get k = Some adr \<Longrightarrow> users (del adr k) < users k"
  shows "\<exists>k'. clear_loop get del k = Some k' \<and> get k' = None"
proof (induction "users k" arbitrary: k rule: less_induct)
  case less
  show ?case
  proof (cases "get k")
    case None
    then show ?thesis by (simp add: clear_loop.simps [of get del k])
  next
    case (Some adr)
    with less assms show ?thesis by (simp add: clear_loop.simps [of get del k])
  qed
qed

text \<open>
  The forced removal on RTAI ends with the name gone. RTAI counts the users of an object: each
  of its three deletion services takes at least one user away while the name is known.
\<close>

theorem rtai_force_clear_ends:
  fixes users :: "u64 \<Rightarrow> 'k \<Rightarrow> nat"
  assumes "\<And>num k adr. rt_get_adr rt num k = Some adr \<Longrightarrow> users num (rt_shm_free rt num k) < users num k"
    and "\<And>num k adr. rt_get_adr rt num k = Some adr \<Longrightarrow> users num (rt_named_sem_delete rt adr k) < users num k"
    and "\<And>num k adr. rt_get_adr rt num k = Some adr \<Longrightarrow> users num (rt_named_rwl_delete rt adr k) < users num k"
    and "ro_type ro \<in> {URT_TYPE_MEM, URT_TYPE_SEM, URT_TYPE_MUTEX, URT_TYPE_RWLOCK, URT_TYPE_COND}"
  shows "\<exists>os'. rtai_sys_force_clear_name rt ro os = Some os' \<and> rt_get_adr rt (nam2num rt (ro_name ro)) (rt_kernel os') = None \<and>
    rt_heap os' = rt_heap os"
proof -
  let ?num = "nam2num rt (ro_name ro)"
  let ?get = "rt_get_adr rt ?num"
  have ends: "\<exists>k'. clear_loop ?get del (rt_kernel os) = Some k' \<and> ?get k' = None"
    if "\<And>k adr. ?get k = Some adr \<Longrightarrow> users ?num (del adr k) < users ?num k" for del
    using that by (rule clear_loop_ends)
  obtain k1 where "clear_loop ?get (\<lambda>adr. rt_shm_free rt ?num) (rt_kernel os) = Some k1" "?get k1 = None"
    using ends [of "\<lambda>adr. rt_shm_free rt ?num"] assms(1) by blast
  moreover obtain k2 where "clear_loop ?get (rt_named_sem_delete rt) (rt_kernel os) = Some k2" "?get k2 = None"
    using ends [of "rt_named_sem_delete rt"] assms(2) by blast
  moreover obtain k3 where "clear_loop ?get (rt_named_rwl_delete rt) (rt_kernel os) = Some k3" "?get k3 = None"
    using ends [of "rt_named_rwl_delete rt"] assms(3) by blast
  ultimately show ?thesis
    using assms(4) by (auto simp: rtai_sys_force_clear_name_def Let_def urt_types)
qed

section \<open>An example\<close>

text \<open>
  A real-time kernel that keeps, for every number of a name, the number of users; the address of
  an object is its number.
\<close>

definition demo_num :: "string \<Rightarrow> u64" where
  "demo_num s = foldl (\<lambda>n c. n * 40 + of_char c) 0 (cstr s)"

definition demo_named :: "u64 \<Rightarrow> (u64 \<Rightarrow> nat) \<Rightarrow> u64 option \<times> (u64 \<Rightarrow> nat)" where
  "demo_named num k = (Some num, k(num := Suc (k num)))"

definition demo_drop :: "u64 \<Rightarrow> (u64 \<Rightarrow> nat) \<Rightarrow> (u64 \<Rightarrow> nat)" where
  "demo_drop num k = k(num := k num - 1)"

definition demo_rtai :: "(u64, u64 \<Rightarrow> nat) rtai" where
  "demo_rtai = \<lparr>nam2num = demo_num, rt_get_adr = (\<lambda>num k. if 0 < k num then Some num else None),
     rt_shm_alloc = (\<lambda>num sz k. if sz = 0 \<and> k num = 0 then (None, k) else demo_named num k), rt_shm_free = demo_drop,
     rt_typed_sem_init = (\<lambda>v ty. demo_named 0), rt_typed_named_sem_init = (\<lambda>name v ty. demo_named (demo_num name)),
     rt_sem_delete = demo_drop, rt_named_sem_delete = demo_drop,
     rt_rwl_init = demo_named 0, rt_named_rwl_init = (\<lambda>name. demo_named (demo_num name)),
     rt_rwl_delete = demo_drop, rt_named_rwl_delete = demo_drop,
     rt_cond_init = demo_named 0, rt_cond_delete = demo_drop, CNT_SEM = 1, RES_SEM = 2, BIN_SEM_PRIO_Q = 4\<rparr>"

definition demo_rt_empty :: "(u64, u64 \<Rightarrow> nat) rt_global" where
  "demo_rt_empty = \<lparr>gmem = gmem demo_empty, gsem = 1,
     gos = \<lparr>rt_heap = (\<lambda>h. None), rt_next = 0, rt_nomem = (\<lambda>n. False), rt_word = (\<lambda>a. 0), rt_kernel = (\<lambda>n. 0)\<rparr>\<rparr>"

text \<open>The same with a semaphore of one user.\<close>

definition demo_rt_shared :: "(u64, u64 \<Rightarrow> nat) rt_global" where
  "demo_rt_shared = snd (the (rtai_shsem_new demo_rtai 48 ''AB'' 3 demo_rt_empty))"

lemma demo_rt_empty_ok: "registry_inv (gmem demo_rt_empty)" "0 < gsem demo_rt_empty"
  using demo_inv by (simp_all add: demo_rt_empty_def)

theorem rtai_creation_witness:
  "creation_spec ''AB'' False URT_TYPE_SEM 48 demo_rt_empty (rtai_shsem_new demo_rtai 48 ''AB'' 3 demo_rt_empty)"
  using rtai_creation [OF demo_rt_empty_ok, of "''AB''" 48 demo_rtai 3] by blast

lemma demo_rt_shared_facts:
  "registry_inv (gmem demo_rt_shared)" "0 < gsem demo_rt_shared" "name_table (gmem demo_rt_shared) ''AB'' = Some 0"
  "rt_heap (gos demo_rt_shared) 0 = Some \<lparr>rt_ptr = Some (demo_num ''AB''), rt_id = of_nat 0\<rparr>"
  "unat (ro_count (objects (gmem demo_rt_shared) ! 0)) = Suc 0" "rt_kernel (gos demo_rt_shared) (demo_num ''AB'') = 1"
proof -
  have "case rtai_shsem_new demo_rtai 48 ''AB'' 3 demo_rt_empty of
      Some (Inr p, w) \<Rightarrow> gsem w = 1 \<and> name_table (gmem w) ''AB'' = Some 0 \<and>
        rt_heap (gos w) 0 = Some \<lparr>rt_ptr = Some (demo_num ''AB''), rt_id = of_nat 0\<rparr> \<and>
        ro_count (objects (gmem w) ! 0) = 1 \<and> rt_kernel (gos w) (demo_num ''AB'') = 1
    | _ \<Rightarrow> False"
    by code_simp
  then obtain p w where r: "rtai_shsem_new demo_rtai 48 ''AB'' 3 demo_rt_empty = Some (Inr p, w)"
    and w: "gsem w = 1 \<and> name_table (gmem w) ''AB'' = Some 0 \<and>
        rt_heap (gos w) 0 = Some \<lparr>rt_ptr = Some (demo_num ''AB''), rt_id = of_nat 0\<rparr> \<and>
        ro_count (objects (gmem w) ! 0) = 1 \<and> rt_kernel (gos w) (demo_num ''AB'') = 1"
    by (rule run_success)
  have "demo_rt_shared = w" by (simp add: demo_rt_shared_def r)
  moreover have "registry_inv (gmem w)"
    using rt_lock.new_behaviour [OF demo_rt_empty_ok, of "''AB''" 48 "\<lambda>name. rtai_sys_shsem_new demo_rtai name 3" URT_TYPE_SEM] r
    by (auto simp: rtai_shsem_new_def)
  ultimately show "registry_inv (gmem demo_rt_shared)" "0 < gsem demo_rt_shared" "name_table (gmem demo_rt_shared) ''AB'' = Some 0"
    "rt_heap (gos demo_rt_shared) 0 = Some \<lparr>rt_ptr = Some (demo_num ''AB''), rt_id = of_nat 0\<rparr>"
    "unat (ro_count (objects (gmem demo_rt_shared) ! 0)) = Suc 0" "rt_kernel (gos demo_rt_shared) (demo_num ''AB'') = 1"
    using w by simp_all
qed

theorem rtai_object_dies_with_last_user_witness:
  "release_spec demo_drop 0 (demo_num ''AB'') ''AB'' 0 demo_rt_shared (rtai_urt_shsem_detach demo_rtai (Some 0) demo_rt_shared)"
  using rtai_object_dies_with_last_user [OF demo_rt_shared_facts(1-3) _ demo_rt_shared_facts(4,5), of demo_rtai]
  by (simp add: demo_rtai_def)

theorem rtai_force_clear_ends_witness:
  "\<exists>os'. rtai_sys_force_clear_name demo_rtai (new_slot ''AB'' False URT_TYPE_SEM 48) (gos demo_rt_shared) = Some os' \<and>
     rt_get_adr demo_rtai (nam2num demo_rtai (ro_name (new_slot ''AB'' False URT_TYPE_SEM 48))) (rt_kernel os') = None"
proof -
  have "\<exists>os'. rtai_sys_force_clear_name demo_rtai (new_slot ''AB'' False URT_TYPE_SEM 48) (gos demo_rt_shared) = Some os' \<and>
     rt_get_adr demo_rtai (nam2num demo_rtai (ro_name (new_slot ''AB'' False URT_TYPE_SEM 48))) (rt_kernel os') = None \<and>
     rt_heap os' = rt_heap (gos demo_rt_shared)"
    by (rule rtai_force_clear_ends [where users = "\<lambda>num k. k num"])
      (auto simp: demo_rtai_def demo_drop_def urt_types split: if_splits)
  then show ?thesis by blast
qed

end
