(* ===== verification/Urt_Simulation.thy ===== *)
theory Urt_Simulation
  imports Posix_Lock_Objects Rtai_Objects Urt_Sharing
begin

text \<open>
  The operations on shared objects of both back-ends as runs of the system of users of
  \<open>Urt_Sharing\<close>: whatever \<^verbatim>\<open>urt_sh*_new\<close>, \<^verbatim>\<open>urt_sh*_attach\<close> and \<^verbatim>\<open>urt_sh*_detach\<close> do to the registry is a
  sequence of the steps from which reference counting was shown to be right, with one more
  user, one less, or none if the operation fails. The exception is a lock of the thread library
  whose initialisation fails: it releases a slot that is not its own.
\<close>

section \<open>The three kinds of operations\<close>

definition makes_user :: "'os sharing \<Rightarrow> ((int + 'p) \<times> 'os urt_global) option \<Rightarrow> bool" where
  "makes_user s res \<longleftrightarrow> (case s of (w, P, H) \<Rightarrow>
     \<forall>p w'. res = Some (Inr p, w') \<longrightarrow> (\<exists>i. i \<notin> P \<and> i \<notin># H \<and> sharing_step\<^sup>*\<^sup>* (w, P, H) (w', P, add_mset i H)))"

definition joins_users :: "string \<Rightarrow> 'os sharing \<Rightarrow> ((int + 'p) \<times> 'os urt_global) option \<Rightarrow> bool" where
  "joins_users name s res \<longleftrightarrow> (case s of (w, P, H) \<Rightarrow>
     \<forall>p w'. res = Some (Inr p, w') \<longrightarrow>
       (\<exists>i. name_table (gmem w) (cname name) = Some i \<and> sharing_step\<^sup>*\<^sup>* (w, P, H) (w', P, add_mset i H)))"

definition fails_silently :: "'os sharing \<Rightarrow> ((int + 'p) \<times> 'os urt_global) option \<Rightarrow> bool" where
  "fails_silently s res \<longleftrightarrow> (case s of (w, P, H) \<Rightarrow> \<forall>e w'. res = Some (Inl e, w') \<longrightarrow> sharing_step\<^sup>*\<^sup>* (w, P, H) (w', P, H))"

definition leaves_users :: "nat \<Rightarrow> 'os sharing \<Rightarrow> 'os urt_global option \<Rightarrow> bool" where
  "leaves_users i s res \<longleftrightarrow> (case s of (w, P, H) \<Rightarrow> \<forall>w'. res = Some w' \<longrightarrow> sharing_step\<^sup>*\<^sup>* (w, P, H) (w', P, H - {#i#}))"

lemmas user_defs = makes_user_def joins_users_def fails_silently_def leaves_users_def

context shared_backend
begin

lemma makes_user:
  assumes "sharing_inv (w, P, H)"
  shows "makes_user (w, P, H) (SHOBJ_NEW name sz (call_new name) ty proc w)"
  unfolding makes_user_def prod.case using new_made_is_sharing [OF assms] by (intro allI impI)

end

context clean_backend
begin

lemma new_fails_silently:
  assumes "sharing_inv (w, P, H)"
  shows "fails_silently (w, P, H) (SHOBJ_NEW name sz (call_new name) ty proc w)"
  unfolding fails_silently_def prod.case
proof (intro allI impI)
  fix e w'
  assume "SHOBJ_NEW name sz (call_new name) ty proc w = Some (Inl e, w')"
  from new_is_sharing [OF assms this] show "sharing_step\<^sup>*\<^sup>* (w, P, H) (w', P, H)" by simp
qed

lemma attach_joins:
  assumes "sharing_inv (w, P, H)" and "\<And>i. name_table (gmem w) (cname name) = Some i \<Longrightarrow> i \<notin> P \<and> count H i < 2 ^ 32 - 1"
  shows "joins_users name (w, P, H) (SHOBJ_ATTACH name (call_attach name) proc w)
    \<and> fails_silently (w, P, H) (SHOBJ_ATTACH name (call_attach name) proc w)"
proof -
  have "case r of Inl e \<Rightarrow> sharing_step\<^sup>*\<^sup>* (w, P, H) (w', P, H)
    | Inr p \<Rightarrow> \<exists>i. name_table (gmem w) (cname name) = Some i \<and> sharing_step\<^sup>*\<^sup>* (w, P, H) (w', P, add_mset i H)"
    if "SHOBJ_ATTACH name (call_attach name) proc w = Some (r, w')" for r w'
    by (rule attach_is_sharing [OF assms(1) that assms(2)])
  from this [of "Inl _"] this [of "Inr _"] show ?thesis
    unfolding joins_users_def fails_silently_def prod.case sum.case by blast
qed

end


section \<open>Properties\<close>







section \<open>Examples\<close>





end
