(* ===== verification/Rtai_Kernel.thy ===== *)
theory Rtai_Kernel
  imports Rtai_Objects
begin

text \<open>
  The branches that only the kernel build of the RTAI back-end has (\<^verbatim>\<open>__KERNEL__\<close>): plain memory
  from \<^verbatim>\<open>vmalloc\<close> (\<^verbatim>\<open>src/mem_common.c\<close>), private locks whose object is embedded in the handle and
  the names of shared objects (\<^verbatim>\<open>sys/rtai/src/lock.c\<close>), the forced removal (\<^verbatim>\<open>sys/rtai/src/setup.c\<close>),
  which is also tied to the registry here, for both builds.

  The lemmas show that a private lock leaves no trace, in either build, that a resized block keeps
  what the caller declared as its contents, and that the forced removal of a name ends
  in both builds with the name gone from RTAI and from the registry.
\<close>

section \<open>Plain memory\<close>

text \<open>
  The memory of the kernel. The \<open>n\<close>-th allocation fails if \<open>vm_nomem n\<close>; the contents of a new block
  are arbitrary and read from \<open>vm_junk\<close>. \<^verbatim>\<open>vmalloc(0)\<close> is NULL.
\<close>

record kernel_memory =
  vm_blocks :: "nat \<Rightarrow> 8 word list option"
  vm_next :: nat
  vm_nomem :: "nat \<Rightarrow> bool"
  vm_junk :: "nat \<Rightarrow> 8 word"

definition vmalloc :: "u64 \<Rightarrow> kernel_memory \<Rightarrow> nat option \<times> kernel_memory" where
  "vmalloc sz m =
     (let h = vm_next m; m1 = m\<lparr>vm_next := Suc h\<rparr>
      in if sz = 0 \<or> vm_nomem m h then (None, m1)
         else (Some h, m1\<lparr>vm_blocks := (vm_blocks m1)(h \<mapsto> map (vm_junk m) [0..<unat sz])\<rparr>))"

definition vfree :: "nat option \<Rightarrow> kernel_memory \<Rightarrow> kernel_memory" where
  "vfree p m = (case p of None \<Rightarrow> m | Some h \<Rightarrow> m\<lparr>vm_blocks := (vm_blocks m)(h := None)\<rparr>)"

text \<open>\<^verbatim>\<open>memcpy\<close> from the start of one block to the start of another; \<open>None\<close> is an access outside of a block.\<close>

definition memcpy :: "nat \<Rightarrow> nat option \<Rightarrow> nat \<Rightarrow> kernel_memory \<Rightarrow> kernel_memory option" where
  "memcpy dst src n m =
     (if n = 0 then Some m
      else case (vm_blocks m dst, Option.bind src (vm_blocks m)) of
        (Some d, Some s) \<Rightarrow>
          if n \<le> length d \<and> n \<le> length s then Some (m\<lparr>vm_blocks := (vm_blocks m)(dst \<mapsto> take n s @ drop n d)\<rparr>) else None
      | _ \<Rightarrow> None)"

definition kern_mem_new :: "u64 \<Rightarrow> kernel_memory \<Rightarrow> (int + nat) \<times> kernel_memory" where
  "kern_mem_new sz m = (case vmalloc sz m of (None, m1) \<Rightarrow> (Inl ENOMEM, m1) | (Some h, m1) \<Rightarrow> (Inr h, m1))"

definition kern_mem_resize :: "nat option \<Rightarrow> u64 \<Rightarrow> u64 \<Rightarrow> kernel_memory \<Rightarrow> ((int + nat option) \<times> kernel_memory) option" where
  "kern_mem_resize old_mem old_size sz m =
     (if sz = 0 \<or> sz < old_size then Some (Inr old_mem, m)
      else case vmalloc sz m of
        (None, m1) \<Rightarrow> Some (Inl ENOMEM, m1)
      | (Some h, m1) \<Rightarrow> do {
          m2 \<leftarrow> memcpy h old_mem (unat old_size) m1;
          Some (Inr (Some h), vfree old_mem m2) })"

definition kern_mem_delete :: "nat option \<Rightarrow> kernel_memory \<Rightarrow> kernel_memory" where
  "kern_mem_delete mem m = vfree mem m"

section \<open>The kernel's services\<close>

text \<open>
  RTAI as modules see it. \<open>embedded h\<close> is the address of the object inside of the handle \<open>h\<close>; the
  initialisations of such objects cannot fail. Named objects are named by numbers.
\<close>

record ('a, 'k) rtai_kern =
  embedded :: "nat \<Rightarrow> 'a"
  kern_sem_init :: "'a \<Rightarrow> u32 \<Rightarrow> int \<Rightarrow> 'k \<Rightarrow> 'k"
  kern_rwl_init :: "'a \<Rightarrow> 'k \<Rightarrow> 'k"
  kern_cond_init :: "'a \<Rightarrow> 'k \<Rightarrow> 'k"
  kern_named_sem_init :: "u64 \<Rightarrow> u32 \<Rightarrow> int \<Rightarrow> 'k \<Rightarrow> 'a option \<times> 'k"
  kern_named_rwl_init :: "u64 \<Rightarrow> 'k \<Rightarrow> 'a option \<times> 'k"
  rt_drg_on_name :: "u64 \<Rightarrow> 'k \<Rightarrow> 'k"

text \<open>
  The two macros at the top of \<^verbatim>\<open>lock.c\<close>. With them the operations on shared objects of
  \<open>Rtai_Objects\<close>, and what is proved of them for any services, are those of the kernel build.
\<close>

definition kern_build :: "('a, 'k) rtai_kern \<Rightarrow> ('a, 'k) rtai \<Rightarrow> ('a, 'k) rtai" where
  "kern_build rk rt = rt\<lparr>
     rt_typed_named_sem_init := (\<lambda>name val type. kern_named_sem_init rk (nam2num rt name) val type),
     rt_named_rwl_init := (\<lambda>name. kern_named_rwl_init rk (nam2num rt name))\<rparr>"

section \<open>Private locks\<close>

text \<open>Allocate the handle, initialise the object in it, let the pointer point to it.\<close>

definition kern_handle_new :: "(nat \<Rightarrow> 'a) \<Rightarrow> ('a \<Rightarrow> 'k \<Rightarrow> 'k) \<Rightarrow> ('a, 'k) rt_os \<Rightarrow> (int + nat) \<times> ('a, 'k) rt_os" where
  "kern_handle_new address init os =
     (case rt_mem_new os of
        (Inl enomem, os1) \<Rightarrow> (Inl ENOMEM, os1)
      | (Inr h, os1) \<Rightarrow> (Inr h, rt_set_ptr h (Some (address h)) (os1\<lparr>rt_kernel := init (address h) (rt_kernel os1)\<rparr>)))"

definition kern_sem_new_common :: "('a, 'k) rtai_kern \<Rightarrow> u32 \<Rightarrow> int \<Rightarrow> ('a, 'k) rt_os \<Rightarrow> (int + nat) \<times> ('a, 'k) rt_os" where
  "kern_sem_new_common rk init_value type = kern_handle_new (embedded rk) (\<lambda>sem. kern_sem_init rk sem init_value type)"

definition kern_sem_new :: "('a, 'k) rtai_kern \<Rightarrow> ('a, 'k) rtai \<Rightarrow> u32 \<Rightarrow> ('a, 'k) rt_os \<Rightarrow> (int + nat) \<times> ('a, 'k) rt_os" where
  "kern_sem_new rk rt init_value = kern_sem_new_common rk init_value (CNT_SEM rt)"

definition kern_mutex_new :: "('a, 'k) rtai_kern \<Rightarrow> ('a, 'k) rtai \<Rightarrow> ('a, 'k) rt_os \<Rightarrow> (int + nat) \<times> ('a, 'k) rt_os" where
  "kern_mutex_new rk rt = kern_sem_new_common rk 1 (RES_SEM rt)"

definition kern_rwlock_new :: "('a, 'k) rtai_kern \<Rightarrow> ('a, 'k) rt_os \<Rightarrow> (int + nat) \<times> ('a, 'k) rt_os" where
  "kern_rwlock_new rk = kern_handle_new (embedded rk) (kern_rwl_init rk)"

definition kern_cond_new :: "('a, 'k) rtai_kern \<Rightarrow> ('a, 'k) rt_os \<Rightarrow> (int + nat) \<times> ('a, 'k) rt_os" where
  "kern_cond_new rk = kern_handle_new (embedded rk) (kern_cond_init rk)"

section \<open>Forced removal\<close>

text \<open>\<^verbatim>\<open>while (rt_get_adr(num)) rt_drg_on_name(num);\<close>, whatever the type of the object.\<close>

definition kern_sys_force_clear_name ::
    "('a, 'k) rtai_kern \<Rightarrow> ('a, 'k) rtai \<Rightarrow> urt_registered_object \<Rightarrow> ('a, 'k) rt_os \<Rightarrow> ('a, 'k) rt_os option" where
  "kern_sys_force_clear_name rk rt ro os =
     (let num = nam2num rt (ro_name ro)
      in map_option (\<lambda>k. os\<lparr>rt_kernel := k\<rparr>) (clear_loop (rt_get_adr rt num) (\<lambda>adr. rt_drg_on_name rk num) (rt_kernel os)))"

text \<open>\<^verbatim>\<open>urt_force_clear_name\<close> with a back-end whose removal may not return.\<close>

definition rtai_urt_force_clear_name ::
    "(urt_registered_object \<Rightarrow> ('a, 'k) rt_os \<Rightarrow> ('a, 'k) rt_os option) \<Rightarrow> string \<Rightarrow> ('a, 'k) rt_global \<Rightarrow> ('a, 'k) rt_global option" where
  "rtai_urt_force_clear_name sys_clear name w = do {
     w1 \<leftarrow> urt_global_sem_wait w;
     w2 \<leftarrow> (case find_by_name (gmem w1) name of None \<Rightarrow> Some w1
            | Some i \<Rightarrow> do { os \<leftarrow> sys_clear (objects (gmem w1) ! i) (gos w1); Some (force_clear_loop i (w1\<lparr>gos := os\<rparr>)) });
     Some (urt_global_sem_post w2)}"

section \<open>Plain memory: lemmas\<close>

text \<open>A failed access: only if the caller overstates the size of the old block.\<close>

lemma kern_mem_resize_faults:
  "kern_mem_resize old old_size sz m = None \<longleftrightarrow>
     sz \<noteq> 0 \<and> old_size \<le> sz \<and> \<not> vm_nomem m (vm_next m) \<and> old_size \<noteq> 0 \<and>
     (case Option.bind old ((vm_blocks m)(vm_next m \<mapsto> map (vm_junk m) [0..<unat sz])) of None \<Rightarrow> True | Some b \<Rightarrow> length b < unat old_size)"
  by (auto simp: kern_mem_resize_def vmalloc_def memcpy_def Let_def unat_eq_0 not_le not_less
      simp flip: word_le_nat_alt split: option.splits bind_splits if_splits)

text \<open>
  \<^verbatim>\<open>urt_mem_resize\<close> in the kernel, on every branch: a new size of 0 or below the old one changes nothing;
  without memory the old block stays as it is; otherwise exactly the old block is replaced by
  a new one of the requested size, which begins with the declared part of the old contents.
\<close>

theorem kern_mem_resize_behaviour:
  assumes "vm_blocks m h = Some b" and "unat old_size \<le> length b" and "vm_blocks m (vm_next m) = None"
  shows "if sz = 0 \<or> sz < old_size then kern_mem_resize (Some h) old_size sz m = Some (Inr (Some h), m)
    else if vm_nomem m (vm_next m)
    then \<exists>m'. kern_mem_resize (Some h) old_size sz m = Some (Inl ENOMEM, m') \<and> vm_blocks m' = vm_blocks m
    else \<exists>m' b'. kern_mem_resize (Some h) old_size sz m = Some (Inr (Some (vm_next m)), m')
      \<and> vm_blocks m' = (vm_blocks m)(h := None, vm_next m \<mapsto> b') \<and> length b' = unat sz \<and> take (unat old_size) b' = take (unat old_size) b"
proof -
  have h: "h \<noteq> vm_next m" using assms(1,3) by auto
  have le: "unat old_size \<le> unat sz" if "\<not> sz < old_size" using that by (simp add: word_le_nat_alt not_less)
  have z: "old_size = 0" if "unat old_size = 0" using that by (simp add: unat_eq_0)
  show ?thesis
    using assms h le
    by (auto simp: kern_mem_resize_def vmalloc_def memcpy_def vfree_def Let_def fun_upd_twist)
qed

theorem kern_mem_resize_behaviour_witness:
  "\<exists>m' b'. kern_mem_resize (Some 0) 2 4 \<lparr>vm_blocks = [0 \<mapsto> [7, 8]], vm_next = 1, vm_nomem = (\<lambda>n. False), vm_junk = (\<lambda>i. 0)\<rparr>
      = Some (Inr (Some 1), m') \<and> vm_blocks m' 0 = None \<and> vm_blocks m' 1 = Some b' \<and> take 2 b' = [7, 8] \<and> length b' = 4"
  using kern_mem_resize_behaviour [of "\<lparr>vm_blocks = [0 \<mapsto> [7, 8]], vm_next = 1, vm_nomem = (\<lambda>n. False), vm_junk = (\<lambda>i. 0)\<rparr>" 0 "[7, 8]" 2 4]
  by auto

section \<open>Private locks: lemmas\<close>

text \<open>
  The life of a private lock: \<open>mk\<close> is what the creation asks of RTAI, \<open>del\<close> the deletion. A failure is
  \<^verbatim>\<open>ENOMEM\<close> and leaves no handle; after success and deletion there is no handle left either,
  and RTAI has deleted the object that it had made.
\<close>

definition private_lifecycle ::
    "('a, 'k) rt_service \<Rightarrow> ('a \<Rightarrow> 'k \<Rightarrow> 'k) \<Rightarrow> (nat option \<Rightarrow> ('a, 'k) rt_os \<Rightarrow> ('a, 'k) rt_os)
      \<Rightarrow> ('a, 'k) rt_os \<Rightarrow> (int + nat) \<times> ('a, 'k) rt_os \<Rightarrow> bool" where
  "private_lifecycle mk del delete os res \<longleftrightarrow>
     (case res of
        (Inl e, os') \<Rightarrow> e = ENOMEM \<and> rt_heap os' = rt_heap os
          \<and> (rt_nomem os (rt_next os) \<and> rt_kernel os' = rt_kernel os \<or> mk (rt_kernel os) = (None, rt_kernel os'))
      | (Inr h, os') \<Rightarrow> rt_heap os h = None \<and> (\<exists>a. mk (rt_kernel os) = (Some a, rt_kernel os') \<and> rt_heap os' = (rt_heap os)(h \<mapsto> \<lparr>rt_ptr = Some a, rt_id = 0\<rparr>)
          \<and> rt_heap (delete (Some h) os') = rt_heap os \<and> rt_kernel (delete (Some h) os') = del a (rt_kernel os')))"

lemma rt_handle_new_lifecycle:
  assumes "rt_heap os (rt_next os) = None"
  shows "private_lifecycle mk del (rt_handle_delete del) os (rt_handle_new mk ENOMEM os)"
  using assms
  by (auto simp: private_lifecycle_def rt_handle_new_def rt_handle_delete_def rt_mem_new_def rt_mem_delete_def rt_set_ptr_def Let_def fun_upd_idem
      split: prod.splits option.splits)

lemma kern_handle_new_lifecycle:
  assumes "rt_heap os (rt_next os) = None"
  shows "private_lifecycle (\<lambda>k. (Some (address (rt_next os)), init (address (rt_next os)) k)) del (rt_handle_delete del) os
    (kern_handle_new address init os)"
  using assms
  by (auto simp: private_lifecycle_def kern_handle_new_def rt_handle_delete_def rt_mem_new_def rt_mem_delete_def rt_set_ptr_def Let_def fun_upd_idem)

text \<open>
  A private lock leaves no trace, in user space and in the kernel: a failed creation reports
  \<^verbatim>\<open>ENOMEM\<close> and keeps no handle; after creation and deletion the handle is gone and RTAI has
  deleted the very object that it made, which in the kernel is the one embedded in the handle.
\<close>

theorem private_locks_leave_no_trace:
  assumes "rt_heap os (rt_next os) = None"
  shows "private_lifecycle (rt_typed_sem_init rt v (CNT_SEM rt)) (rt_sem_delete rt) (rtai_sem_delete rt) os (rtai_sem_new rt v os)
    \<and> private_lifecycle (rt_typed_sem_init rt 1 (RES_SEM rt)) (rt_sem_delete rt) (rtai_mutex_delete rt) os (rtai_mutex_new rt os)
    \<and> private_lifecycle (rt_rwl_init rt) (rt_rwl_delete rt) (rtai_rwlock_delete rt) os (rtai_rwlock_new rt os)
    \<and> private_lifecycle (rt_cond_init rt) (rt_cond_delete rt) (rtai_cond_delete rt) os (rtai_cond_new rt os)
    \<and> (\<forall>a. a = embedded rk (rt_next os) \<longrightarrow>
        private_lifecycle (\<lambda>k. (Some a, kern_sem_init rk a v (CNT_SEM rt) k)) (rt_sem_delete rt) (rtai_sem_delete rt) os (kern_sem_new rk rt v os)
      \<and> private_lifecycle (\<lambda>k. (Some a, kern_sem_init rk a 1 (RES_SEM rt) k)) (rt_sem_delete rt) (rtai_mutex_delete rt) os (kern_mutex_new rk rt os)
      \<and> private_lifecycle (\<lambda>k. (Some a, kern_rwl_init rk a k)) (rt_rwl_delete rt) (rtai_rwlock_delete rt) os (kern_rwlock_new rk os)
      \<and> private_lifecycle (\<lambda>k. (Some a, kern_cond_init rk a k)) (rt_cond_delete rt) (rtai_cond_delete rt) os (kern_cond_new rk os))"
  unfolding rtai_sem_new_def rtai_mutex_new_def rtai_sem_new_common_def rtai_rwlock_new_def rtai_cond_new_def
    rtai_mutex_delete_def rtai_sem_delete_def rtai_rwlock_delete_def rtai_cond_delete_def
    kern_sem_new_def kern_mutex_new_def kern_sem_new_common_def kern_rwlock_new_def kern_cond_new_def
  by (intro conjI allI impI rt_handle_new_lifecycle [OF assms])
    (hypsubst, rule kern_handle_new_lifecycle [OF assms])+

section \<open>Forced removal: lemmas\<close>

lemma kern_force_clear_ends:
  fixes users :: "u64 \<Rightarrow> 'k \<Rightarrow> nat"
  assumes "\<And>num k adr. rt_get_adr rt num k = Some adr \<Longrightarrow> users num (rt_drg_on_name rk num k) < users num k"
  shows "\<exists>os'. kern_sys_force_clear_name rk rt ro os = Some os' \<and> rt_get_adr rt (nam2num rt (ro_name ro)) (rt_kernel os') = None
    \<and> rt_heap os' = rt_heap os"
proof -
  let ?num = "nam2num rt (ro_name ro)"
  have "\<exists>k. clear_loop (rt_get_adr rt ?num) (\<lambda>adr. rt_drg_on_name rk ?num) (rt_kernel os) = Some k \<and> rt_get_adr rt ?num k = None"
    by (rule clear_loop_ends [where users = "users ?num"]) (erule assms)
  then show ?thesis by (auto simp: kern_sys_force_clear_name_def)
qed

text \<open>With a removal that returns, the operation is the one of the registry.\<close>

lemma rtai_force_clear_run:
  assumes "find_by_name (gmem w) name = Some i" and "clr (objects (gmem w) ! i) (gos w) = Some os"
  shows "rtai_urt_force_clear_name clr name w = urt_force_clear_name (\<lambda>ro os0. os) name w"
  using assms
  by (cases "gsem w = 0") (simp_all add: rtai_urt_force_clear_name_def urt_force_clear_name_def urt_global_sem_wait_def)

text \<open>What the forced removal promises: \<open>gone\<close> holds of the name's number and RTAI afterwards.\<close>

definition cleared_spec :: "('a, 'k) rtai \<Rightarrow> string \<Rightarrow> ('a, 'k) rt_global \<Rightarrow> ('a, 'k) rt_global option \<Rightarrow> bool" where
  "cleared_spec rt name w res \<longleftrightarrow>
     (\<exists>w'. res = Some w' \<and> registry_inv (gmem w') \<and> gsem w' = gsem w \<and> rt_heap (gos w') = rt_heap (gos w)
        \<and> name_table (gmem w') = (name_table (gmem w))(cname name := None)
        \<and> (case name_table (gmem w) (cname name) of None \<Rightarrow> w' = w
            | Some i \<Rightarrow> rt_get_adr rt (nam2num rt (ro_name (objects (gmem w) ! i))) (rt_kernel (gos w')) = None))"

lemma cleared_specI:
  assumes "registry_inv (gmem w)" and "0 < gsem w"
    and "\<And>i. name_table (gmem w) (cname name) = Some i \<Longrightarrow>
      \<exists>os'. clr (objects (gmem w) ! i) (gos w) = Some os' \<and> rt_get_adr rt (nam2num rt (ro_name (objects (gmem w) ! i))) (rt_kernel os') = None
        \<and> rt_heap os' = rt_heap (gos w)"
  shows "cleared_spec rt name w (rtai_urt_force_clear_name clr name w)"
proof (cases "name_table (gmem w) (cname name)")
  case None
  then have "find_by_name (gmem w) name = None" using assms(1) by (simp add: find_by_name_table)
  then have "rtai_urt_force_clear_name clr name w = urt_force_clear_name (\<lambda>ro os. os) name w"
    using assms(2) by (simp add: rtai_urt_force_clear_name_def urt_force_clear_name_def urt_global_sem_wait_def)
  with force_clear_unknown [OF assms(1,2) None] None assms(1) show ?thesis
    by (simp add: cleared_spec_def fun_upd_idem)
next
  case (Some i)
  from assms(3) [OF Some] obtain os' where
    os': "clr (objects (gmem w) ! i) (gos w) = Some os'"
      "rt_get_adr rt (nam2num rt (ro_name (objects (gmem w) ! i))) (rt_kernel os') = None" "rt_heap os' = rt_heap (gos w)"
    by blast
  have "find_by_name (gmem w) name = Some i" using assms(1) Some by (simp add: find_by_name_table)
  note run = rtai_force_clear_run [where clr = clr, OF this os'(1)]
  from force_clear_known [OF assms(1,2) Some, of "\<lambda>ro os0. os'"] obtain g where
    "urt_force_clear_name (\<lambda>ro os0. os') name w = Some (w\<lparr>gmem := g, gos := os'\<rparr>)" "registry_inv g"
      "name_table g = (name_table (gmem w))(cname name := None)"
    by blast
  with run os' Some show ?thesis by (simp add: cleared_spec_def)
qed

text \<open>
  C27: The forced removal of a name on RTAI ends, in user space and in the kernel, with the name gone
  from the registry and from RTAI, and nothing else of the registry changed. RTAI counts the users
  of an object: each of its deletion services takes at least one user away while the name is
  known. In user space the type of the slot has to be one of the five; the kernel does not look at it.
\<close>

theorem rtai_force_clear_name_ends:
  fixes users :: "u64 \<Rightarrow> 'k \<Rightarrow> nat" and rt :: "('a, 'k) rtai"
  assumes "registry_inv (gmem w)" and "0 < gsem w"
    and "\<And>num k adr. rt_get_adr rt num k = Some adr \<Longrightarrow> users num (rt_shm_free rt num k) < users num k
      \<and> users num (rt_named_sem_delete rt adr k) < users num k \<and> users num (rt_named_rwl_delete rt adr k) < users num k
      \<and> users num (rt_drg_on_name rk num k) < users num k"
  shows "((\<forall>i. name_table (gmem w) (cname name) = Some i \<longrightarrow>
        ro_type (objects (gmem w) ! i) \<in> {URT_TYPE_MEM, URT_TYPE_SEM, URT_TYPE_MUTEX, URT_TYPE_RWLOCK, URT_TYPE_COND}) \<longrightarrow>
      cleared_spec rt name w (rtai_urt_force_clear_name (rtai_sys_force_clear_name rt) name w))
    \<and> cleared_spec rt name w (rtai_urt_force_clear_name (kern_sys_force_clear_name rk rt) name w)"
proof -
  note t = assms(3) [THEN conjunct1] assms(3) [THEN conjunct2, THEN conjunct1]
    assms(3) [THEN conjunct2, THEN conjunct2, THEN conjunct1] assms(3) [THEN conjunct2, THEN conjunct2, THEN conjunct2]
  have "cleared_spec rt name w (rtai_urt_force_clear_name (rtai_sys_force_clear_name rt) name w)"
    if "\<forall>i. name_table (gmem w) (cname name) = Some i \<longrightarrow>
      ro_type (objects (gmem w) ! i) \<in> {URT_TYPE_MEM, URT_TYPE_SEM, URT_TYPE_MUTEX, URT_TYPE_RWLOCK, URT_TYPE_COND}"
    using that by (intro cleared_specI [OF assms(1,2)] rtai_force_clear_ends [where users = users, OF t(1-3)]) simp_all
  moreover have "cleared_spec rt name w (rtai_urt_force_clear_name (kern_sys_force_clear_name rk rt) name w)"
    by (intro cleared_specI [OF assms(1,2)] kern_force_clear_ends [where users = users, OF t(4)])
  ultimately show ?thesis by blast
qed

section \<open>An example\<close>

text \<open>The kernel side of the example of \<open>Rtai_Objects\<close>; the object of handle \<open>h\<close> has the number \<open>1000 + h\<close>.\<close>

definition demo_kern :: "(u64, u64 \<Rightarrow> nat) rtai_kern" where
  "demo_kern = \<lparr>embedded = (\<lambda>h. 1000 + of_nat h), kern_sem_init = (\<lambda>a v ty k. k(a := 1)), kern_rwl_init = (\<lambda>a k. k(a := 1)),
     kern_cond_init = (\<lambda>a k. k(a := 1)), kern_named_sem_init = (\<lambda>num v ty. demo_named num), kern_named_rwl_init = demo_named,
     rt_drg_on_name = demo_drop\<rparr>"

theorem private_locks_leave_no_trace_witness:
  "private_lifecycle (\<lambda>k. (Some 1000, k(1000 := 1))) demo_drop (rtai_sem_delete demo_rtai) (gos demo_rt_empty)
     (kern_sem_new demo_kern demo_rtai 1 (gos demo_rt_empty))"
proof -
  have "rt_heap (gos demo_rt_empty) (rt_next (gos demo_rt_empty)) = None" by (simp add: demo_rt_empty_def)
  from private_locks_leave_no_trace [OF this, of demo_rtai 1 demo_kern] show ?thesis
    by (simp add: demo_kern_def demo_rtai_def demo_rt_empty_def)
qed

theorem rtai_force_clear_name_ends_witness:
  "cleared_spec demo_rtai ''AB'' demo_rt_shared (rtai_urt_force_clear_name (rtai_sys_force_clear_name demo_rtai) ''AB'' demo_rt_shared)
    \<and> cleared_spec demo_rtai ''AB'' demo_rt_shared (rtai_urt_force_clear_name (kern_sys_force_clear_name demo_kern demo_rtai) ''AB'' demo_rt_shared)"
proof -
  have drop: "num = adr \<and> 0 < k num" if "rt_get_adr demo_rtai num k = Some adr" for num adr :: u64 and k
    using that by (auto simp: demo_rtai_def split: if_splits)
  have n: "cname ''AB'' = ''AB''" by code_simp
  have ty: "ro_type (objects (gmem demo_rt_shared) ! 0) = URT_TYPE_SEM" by code_simp
  have t: "\<forall>i. name_table (gmem demo_rt_shared) (cname ''AB'') = Some i \<longrightarrow>
      ro_type (objects (gmem demo_rt_shared) ! i) \<in> {URT_TYPE_MEM, URT_TYPE_SEM, URT_TYPE_MUTEX, URT_TYPE_RWLOCK, URT_TYPE_COND}"
    using demo_rt_shared_facts(3) ty by (simp add: n)
  have "(\<forall>i. name_table (gmem demo_rt_shared) (cname ''AB'') = Some i \<longrightarrow>
      ro_type (objects (gmem demo_rt_shared) ! i) \<in> {URT_TYPE_MEM, URT_TYPE_SEM, URT_TYPE_MUTEX, URT_TYPE_RWLOCK, URT_TYPE_COND}) \<longrightarrow>
      cleared_spec demo_rtai ''AB'' demo_rt_shared (rtai_urt_force_clear_name (rtai_sys_force_clear_name demo_rtai) ''AB'' demo_rt_shared)"
    "cleared_spec demo_rtai ''AB'' demo_rt_shared (rtai_urt_force_clear_name (kern_sys_force_clear_name demo_kern demo_rtai) ''AB'' demo_rt_shared)"
    using rtai_force_clear_name_ends [OF demo_rt_shared_facts(1,2), of demo_rtai "\<lambda>num k. k num" demo_kern "''AB''"] drop
    by (fastforce simp: demo_rtai_def demo_kern_def demo_drop_def)+
  with t show ?thesis by blast
qed

end
