(* ===== verification/Rtai_Dump.thy ===== *)
theory Rtai_Dump
  imports Urt_Tools Rtai_Objects
begin

text \<open>
  \<^verbatim>\<open>urt_dump_memory\<close> of \<^verbatim>\<open>src/registry.c\<close> with the RTAI back-end. The dump of a lock shows what the pointer
  of the attachment points to, which on RTAI is the handle of the process that dumps.

  The lemmas show that a dump returns and leaves the registry as it was, and for locks also the
  handles of the process and the real-time kernel.
\<close>

section \<open>Definitions\<close>

datatype 'a rt_obj = Rt_memory "'a \<times> nat" | Rt_lock nat

definition rtai_dump_attach ::
    "('a, 'k) rtai \<Rightarrow> int \<Rightarrow> string \<Rightarrow> ('a, 'k) rt_global \<Rightarrow> ((int + 'a rt_obj) \<times> ('a, 'k) rt_global) option" where
  "rtai_dump_attach rt ty name w =
     (if ty = URT_TYPE_MEM then as_obj Rt_memory (rtai_shmem_attach rt name w)
      else if ty = URT_TYPE_SEM then as_obj Rt_lock (rtai_shsem_attach rt name w)
      else if ty = URT_TYPE_MUTEX then as_obj Rt_lock (rtai_shmutex_attach rt name w)
      else if ty = URT_TYPE_RWLOCK then as_obj Rt_lock (rtai_shrwlock_attach rt name w)
      else as_obj Rt_lock (rtai_shcond_attach rt name w))"

definition rtai_dump_detach :: "('a, 'k) rtai \<Rightarrow> int \<Rightarrow> 'a rt_obj \<Rightarrow> ('a, 'k) rt_global \<Rightarrow> ('a, 'k) rt_global option" where
  "rtai_dump_detach rt ty obj w =
     (case obj of
        Rt_memory p \<Rightarrow> rtai_shmem_detach rt (Some p) w
      | Rt_lock h \<Rightarrow>
          if ty = URT_TYPE_SEM then rtai_urt_shsem_detach rt (Some h) w
          else if ty = URT_TYPE_MUTEX then rtai_urt_shmutex_detach rt (Some h) w
          else if ty = URT_TYPE_RWLOCK then rtai_urt_shrwlock_detach rt (Some h) w
          else rtai_urt_shcond_detach rt (Some h) w)"

text \<open>\<open>bytes\<close> gives the bytes at an address or in a handle, which are up to RTAI.\<close>

definition rtai_dump_memory ::
    "('a, 'k) rtai \<Rightarrow> (('a, 'k) rt_os \<Rightarrow> 'a rt_obj \<Rightarrow> u64 \<Rightarrow> byte) \<Rightarrow> string \<Rightarrow> u64 \<Rightarrow> u64 \<Rightarrow> ('a, 'k) rt_global
      \<Rightarrow> (string \<times> ('a, 'k) rt_global) option" where
  "rtai_dump_memory rt bytes = dump_with (rtai_dump_attach rt) (rtai_dump_detach rt) (\<lambda>ty. bytes)"

section \<open>Any back-end\<close>

text \<open>The dump ends in a good state if a failed attachment does, and a successful one after its release.\<close>

lemma dump_with_ends:
  assumes "registry_inv (gmem w)" and "0 < gsem w" and "name_table (gmem w) (cname name) = Some i"
    and "ro_type (objects (gmem w) ! i) \<in> {URT_TYPE_MEM, URT_TYPE_SEM, URT_TYPE_MUTEX, URT_TYPE_RWLOCK, URT_TYPE_COND}"
    and "unat (ro_size (objects (gmem w) ! i) - (if ro_has_bookkeeping (objects (gmem w) ! i) then 16 else 0)) + 16 \<le> 2 ^ 64"
    and visit: "(\<exists>e w3. att (ro_type (objects (gmem w) ! i)) name w = Some (Inl e, w3) \<and> good w3)
      \<or> (\<exists>obj w3 w4. att (ro_type (objects (gmem w) ! i)) name w = Some (Inr obj, w3)
          \<and> det (ro_type (objects (gmem w) ! i)) obj w3 = Some w4 \<and> good w4)"
  shows "\<exists>out w'. dump_with att det peek name start fin w = Some (out, w') \<and> good w'"
proof -
  define sz where "sz = ro_size (objects (gmem w) ! i) - (if ro_has_bookkeeping (objects (gmem w) ! i) then 16 else 0)"
  define e where "e = (if fin = 0 \<or> fin > sz then sz else fin)"
  have "unat e \<le> unat sz" by (auto simp: e_def word_less_nat_alt)
  then have "unat e + 16 \<le> 2 ^ 64" using assms(5) sz_def by simp
  then have "dump_rows p s e = Some (the (dump_rows p s e))" for p s using dump_rows_read [of e p s] by auto
  note rows = this [unfolded e_def sz_def]
  from visit show ?thesis
  proof (elim disjE exE conjE)
    fix err w3
    assume "att (ro_type (objects (gmem w) ! i)) name w = Some (Inl err, w3)" "good w3"
    with assms(2-4) show ?thesis
      by (simp add: dump_with_def sem_wait_run urt_global_sem_post_def find_by_name_table [OF assms(1)] Let_def
          del: de_Morgan_disj split del: if_split)
  next
    fix obj w3 w4
    assume v: "att (ro_type (objects (gmem w) ! i)) name w = Some (Inr obj, w3)" "good w4"
      "det (ro_type (objects (gmem w) ! i)) obj w3 = Some w4"
    with assms(2-4) show ?thesis
      by (simp add: dump_with_def sem_wait_run urt_global_sem_post_def find_by_name_table [OF assms(1)] Let_def
          del: de_Morgan_disj split del: if_split, subst rows, simp)
  qed
qed

text \<open>An attachment and its release leave the registry alone.\<close>

definition registry_kept :: "nat \<Rightarrow> 'os urt_global \<Rightarrow> 'os urt_global \<Rightarrow> bool" where
  "registry_kept i w w' \<longleftrightarrow> registry_inv (gmem w') \<and> gsem w' = gsem w \<and> name_table (gmem w') = name_table (gmem w)
     \<and> ro_count (objects (gmem w') ! i) = ro_count (objects (gmem w) ! i)"

lemma visit_registry:
  assumes "registry_inv (gmem w)" and "name_table (gmem w) n = Some i" and "ro_count (objects (gmem w) ! i) \<notin> {0, -1}"
    and w1: "w1 = w\<lparr>gmem := ro_update i (\<lambda>ro. (counted_slot ro)\<lparr>ro_has_bookkeeping := b ro\<rparr>) (gmem w), gos := os1\<rparr>"
  shows "registry_inv (gmem w1)" and "i < URT_MAX_OBJECTS (gmem w1)"
    and "ro_count (released_slot (objects (gmem w1) ! i)) = ro_count (objects (gmem w) ! i)"
    and "registry_kept i w (w1\<lparr>gmem := put_slot i (released_slot (objects (gmem w1) ! i)) (lowered_max i (gmem w1)) (gmem w1), gos := os2\<rparr>)"
proof -
  let ?f = "\<lambda>ro. (counted_slot ro)\<lparr>ro_has_bookkeeping := b ro\<rparr>" and ?ro = "objects (gmem w) ! i"
  note i = name_table_invD [OF assms(1,2)]
  have cnt: "ro_count ?ro \<noteq> -1" "ro_count ?ro \<noteq> 0" using assms(3) by simp_all
  have used: "ro_used (?f ?ro)" using u32_inc_nonzero [OF cnt(1)] by (simp add: ro_used_def counted_slot_def)
  then have reg: "registry_inv (gmem w1)" "name_table (gmem w1) = name_table (gmem w)"
    using registry_update [OF assms(1) i(1,2), of ?f] w1 by (simp_all add: counted_slot_def)
  have obj: "objects (gmem w1) = (objects (gmem w))[i := ?f ?ro]" by (simp add: w1 ro_update_def)
  then have slot: "objects (gmem w1) ! i = ?f ?ro" and bound: "i < URT_MAX_OBJECTS (gmem w1)" using i(1) by simp_all
  have c: "ro_count (?f ?ro) = ro_count ?ro + 1" "ro_count ?ro + 1 \<noteq> 0" "ro_count ?ro + 1 \<noteq> 1"
    using u32_inc_nonzero [OF cnt(1)] cnt(2) by (simp_all add: counted_slot_def)
  show "registry_inv (gmem w1)" "i < URT_MAX_OBJECTS (gmem w1)" by (rule reg(1), rule bound)
  show count: "ro_count (released_slot (objects (gmem w1) ! i)) = ro_count ?ro"
    using c by (simp add: slot released_slot_def)
  show "registry_kept i w (w1\<lparr>gmem := put_slot i (released_slot (objects (gmem w1) ! i)) (lowered_max i (gmem w1)) (gmem w1), gos := os2\<rparr>)"
    using registry_inv_released [OF reg(1) bound] name_table_released [OF reg(1) bound] used c reg(2) count slot bound w1
    by (simp add: registry_kept_def put_slot_def)
qed

section \<open>Visits on RTAI\<close>

text \<open>What a dump leaves alone: the registry and, of a lock, the handles and the real-time kernel.\<close>

definition rt_kept :: "bool \<Rightarrow> nat \<Rightarrow> ('a, 'k) rt_global \<Rightarrow> ('a, 'k) rt_global \<Rightarrow> bool" where
  "rt_kept lock i w w' \<longleftrightarrow> registry_kept i w w' \<and> rt_heap (gos w') = rt_heap (gos w) \<and> (lock \<longrightarrow> rt_kernel (gos w') = rt_kernel (gos w))"

text \<open>The four locks attach in the same way.\<close>

definition rt_lookup :: "('a, 'k) rtai \<Rightarrow> string \<Rightarrow> ('a, 'k) rt_os \<Rightarrow> (int + nat) \<times> ('a, 'k) rt_os" where
  "rt_lookup rt name = rt_handle_new (\<lambda>k. (rt_get_adr rt (nam2num rt name) k, k)) ENOENT"

lemma rt_lookup_cases:
  assumes "rt_heap os (rt_next os) = None"
  obtains (fails) e os1 where "rt_lookup rt name os = (Inl e, os1)" "rt_heap os1 = rt_heap os" "rt_kernel os1 = rt_kernel os"
  | (finds) a os1 where "rt_lookup rt name os = (Inr (rt_next os), os1)" "rt_kernel os1 = rt_kernel os"
      "rt_heap os1 = (rt_heap os)(rt_next os \<mapsto> \<lparr>rt_ptr = Some a, rt_id = 0\<rparr>)"
proof (cases "rt_nomem os (rt_next os)")
  case True
  then show ?thesis by (intro fails [of ENOMEM "os\<lparr>rt_next := Suc (rt_next os)\<rparr>"])
      (simp_all add: rt_lookup_def rt_handle_new_def rt_mem_new_def rt_mem_delete_def Let_def)
next
  case False
  show ?thesis
  proof (cases "rt_get_adr rt (nam2num rt name) (rt_kernel os)")
    case None
    with False assms show ?thesis
      by (intro fails [of ENOENT "os\<lparr>rt_next := Suc (rt_next os)\<rparr>"])
        (simp_all add: rt_lookup_def rt_handle_new_def rt_mem_new_def rt_mem_delete_def rt_set_ptr_def Let_def fun_upd_idem)
  next
    case (Some a)
    with False show ?thesis
      by (intro finds [of "os\<lparr>rt_next := Suc (rt_next os), rt_heap := (rt_heap os)(rt_next os \<mapsto> \<lparr>rt_ptr = Some a, rt_id = 0\<rparr>)\<rparr>" a])
        (simp_all add: rt_lookup_def rt_handle_new_def rt_mem_new_def rt_set_ptr_def Let_def)
  qed
qed

lemma rt_lock_visit:
  assumes "registry_inv (gmem w)" and "0 < gsem w" and "name_table (gmem w) (cname name) = Some i" and "i < 2 ^ 32"
    and "ro_count (objects (gmem w) ! i) \<notin> {0, -1}" and fresh: "rt_heap (gos w) (rt_next (gos w)) = None"
  shows "(\<exists>e w3. SHOBJ_ATTACH name (on_os (rt_lookup rt name)) rtai_add_handle_book_keeping w = Some (Inl e, w3) \<and> rt_kept True i w w3)
    \<or> (\<exists>h w3 w4. SHOBJ_ATTACH name (on_os (rt_lookup rt name)) rtai_add_handle_book_keeping w = Some (Inr h, w3)
        \<and> rt_handle_detach (rt_handle_release del) (Some h) w3 = Some w4 \<and> rt_kept True i w w4)"
  using fresh
proof (cases rule: rt_lookup_cases [where rt = rt and name = name])
  case (fails e os1)
  have "on_os (rt_lookup rt name) (counted_state i w) = Some (Inl e, (counted_state i w)\<lparr>gos := os1\<rparr>)"
    using fails(1) by (simp add: on_os_def counted_state_def)
  moreover have "0 < ro_count (objects (gmem w) ! i)" using assms(5) by (simp add: word_gt_0)
  moreover have "ro_count (objects (gmem w) ! i) \<noteq> -1" using assms(5) by simp
  ultimately have "\<exists>w3. SHOBJ_ATTACH name (on_os (rt_lookup rt name)) rtai_add_handle_book_keeping w = Some (Inl e, w3) \<and> rt_kept True i w w3"
    using rt_lock.attach_fails [OF assms(1-3), where att = "rt_lookup rt"] fails(2,3)
    by (fastforce simp: rt_kept_def registry_kept_def)
  then show ?thesis by blast
next
  case (finds a os1)
  let ?h = "rt_next (gos w)"
  let ?w3 = "w\<lparr>gmem := ro_update i (\<lambda>ro. (counted_slot ro)\<lparr>ro_has_bookkeeping := ro_has_bookkeeping ro\<rparr>) (gmem w),
      gos := record_rt_id ?h (of_nat i) os1\<rparr>"
  have "on_os (rt_lookup rt name) (counted_state i w) = Some (Inr ?h, (counted_state i w)\<lparr>gos := os1\<rparr>)"
    using finds(1) by (simp add: on_os_def counted_state_def)
  from rt_lock.attach_run [where att = "rt_lookup rt", OF assms(1-3) this]
  have att: "SHOBJ_ATTACH name (on_os (rt_lookup rt name)) rtai_add_handle_book_keeping w = Some (Inr ?h, ?w3)" by simp
  note v = visit_registry [OF assms(1,3,5), where b = ro_has_bookkeeping and ?os1.0 = "record_rt_id ?h (of_nat i) os1", OF refl]
  let ?slot = "released_slot (objects (gmem ?w3) ! i)"
  have id: "rt_id (the (rt_heap (gos ?w3) ?h)) = of_nat i" by (simp add: record_rt_id_def)
  have sem: "0 < gsem ?w3" using assms(2) by simp
  note det = rt_handle_detach_run [OF v(1) sem v(2) assms(4) id, where rel = "rt_handle_release del"]
  have "ro_count ?slot \<noteq> 0" using v(3) assms(5) by simp
  then have "rt_heap (rt_handle_release del ?h ?slot (gos ?w3)) = rt_heap (gos w)"
    "rt_kernel (rt_handle_release del ?h ?slot (gos ?w3)) = rt_kernel (gos w)"
    using finds(2,3) fresh by (simp_all add: rt_handle_release_def rt_mem_delete_def record_rt_id_def fun_upd_idem)
  with v(4) have "rt_kept True i w (?w3\<lparr>gmem := put_slot i ?slot (lowered_max i (gmem ?w3)) (gmem ?w3),
      gos := rt_handle_release del ?h ?slot (gos ?w3)\<rparr>)"
    unfolding rt_kept_def by simp
  with att det show ?thesis by blast
qed

text \<open>A shared memory: RTAI counts its users too, so the real-time kernel is called twice.\<close>

lemma rt_mem_visit:
  assumes "registry_inv (gmem w)" and "0 < gsem w" and "name_table (gmem w) (cname name) = Some i" and "i < 2 ^ 32"
    and "ro_count (objects (gmem w) ! i) \<notin> {0, -1}"
  shows "(\<exists>e w3. rtai_shmem_attach rt name w = Some (Inl e, w3) \<and> rt_kept False i w w3)
    \<or> (\<exists>p w3 w4. rtai_shmem_attach rt name w = Some (Inr p, w3) \<and> rtai_shmem_detach rt (Some p) w3 = Some w4 \<and> rt_kept False i w w4)"
proof -
  obtain c os1 where call: "rtai_sys_shmem_attach rt name (gos w) = (c, os1)" by fastforce
  then have heap: "rt_heap os1 = rt_heap (gos w)" by (auto simp: rtai_sys_shmem_attach_def split: option.splits prod.splits)
  have on: "on_os (rtai_sys_shmem_attach rt name) (counted_state i w) = Some (c, (counted_state i w)\<lparr>gos := os1\<rparr>)"
    using call by (simp add: on_os_def counted_state_def)
  show ?thesis
  proof (cases c)
    case (Inl e)
    have "0 < ro_count (objects (gmem w) ! i)" "ro_count (objects (gmem w) ! i) \<noteq> -1" using assms(5) by (simp_all add: word_gt_0)
    with rt_shmem.attach_fails [OF assms(1-3) _ _ on [unfolded Inl]] heap
    have "\<exists>w3. rtai_shmem_attach rt name w = Some (Inl e, w3) \<and> rt_kept False i w w3"
      unfolding rtai_shmem_attach_def by (fastforce simp: rt_kept_def registry_kept_def)
    then show ?thesis by blast
  next
    case (Inr p)
    let ?os = "os1\<lparr>rt_word := (rt_word os1)(fst p := of_nat i)\<rparr>"
    let ?w3 = "w\<lparr>gmem := ro_update i (\<lambda>ro. (counted_slot ro)\<lparr>ro_has_bookkeeping := True \<or> ro_has_bookkeeping ro\<rparr>) (gmem w), gos := ?os\<rparr>"
    have att: "rtai_shmem_attach rt name w = Some (Inr (fst p, snd p + 16), ?w3)"
      using rt_shmem.attach_run [OF assms(1-3) on [unfolded Inr]] by (simp add: rtai_shmem_attach_def)
    note v = visit_registry [OF assms(1,3,5), where b = "\<lambda>ro. True \<or> ro_has_bookkeeping ro" and ?os1.0 = ?os, OF refl]
    let ?k = "rt_shm_free rt (nam2num rt (ro_name (objects (gmem ?w3) ! i))) (rt_kernel ?os)"
    let ?w4 = "?w3\<lparr>gmem := put_slot i (released_slot (objects (gmem ?w3) ! i)) (lowered_max i (gmem ?w3)) (gmem ?w3), gos := ?os\<lparr>rt_kernel := ?k\<rparr>\<rparr>"
    have "rtai_shmem_detach rt (Some (fst p, snd p + 16)) ?w3 = Some ?w4"
      using v(1,2) assms(2,4)
      by (simp add: rtai_shmem_detach_def urt_get_object_by_id_def unat_u32_of_nat urt_deregister_def registry_run dec_count_common_eq)
    moreover have "rt_kept False i w ?w4" using v(4) heap unfolding rt_kept_def by simp
    ultimately show ?thesis using att by blast
  qed
qed

section \<open>Properties\<close>

lemma lock_attach_lookup:
  "rtai_shsem_attach rt name = SHOBJ_ATTACH name (on_os (rt_lookup rt name)) rtai_add_handle_book_keeping"
  "rtai_shmutex_attach rt name = SHOBJ_ATTACH name (on_os (rt_lookup rt name)) rtai_add_handle_book_keeping"
  "rtai_shrwlock_attach rt name = SHOBJ_ATTACH name (on_os (rt_lookup rt name)) rtai_add_handle_book_keeping"
  "rtai_shcond_attach rt name = SHOBJ_ATTACH name (on_os (rt_lookup rt name)) rtai_add_handle_book_keeping"
  by (simp_all add: fun_eq_iff rtai_shsem_attach_def rtai_shmutex_attach_def rtai_shrwlock_attach_def rtai_shcond_attach_def
      rtai_sys_shsem_attach_def rtai_sys_shmutex_attach_def rtai_sys_shrwlock_attach_def rtai_sys_shcond_attach_def rt_lookup_def)

lemma lock_detach_handle:
  "rtai_urt_shsem_detach rt = rt_handle_detach (rt_handle_release (rt_named_sem_delete rt))"
  "rtai_urt_shmutex_detach rt = rt_handle_detach (rt_handle_release (rt_named_sem_delete rt))"
  "rtai_urt_shrwlock_detach rt = rt_handle_detach (rt_handle_release (rt_named_rwl_delete rt))"
  "rtai_urt_shcond_detach rt = rt_handle_detach (rt_handle_release (rt_named_sem_delete rt))"
  by (simp_all add: fun_eq_iff rtai_urt_shsem_detach_def rtai_urt_shmutex_detach_def rtai_urt_shrwlock_detach_def rtai_urt_shcond_detach_def
      rtai_shsem_detach_def rtai_shrwlock_detach_def rtai_shcond_detach_def)

lemma dump_lock_visit:
  assumes "registry_inv (gmem w)" and "0 < gsem w" and "name_table (gmem w) (cname name) = Some i" and "i < 2 ^ 32"
    and "ro_count (objects (gmem w) ! i) \<notin> {0, -1}" and "rt_heap (gos w) (rt_next (gos w)) = None" and "ty \<noteq> URT_TYPE_MEM"
  shows "(\<exists>e w3. rtai_dump_attach rt ty name w = Some (Inl e, w3) \<and> rt_kept True i w w3)
    \<or> (\<exists>obj w3 w4. rtai_dump_attach rt ty name w = Some (Inr obj, w3) \<and> rtai_dump_detach rt ty obj w3 = Some w4 \<and> rt_kept True i w w4)"
proof -
  define del where "del = (if ty = URT_TYPE_RWLOCK then rt_named_rwl_delete rt else rt_named_sem_delete rt)"
  have ne: "URT_TYPE_SEM \<noteq> URT_TYPE_RWLOCK" "URT_TYPE_MUTEX \<noteq> URT_TYPE_RWLOCK" by (simp_all add: urt_types)
  have att: "rtai_dump_attach rt ty name w = as_obj Rt_lock (SHOBJ_ATTACH name (on_os (rt_lookup rt name)) rtai_add_handle_book_keeping w)"
    using assms(7) by (simp add: rtai_dump_attach_def lock_attach_lookup)
  have det: "rtai_dump_detach rt ty (Rt_lock h) v = rt_handle_detach (rt_handle_release del) (Some h) v" for h v
    using ne by (simp add: rtai_dump_detach_def lock_detach_handle del_def)
  let ?run = "SHOBJ_ATTACH name (on_os (rt_lookup rt name)) rtai_add_handle_book_keeping w"
  have fails: "rtai_dump_attach rt ty name w = Some (Inl e, w3)" if "?run = Some (Inl e, w3)" for e w3
    using that by (simp add: att as_obj_def)
  have finds: "rtai_dump_attach rt ty name w = Some (Inr (Rt_lock h), w3)" if "?run = Some (Inr h, w3)" for h w3
    using that by (simp add: att as_obj_def)
  from rt_lock_visit [OF assms(1-6), of rt del] show ?thesis
    using fails finds det by metis
qed

text \<open>
  A dump on RTAI disturbs nothing. For an object with users it returns, whether or not the tool can
  attach; afterwards the registry, the count of the slot and the handles of the process are what they were, and after
  the dump of a lock the real-time kernel is, too.
\<close>

theorem rtai_dump_disturbs_nothing:
  assumes "registry_inv (gmem w)" and "0 < gsem w" and "name_table (gmem w) (cname name) = Some i" and "i < 2 ^ 32"
    and "ro_count (objects (gmem w) ! i) \<notin> {0, -1}" and "rt_heap (gos w) (rt_next (gos w)) = None"
    and "ro_type (objects (gmem w) ! i) \<in> {URT_TYPE_MEM, URT_TYPE_SEM, URT_TYPE_MUTEX, URT_TYPE_RWLOCK, URT_TYPE_COND}"
    and "unat (ro_size (objects (gmem w) ! i) - (if ro_has_bookkeeping (objects (gmem w) ! i) then 16 else 0)) + 16 \<le> 2 ^ 64"
  shows "\<exists>out w'. rtai_dump_memory rt bytes name start fin w = Some (out, w')
    \<and> registry_inv (gmem w') \<and> gsem w' = gsem w \<and> name_table (gmem w') = name_table (gmem w)
    \<and> ro_count (objects (gmem w') ! i) = ro_count (objects (gmem w) ! i) \<and> rt_heap (gos w') = rt_heap (gos w)
    \<and> (ro_type (objects (gmem w) ! i) \<noteq> URT_TYPE_MEM \<longrightarrow> rt_kernel (gos w') = rt_kernel (gos w))"
proof -
  let ?lock = "ro_type (objects (gmem w) ! i) \<noteq> URT_TYPE_MEM"
  have "(\<exists>e w3. rtai_dump_attach rt (ro_type (objects (gmem w) ! i)) name w = Some (Inl e, w3) \<and> rt_kept ?lock i w w3)
    \<or> (\<exists>obj w3 w4. rtai_dump_attach rt (ro_type (objects (gmem w) ! i)) name w = Some (Inr obj, w3)
        \<and> rtai_dump_detach rt (ro_type (objects (gmem w) ! i)) obj w3 = Some w4 \<and> rt_kept ?lock i w w4)"
  proof (cases "ro_type (objects (gmem w) ! i) = URT_TYPE_MEM")
    case True
    from rt_mem_visit [OF assms(1-5), of rt] show ?thesis
    proof (elim disjE exE conjE)
      fix p w3 w4
      assume "rtai_shmem_attach rt name w = Some (Inr p, w3)" "rtai_shmem_detach rt (Some p) w3 = Some w4" "rt_kept False i w w4"
      then have "rtai_dump_attach rt URT_TYPE_MEM name w = Some (Inr (Rt_memory p), w3)" "rt_kept False i w w4"
        "rtai_dump_detach rt URT_TYPE_MEM (Rt_memory p) w3 = Some w4"
        by (simp_all add: rtai_dump_attach_def rtai_dump_detach_def as_obj_def)
      with True show ?thesis by auto
    qed (use True in \<open>auto simp: rtai_dump_attach_def as_obj_def\<close>)
  next
    case False
    with dump_lock_visit [OF assms(1-6) False] show ?thesis by simp
  qed
  from dump_with_ends [where good = "rt_kept ?lock i w" and att = "rtai_dump_attach rt" and det = "rtai_dump_detach rt", OF assms(1-3,7,8) this]
  show ?thesis unfolding rtai_dump_memory_def rt_kept_def registry_kept_def by blast
qed

theorem rtai_dump_disturbs_nothing_witness:
  "\<exists>out w'. rtai_dump_memory demo_rtai (\<lambda>os obj k. 0) ''AB'' 0 0 demo_rt_shared = Some (out, w')
    \<and> name_table (gmem w') = name_table (gmem demo_rt_shared) \<and> rt_kernel (gos w') = rt_kernel (gos demo_rt_shared)"
proof -
  have n: "cname ''AB'' = ''AB''" by code_simp
  have "ro_type (objects (gmem demo_rt_shared) ! 0) = URT_TYPE_SEM \<and> ro_size (objects (gmem demo_rt_shared) ! 0) = 48
      \<and> \<not> ro_has_bookkeeping (objects (gmem demo_rt_shared) ! 0) \<and> rt_heap (gos demo_rt_shared) (rt_next (gos demo_rt_shared)) = None
      \<and> ro_count (objects (gmem demo_rt_shared) ! 0) = 1"
    by code_simp
  then show ?thesis
    using rtai_dump_disturbs_nothing [OF demo_rt_shared_facts(1,2), of "''AB''" 0 demo_rtai "\<lambda>os obj k. 0" 0 0] demo_rt_shared_facts(3) n
    by (auto simp: urt_types)
qed

end
