(* ===== verification/Rtai_Lock.thy ===== *)
theory Rtai_Lock
  imports Posix_Lock
begin

text \<open>
  Requests on locks in the RTAI back-end (the second half of \<^verbatim>\<open>sys/rtai/src/lock.c\<close>). The services
  of RTAI are arguments that act on the world, with \<open>None\<close> for a call that never returns; they
  return a code that is at least \<open>base\<close> (\<^verbatim>\<open>RTE_BASE\<close>) for errors, \<open>timeout\<close> (\<^verbatim>\<open>RTE_TIMOUT\<close>) among
  them. \<open>delay\<close> is \<^verbatim>\<open>URT_LOCK_STOP_MAX_DELAY\<close>, \<open>nano2count\<close> converts to RTAI's units.

  The lemmas show when a request that can be stopped returns and with which code, and how it
  differs from the POSIX back-end.
\<close>

section \<open>Requests that can be stopped\<close>

text \<open>\<^verbatim>\<open>while ((res = timed(nano2count(delay))) == RTE_TIMOUT) if (stop(data)) return ECANCELED;\<close>\<close>

partial_function (option) rt_stop_loop ::
    "int \<Rightarrow> 'w poll \<Rightarrow> ('w \<Rightarrow> int \<times> 'w) \<Rightarrow> 'w \<Rightarrow> (int option \<times> 'w) option" where
  "rt_stop_loop timeout stop timed w =
     (let r = timed w
      in if fst r = timeout
         then (let s = stop (snd r) in if fst s then Some (None, snd s) else rt_stop_loop timeout stop timed (snd s))
         else Some (Some (fst r), snd r))"

text \<open>The result codes of semaphores, and of the other locks.\<close>

definition rt_sem_code :: "int \<Rightarrow> int option \<Rightarrow> int" where
  "rt_sem_code base r = (case r of None \<Rightarrow> ECANCELED | Some res \<Rightarrow> if res \<ge> base then EINVAL else 0)"


definition rtai_sem_waitf ::
    "int \<Rightarrow> int \<Rightarrow> (int \<Rightarrow> int) \<Rightarrow> int \<Rightarrow> (int \<Rightarrow> 'w \<Rightarrow> int \<times> 'w) \<Rightarrow> 'w call \<Rightarrow> 'w poll option \<Rightarrow> 'w call" where
  "rtai_sem_waitf base timeout nano2count delay rt_sem_wait_timed rt_sem_wait stop w =
     (case stop of
        Some f \<Rightarrow> map_option (map_prod (rt_sem_code base) id) (rt_stop_loop timeout f (rt_sem_wait_timed (nano2count delay)) w)
      | None \<Rightarrow> map_option (map_prod (\<lambda>res. rt_sem_code base (Some res)) id) (rt_sem_wait w))"

definition rtai_mutex_lockf ::
    "int \<Rightarrow> int \<Rightarrow> (int \<Rightarrow> int) \<Rightarrow> int \<Rightarrow> (int \<Rightarrow> 'w \<Rightarrow> int \<times> 'w) \<Rightarrow> 'w call \<Rightarrow> 'w poll option \<Rightarrow> 'w call" where
  "rtai_mutex_lockf = rtai_sem_waitf"




section \<open>Timed requests, attempts and releases\<close>

definition rtai_sem_timed_wait ::
    "int \<Rightarrow> int \<Rightarrow> (int \<Rightarrow> int) \<Rightarrow> (int \<Rightarrow> 'w \<Rightarrow> int \<times> 'w) \<Rightarrow> int \<Rightarrow> 'w \<Rightarrow> int \<times> 'w" where
  "rtai_sem_timed_wait base timeout nano2count rt_sem_wait_timed max_wait w =
     (case rt_sem_wait_timed (nano2count max_wait) w of
        (res, w1) \<Rightarrow> (if res = timeout then ETIMEDOUT else if res \<ge> base then EINVAL else 0, w1))"

definition rtai_sem_try_wait :: "int \<Rightarrow> ('w \<Rightarrow> int \<times> 'w) \<Rightarrow> 'w \<Rightarrow> int \<times> 'w" where
  "rtai_sem_try_wait base rt_sem_wait_if w =
     (case rt_sem_wait_if w of (res, w1) \<Rightarrow> (if res \<le> 0 then EBUSY else if res \<ge> base then EINVAL else 0, w1))"

definition rtai_sem_post :: "int \<Rightarrow> ('w \<Rightarrow> int \<times> 'w) \<Rightarrow> 'w \<Rightarrow> int \<times> 'w" where
  "rtai_sem_post base rt_sem_signal w = (case rt_sem_signal w of (res, w1) \<Rightarrow> (if res \<ge> base then EINVAL else 0, w1))"

definition rtai_mutex_timed_lock ::
    "int \<Rightarrow> int \<Rightarrow> (int \<Rightarrow> int) \<Rightarrow> (int \<Rightarrow> 'w \<Rightarrow> int \<times> 'w) \<Rightarrow> int \<Rightarrow> 'w \<Rightarrow> int \<times> 'w" where
  "rtai_mutex_timed_lock = rtai_sem_timed_wait"

definition rtai_mutex_try_lock :: "int \<Rightarrow> ('w \<Rightarrow> int \<times> 'w) \<Rightarrow> 'w \<Rightarrow> int \<times> 'w" where
  "rtai_mutex_try_lock = rtai_sem_try_wait"

definition rtai_mutex_unlock :: "int \<Rightarrow> ('w \<Rightarrow> int \<times> 'w) \<Rightarrow> 'w \<Rightarrow> int \<times> 'w" where
  "rtai_mutex_unlock = rtai_sem_post"

definition rtai_rwlock_timed_read_lock ::
    "int \<Rightarrow> (int \<Rightarrow> int) \<Rightarrow> (int \<Rightarrow> 'w \<Rightarrow> int \<times> 'w) \<Rightarrow> int \<Rightarrow> 'w \<Rightarrow> int \<times> 'w" where
  "rtai_rwlock_timed_read_lock timeout nano2count rt_rwl_rdlock_timed max_wait w =
     (case rt_rwl_rdlock_timed (nano2count max_wait) w of
        (res, w1) \<Rightarrow> (if res = timeout then ETIMEDOUT else if res = 0 then 0 else EINVAL, w1))"

definition rtai_rwlock_timed_write_lock ::
    "int \<Rightarrow> (int \<Rightarrow> int) \<Rightarrow> (int \<Rightarrow> 'w \<Rightarrow> int \<times> 'w) \<Rightarrow> int \<Rightarrow> 'w \<Rightarrow> int \<times> 'w" where
  "rtai_rwlock_timed_write_lock timeout nano2count rt_rwl_wrlock_timed max_wait w =
     (case rt_rwl_wrlock_timed (nano2count max_wait) w of
        (res, w1) \<Rightarrow> (if res = timeout then ETIMEDOUT else if res = 0 then 0 else EINVAL, w1))"

definition rtai_rwlock_try_read_lock :: "('w \<Rightarrow> int \<times> 'w) \<Rightarrow> 'w \<Rightarrow> int \<times> 'w" where
  "rtai_rwlock_try_read_lock rt_rwl_rdlock_if w = (case rt_rwl_rdlock_if w of (res, w1) \<Rightarrow> (if res = 0 then 0 else EBUSY, w1))"

definition rtai_rwlock_try_write_lock :: "('w \<Rightarrow> int \<times> 'w) \<Rightarrow> 'w \<Rightarrow> int \<times> 'w" where
  "rtai_rwlock_try_write_lock rt_rwl_wrlock_if w = (case rt_rwl_wrlock_if w of (res, w1) \<Rightarrow> (if res = 0 then 0 else EBUSY, w1))"

definition rtai_rwlock_read_unlock :: "('w \<Rightarrow> int \<times> 'w) \<Rightarrow> 'w \<Rightarrow> int \<times> 'w" where
  "rtai_rwlock_read_unlock rt_rwl_unlock w = (case rt_rwl_unlock w of (res, w1) \<Rightarrow> (if res = 0 then 0 else EINVAL, w1))"

definition rtai_rwlock_write_unlock :: "('w \<Rightarrow> int \<times> 'w) \<Rightarrow> 'w \<Rightarrow> int \<times> 'w" where
  "rtai_rwlock_write_unlock rt_rwl_unlock w = (case rt_rwl_unlock w of (res, w1) \<Rightarrow> (if res = 0 then 0 else EINVAL, w1))"

definition rtai_cond_timed_wait ::
    "int \<Rightarrow> (int \<Rightarrow> int) \<Rightarrow> (int \<Rightarrow> 'w \<Rightarrow> int \<times> 'w) \<Rightarrow> int \<Rightarrow> 'w \<Rightarrow> int \<times> 'w" where
  "rtai_cond_timed_wait timeout nano2count rt_cond_wait_timed max_wait w =
     (case rt_cond_wait_timed (nano2count max_wait) w of
        (res, w1) \<Rightarrow> (if res = timeout then ETIMEDOUT else if res = 0 then 0 else EINVAL, w1))"

definition rtai_cond_signal :: "int \<Rightarrow> ('w \<Rightarrow> int \<times> 'w) \<Rightarrow> 'w \<Rightarrow> int \<times> 'w" where
  "rtai_cond_signal base rt_cond_signal w = (case rt_cond_signal w of (res, w1) \<Rightarrow> (if res \<ge> base then EINVAL else 0, w1))"

definition rtai_cond_broadcast :: "int \<Rightarrow> ('w \<Rightarrow> int \<times> 'w) \<Rightarrow> 'w \<Rightarrow> int \<times> 'w" where
  "rtai_cond_broadcast base rt_cond_broadcast w =
     (case rt_cond_broadcast w of (res, w1) \<Rightarrow> (if res \<ge> base then EINVAL else 0, w1))"

section \<open>When a stoppable request returns\<close>

text \<open>
  One execution of the loop: \<open>k\<close> counts the attempts that timed out without being stopped. The
  attempt comes first, the question whether to stop second.
\<close>

inductive rt_stop_exec ::
    "int \<Rightarrow> 'w poll \<Rightarrow> ('w \<Rightarrow> int \<times> 'w) \<Rightarrow> 'w \<Rightarrow> nat \<Rightarrow> int option \<Rightarrow> 'w \<Rightarrow> bool"
  for timeout stop timed where
  finished: "timed w = (r, w') \<Longrightarrow> r \<noteq> timeout \<Longrightarrow> rt_stop_exec timeout stop timed w 0 (Some r) w'"
| stopped: "timed w = (timeout, w1) \<Longrightarrow> stop w1 = (True, w') \<Longrightarrow> rt_stop_exec timeout stop timed w 0 None w'"
| timed_out: "timed w = (timeout, w1) \<Longrightarrow> stop w1 = (False, w2) \<Longrightarrow> rt_stop_exec timeout stop timed w2 k res w' \<Longrightarrow>
    rt_stop_exec timeout stop timed w (Suc k) res w'"

lemma rt_stop_exec_loop: "rt_stop_exec timeout stop timed w k res w' \<Longrightarrow> rt_stop_loop timeout stop timed w = Some (res, w')"
proof (induction rule: rt_stop_exec.induct)
  case (finished w r w')
  then show ?case by (simp add: rt_stop_loop.simps [of timeout stop timed w])
next
  case (stopped w w1 w')
  then show ?case by (simp add: rt_stop_loop.simps [of timeout stop timed w])
next
  case (timed_out w w1 w2 k res w')
  then show ?case by (simp add: rt_stop_loop.simps [of timeout stop timed w])
qed

lemma rt_stop_loop_exec:
  fixes stop :: "'w poll"
  assumes "rt_stop_loop timeout stop timed w = Some (res, w')"
  shows "\<exists>k. rt_stop_exec timeout stop timed w k res w'"
proof -
  have "\<exists>k. rt_stop_exec timeout stop timed w k (fst y) (snd y)"
    if "rt_stop_loop timeout stop timed w = Some y" for y
    using that
  proof (rule rt_stop_loop.raw_induct [where P = "\<lambda>timeout stop timed w y.
      \<exists>k. rt_stop_exec timeout stop timed w k (fst y) (snd y)", rotated])
    fix loop and timeout :: int and stop :: "'w poll" and timed :: "'w \<Rightarrow> int \<times> 'w" and w :: 'w and y
    assume IH: "\<And>timeout stop timed w y. loop timeout stop timed w = Some y \<Longrightarrow>
        \<exists>k. rt_stop_exec timeout stop timed w k (fst y) (snd y)"
      and run: "(let r = timed w
        in if fst r = timeout
           then (let s = stop (snd r) in if fst s then Some (None, snd s) else loop timeout stop timed (snd s))
           else Some (Some (fst r), snd r)) = Some y"
    obtain r w1 where tm: "timed w = (r, w1)" by fastforce
    obtain b w2 where st: "stop w1 = (b, w2)" by fastforce
    consider "r \<noteq> timeout" | "r = timeout" "b" | "r = timeout" "\<not> b" by blast
    then show "\<exists>k. rt_stop_exec timeout stop timed w k (fst y) (snd y)"
    proof cases
      case 1
      with run tm rt_stop_exec.finished [of timed w r w1 timeout stop] show ?thesis by auto
    next
      case 2
      with run tm st rt_stop_exec.stopped [of timed w timeout w1 stop w2] show ?thesis by auto
    next
      case 3
      with run tm st have "loop timeout stop timed w2 = Some y" by (simp add: Let_def)
      from IH [OF this] obtain k where "rt_stop_exec timeout stop timed w2 k (fst y) (snd y)" ..
      with 3 tm st rt_stop_exec.timed_out [of timed w timeout w1 stop w2 k "fst y" "snd y"] show ?thesis by auto
    qed
  qed
  from this [OF assms] show ?thesis by simp
qed

text \<open>The specification of a request, by the code that its result is turned into.\<close>

definition rt_stop_spec :: "(int option \<Rightarrow> int) \<Rightarrow> int \<Rightarrow> 'w poll \<Rightarrow> ('w \<Rightarrow> int \<times> 'w) \<Rightarrow> 'w \<Rightarrow> int \<Rightarrow> 'w \<Rightarrow> bool" where
  "rt_stop_spec code timeout stop timed w res w' \<longleftrightarrow>
     (\<exists>k r. res = code r \<and> rt_stop_exec timeout stop timed w k r w')"

locale rt_stoppable =
  fixes code :: "int option \<Rightarrow> int" and timeout :: int and timed :: "'w \<Rightarrow> int \<times> 'w" and lockf :: "'w poll option \<Rightarrow> 'w call"
  assumes lockf_loop: "lockf (Some stop) w = map_option (map_prod code id) (rt_stop_loop timeout stop timed w)"
begin

lemma lockf_returns_iff: "lockf (Some stop) w = Some (res, w') \<longleftrightarrow> rt_stop_spec code timeout stop timed w res w'"
proof -
  have "lockf (Some stop) w = Some (res, w') \<longleftrightarrow>
      (\<exists>r. res = code r \<and> rt_stop_loop timeout stop timed w = Some (r, w'))"
    unfolding lockf_loop by auto
  then show ?thesis unfolding rt_stop_spec_def using rt_stop_exec_loop rt_stop_loop_exec by metis
qed

text \<open>The first attempt is made before anybody asks whether to stop.\<close>

lemma available_first:
  assumes "timed w = (r, w1)" and "r \<noteq> timeout"
  shows "lockf (Some stop) w = Some (code (Some r), w1)"
  using assms by (simp add: lockf_loop rt_stop_loop.simps [of timeout stop timed w])

end

interpretation rt_sem: rt_stoppable "rt_sem_code base" timeout "timed (n2c delay)"
  "rtai_sem_waitf base timeout n2c delay timed block" for base timeout n2c delay timed block
  by unfold_locales (simp add: rtai_sem_waitf_def)




section \<open>Properties\<close>


text \<open>
  The back-ends differ on a stop flag that is already raised when the lock is available: POSIX
  cancels the request and leaves the lock alone, RTAI takes the lock and reports success.
\<close>

theorem backends_differ_on_raised_flag:
  assumes "\<And>w. fst (flag w) \<noteq> 0" and "timed (n2c delay) w = (0, w1)" and "timeout \<noteq> 0"
    and "urt_get_time_epoch clock w = (t, w2)" and "0 < base"
  shows "urt_mutex_lock (urt_mutex_lockf delay clock ptimed pblock) (Some flag) w = Some (ECANCELED, snd (flag w2)) \<and>
    urt_mutex_lock (rtai_mutex_lockf base timeout n2c delay timed block) (Some flag) w = Some (0, w1)"
proof -
  have stop: "fst (lock_stop flag w) = True" "snd (lock_stop flag w) = snd (flag w)" for w
    using assms(1) by (simp_all add: lock_stop_def case_prod_beta)
  have "rtai_sem_waitf base timeout n2c delay timed block (Some (lock_stop flag)) w = Some (rt_sem_code base (Some 0), w1)"
    by (rule rt_sem.available_first [where timed = timed and n2c = n2c]) (use assms(2,3) in simp_all)
  with assms(5) have "urt_mutex_lock (rtai_mutex_lockf base timeout n2c delay timed block) (Some flag) w = Some (0, w1)"
    by (simp add: urt_mutex_lock_def rtai_mutex_lockf_def rt_sem_code_def)
  moreover have "urt_mutex_lock (urt_mutex_lockf delay clock ptimed pblock) (Some flag) w = Some (ECANCELED, snd (flag w2))"
    using stop [of w2] assms(4)
    by (simp add: urt_mutex_lock_def urt_mutex_lockf_def stop_loop.simps [of delay "lock_stop flag"])
  ultimately show ?thesis by blast
qed

text \<open>The flag is raised and the lock is free.\<close>

definition free_lock :: trace where
  "free_lock = \<lparr>polls = [1], results = [0], deadlines = []\<rparr>"

theorem backends_differ_on_raised_flag_witness:
  "urt_mutex_lock (urt_mutex_lockf 1000 trace_clock trace_timed (\<lambda>w. None)) (Some (\<lambda>w. (1, w))) free_lock = Some (ECANCELED, free_lock) \<and>
   urt_mutex_lock (rtai_mutex_lockf 65527 65535 (\<lambda>t. t) 1000 (\<lambda>t w. (0, w\<lparr>results := []\<rparr>)) (\<lambda>w. None)) (Some (\<lambda>w. (1, w))) free_lock =
     Some (0, free_lock\<lparr>results := []\<rparr>)"
  using backends_differ_on_raised_flag [of "\<lambda>w. (1, w)" "\<lambda>t w. (0, w\<lparr>results := []\<rparr>)" "\<lambda>t. t" 1000 free_lock
      "free_lock\<lparr>results := []\<rparr>" 65535 trace_clock 5000000000 free_lock 65527 trace_timed "\<lambda>w. None" "\<lambda>w. None"]
  by (simp add: urt_get_time_epoch_def trace_clock_def)

end
