(* ===== verification/Rtai_Task.thy ===== *)
theory Rtai_Task
  imports Urt_Task
begin

text \<open>
  Tasks and time on RTAI (\<^verbatim>\<open>sys/rtai/src/task.c\<close>, \<^verbatim>\<open>sys/rtai/include/urt_sys_time.h\<close>,
  \<^verbatim>\<open>urt_sys_task.h\<close> and \<^verbatim>\<open>urt_sys_utils.h\<close>), in kernel space and in user space. The services of RTAI and of the kernel are
  arguments that act on the world; \<open>n2c\<close> and \<open>c2n\<close> convert between nanoseconds and RTAI's counts.

  The lemmas show that sleeping in the kernel never falls short for up to 49 days, and that a thread that entered
  the real-time kernel always leaves it.
\<close>

section \<open>Context and time\<close>

text \<open>
  A task of RTAI, as far as the code looks at it: \<open>is_hard\<close> and the execution time; in user space
  only whether there is one matters.
\<close>

record rt_task_info =
  is_hard :: int
  exectime :: int

definition rtai_is_rt_context :: "bool \<Rightarrow> rt_task_info option \<Rightarrow> bool" where
  "rtai_is_rt_context ker task =
     (if ker then (case task of None \<Rightarrow> False | Some t \<Rightarrow> is_hard t > 0) else task \<noteq> None)"

definition rtai_is_nonrt_context :: "bool \<Rightarrow> rt_task_info option \<Rightarrow> bool" where
  "rtai_is_nonrt_context ker task =
     (if ker then (case task of None \<Rightarrow> True | Some t \<Rightarrow> is_hard t \<le> 0) else task = None)"

definition rtai_get_time :: "int \<Rightarrow> ('w \<Rightarrow> int \<times> 'w) \<Rightarrow> 'w \<Rightarrow> int \<times> 'w" where
  "rtai_get_time urt_time_offset rt_get_time_ns w = (case rt_get_time_ns w of (t, w1) \<Rightarrow> (t + urt_time_offset, w1))"

definition rtai_get_exec_time :: "(int \<Rightarrow> int) \<Rightarrow> rt_task_info option \<Rightarrow> int" where
  "rtai_get_exec_time c2n task = (case task of None \<Rightarrow> 0 | Some t \<Rightarrow> c2n (exectime t))"

text \<open>
  Sleeping in the kernel outside of real-time context: which function is called with which
  argument. \<^verbatim>\<open>do_div\<close> divides a positive number; \<^verbatim>\<open>msleep\<close> takes an \<^verbatim>\<open>unsigned int\<close>.
\<close>

datatype kernel_delay = Udelay int | Usleep_range int int | Msleep int

definition kernel_sleep :: "int \<Rightarrow> kernel_delay option" where
  "kernel_sleep t =
     (if t \<le> 0 then None
      else (let us = (t + 999) div 1000 in
        if us < 10 then Some (Udelay us)
        else if us < 15000 then Some (Usleep_range us (us + us sdiv 64))
        else Some (Msleep ((us + 999) div 1000 mod 2 ^ 32))))"

text \<open>\<^verbatim>\<open>urt_sleep\<close>: \<open>delay\<close> carries the choice of the kernel out.\<close>

definition rtai_sleep ::
    "bool \<Rightarrow> rt_task_info option \<Rightarrow> (int \<Rightarrow> int) \<Rightarrow> (int \<Rightarrow> 'w \<Rightarrow> 'w) \<Rightarrow> (kernel_delay \<Rightarrow> 'w \<Rightarrow> 'w)
       \<Rightarrow> (int \<Rightarrow> 'w \<Rightarrow> 'w) \<Rightarrow> (int \<Rightarrow> 'w \<Rightarrow> 'w) \<Rightarrow> int \<Rightarrow> 'w \<Rightarrow> 'w" where
  "rtai_sleep ker task n2c rt_sleep delay sleep usleep t w =
     (if rtai_is_rt_context ker task then rt_sleep (n2c t) w
      else if ker then (case kernel_sleep t of None \<Rightarrow> w | Some d \<Rightarrow> delay d w)
      else (if t \<le> 0 then w
            else (let t' = (t + 999) sdiv 1000; ts = t' sdiv 1000000; tu = t' smod 1000000
                  in usleep tu (sleep (ts mod 2 ^ 32) w))))"

section \<open>Tasks\<close>

text \<open>\<open>'t\<close> is RTAI's task; in kernel space it is part of the structure.\<close>

record ('f, 'd, 't) rt_urt_task =
  rt_attr :: urt_task_attr
  rt_task :: "'t option"
  rt_tid :: u64
  rt_func :: 'f
  rt_data :: 'd

text \<open>The services that a task uses, over the world.\<close>

record ('t, 'w) rt_task_api =
  api_now :: "'w \<Rightarrow> int \<times> 'w"
  api_sleep :: "int \<Rightarrow> 'w \<Rightarrow> 'w"
  api_free_name :: "'w \<Rightarrow> (int \<times> string) \<times> 'w"
  api_init_schmod :: "string \<Rightarrow> int \<Rightarrow> u64 \<Rightarrow> 'w \<Rightarrow> 't option \<times> 'w"
  api_make_hard :: "'w \<Rightarrow> 'w"
  api_make_soft :: "'w \<Rightarrow> 'w"
  api_make_periodic :: "'t \<Rightarrow> int \<Rightarrow> int \<Rightarrow> 'w \<Rightarrow> int \<times> 'w"
  api_task_delete :: "'t option \<Rightarrow> 'w \<Rightarrow> 'w"
  api_join :: "u64 \<Rightarrow> 'w \<Rightarrow> 'w"
  api_mem_delete :: "'w \<Rightarrow> 'w"
  api_thread_create :: "u64 \<Rightarrow> 'w \<Rightarrow> (u64 + int) \<times> 'w"
  api_task_init :: "urt_task_attr \<Rightarrow> 'w \<Rightarrow> int \<times> 'w"
  api_resume :: "'w \<Rightarrow> int \<times> 'w"
  api_wait_period :: "'w \<Rightarrow> 'w"
  api_next_period :: "'w \<Rightarrow> int \<times> 'w"
  api_n2c :: "int \<Rightarrow> int"
  api_c2n :: "int \<Rightarrow> int"

text \<open>Align to the start time, or set it if it is not set.\<close>

definition rt_align_start ::
    "('t, 'w) rt_task_api \<Rightarrow> ('f, 'd, 't) rt_urt_task \<times> 'w \<Rightarrow> ('f, 'd, 't) rt_urt_task \<times> 'w" where
  "rt_align_start api s =
     (case s of (task, w) \<Rightarrow>
        (case api_now api w of (n, w1) \<Rightarrow>
           if start_time (rt_attr task) = 0 then (task\<lparr>rt_attr := (rt_attr task)\<lparr>start_time := n\<rparr>\<rparr>, w1)
           else (task, api_sleep api (start_time (rt_attr task) - n) w1)))"

definition rtai_kernel_task_wrapper ::
    "('t, 'w) rt_task_api \<Rightarrow> ('f \<Rightarrow> ('f, 'd, 't) rt_urt_task \<Rightarrow> 'd \<Rightarrow> 'w \<Rightarrow> 'w) \<Rightarrow> ('f, 'd, 't) rt_urt_task \<Rightarrow> 'w \<Rightarrow> 'w" where
  "rtai_kernel_task_wrapper api call task w =
     (case rt_align_start api (task, w) of (task, w1) \<Rightarrow> call (rt_func task) task (rt_data task) w1)"

definition rtai_task_wrapper ::
    "('t, 'w) rt_task_api \<Rightarrow> ('f \<Rightarrow> ('f, 'd, 't) rt_urt_task \<Rightarrow> 'd \<Rightarrow> 'w \<Rightarrow> 'w) \<Rightarrow> ('f, 'd, 't) rt_urt_task \<Rightarrow> 'w \<Rightarrow> 'w" where
  "rtai_task_wrapper api call task w =
     (let ((bad, name), w1) = api_free_name api w in
      if bad \<noteq> 0 then w1
      else (let (t, w2) = api_init_schmod api name (priority (rt_attr task)) (stack_size (rt_attr task)) w1;
                task = task\<lparr>rt_task := t\<rparr>
            in case t of None \<Rightarrow> w2
             | Some rt \<Rightarrow>
                 (let w3 = (if \<not> soft (rt_attr task) then api_make_hard api w2 else w2);
                      (task, w4) = rt_align_start api (task, w3);
                      (ret, w5) = (if period (rt_attr task) > 0
                        then api_make_periodic api rt (api_n2c api (start_time (rt_attr task))) (api_n2c api (period (rt_attr task))) w4
                        else (0, w4));
                      w6 = (if ret \<noteq> 0 then w5 else call (rt_func task) task (rt_data task) w5)
                  in api_task_delete api None (api_make_soft api w6))))"

text \<open>\<^verbatim>\<open>urt_task_start\<close> in kernel space and in user space; \<open>None\<close> is the NULL pointer.\<close>

definition rtai_kernel_task_start ::
    "('t, 'w) rt_task_api \<Rightarrow> 't \<Rightarrow> ('f, 'd, 't) rt_urt_task option \<Rightarrow> 'w \<Rightarrow> int \<times> ('f, 'd, 't) rt_urt_task option \<times> 'w" where
  "rtai_kernel_task_start api rt task w =
     (case task of None \<Rightarrow> (EINVAL, None, w)
      | Some task \<Rightarrow>
          (let (ret, w1) = api_task_init api (rt_attr task) w in
           if ret \<noteq> 0 then (\<bar>ret\<bar>, Some task, w1)
           else if period (rt_attr task) > 0
           then (let (task, w2) = (if start_time (rt_attr task) = 0
                       then (case api_now api w1 of (n, w2) \<Rightarrow> (task\<lparr>rt_attr := (rt_attr task)\<lparr>start_time := n\<rparr>\<rparr>, w2))
                       else (task, w1));
                     (ret, w3) = api_make_periodic api rt (api_n2c api (start_time (rt_attr task))) (api_n2c api (period (rt_attr task))) w2
                 in (\<bar>ret\<bar>, Some task, w3))
           else (case api_resume api w1 of (ret, w2) \<Rightarrow> (\<bar>ret\<bar>, Some task, w2))))"

definition rtai_task_start ::
    "('t, 'w) rt_task_api \<Rightarrow> ('f, 'd, 't) rt_urt_task option \<Rightarrow> 'w \<Rightarrow> int \<times> ('f, 'd, 't) rt_urt_task option \<times> 'w" where
  "rtai_task_start api task w =
     (case task of None \<Rightarrow> (EINVAL, None, w)
      | Some task \<Rightarrow>
          (case api_thread_create api (stack_size (rt_attr task)) w of
             (Inl thread, w1) \<Rightarrow> (0, Some (task\<lparr>rt_tid := thread\<rparr>), w1)
           | (Inr errno, w1) \<Rightarrow> (errno, Some (task\<lparr>rt_tid := 0\<rparr>), w1)))"

definition rtai_task_delete :: "bool \<Rightarrow> ('t, 'w) rt_task_api \<Rightarrow> ('f, 'd, 't) rt_urt_task option \<Rightarrow> 'w \<Rightarrow> 'w" where
  "rtai_task_delete ker api task w =
     api_mem_delete api (case task of None \<Rightarrow> w
       | Some task \<Rightarrow> if ker then api_task_delete api (rt_task task) w
                      else api_join api (rt_tid task) (api_task_delete api (rt_task task) w))"

definition rtai_task_wait_period :: "('t, 'w) rt_task_api \<Rightarrow> 'w \<Rightarrow> 'w" where
  "rtai_task_wait_period api w = api_wait_period api w"

definition rtai_task_next_period :: "('t, 'w) rt_task_api \<Rightarrow> 'w \<Rightarrow> int \<times> 'w" where
  "rtai_task_next_period api w = (case api_next_period api w of (c, w1) \<Rightarrow> (api_c2n api c, w1))"

definition rtai_task_period_time_left :: "('t, 'w) rt_task_api \<Rightarrow> 'w \<Rightarrow> int \<times> 'w" where
  "rtai_task_period_time_left api w =
     (case rtai_task_next_period api w of (t, w1) \<Rightarrow> (case api_now api w1 of (n, w2) \<Rightarrow> (t - n, w2)))"

section \<open>Lemmas\<close>

lemma rtai_contexts_exclusive: "rtai_is_rt_context ker task \<longleftrightarrow> \<not> rtai_is_nonrt_context ker task"
  by (auto simp: rtai_is_rt_context_def rtai_is_nonrt_context_def split: option.splits)

text \<open>The shortest time a choice of the kernel takes, in nanoseconds.\<close>

fun delay_ns :: "kernel_delay \<Rightarrow> int" where
  "delay_ns (Udelay us) = us * 1000"
| "delay_ns (Usleep_range us hi) = us * 1000"
| "delay_ns (Msleep ms) = ms * 1000000"

lemma kernel_sleep_None: "kernel_sleep t = None \<longleftrightarrow> t \<le> 0"
  by (simp add: kernel_sleep_def Let_def)

lemma kernel_sleep_duration:
  assumes "kernel_sleep t = Some d" and small: "t \<le> 4294967295 * 1000000"
  shows "t \<le> delay_ns d" and "delay_ns d < t + (case d of Msleep ms \<Rightarrow> 1001000 | _ \<Rightarrow> 1000)"
    and "d = Usleep_range a b \<Longrightarrow> 10 \<le> a \<and> a \<le> b \<and> 64 * (b - a) \<le> a"
proof -
  have t: "0 < t" using assms kernel_sleep_None [of t] by auto
  define us where "us = (t + 999) div 1000"
  have us: "t \<le> us * 1000" "us * 1000 < t + 1000" "0 < us" using t by (simp_all add: us_def)
  have d: "d = (if us < 10 then Udelay us else if us < 15000 then Usleep_range us (us + us div 64) else Msleep ((us + 999) div 1000))"
    using small assms t us(3) by (simp add: kernel_sleep_def Let_def us_def sdiv_smod_nonneg split: if_splits)
  show "t \<le> delay_ns d" and "delay_ns d < t + (case d of Msleep ms \<Rightarrow> 1001000 | _ \<Rightarrow> 1000)"
    using us by (auto simp: d)
  show "d = Usleep_range a b \<Longrightarrow> 10 \<le> a \<and> a \<le> b \<and> 64 * (b - a) \<le> a"
    using us by (auto simp: d split: if_splits)
qed

text \<open>
  In user space a thread that became a task of RTAI ends as an ordinary thread: whatever the name,
  the start time, the period and the user function do, the last two things are the return to
  ordinary scheduling and the deletion of the task; a thread that did not become one has called
  neither.
\<close>

lemma rtai_task_wrapper_leaves:
  assumes "api_free_name api w = ((bad, name), w1)"
    and "api_init_schmod api name (priority (rt_attr task)) (stack_size (rt_attr task)) w1 = (t, w2)"
  shows "bad \<noteq> 0 \<Longrightarrow> rtai_task_wrapper api call task w = w1"
    and "bad = 0 \<Longrightarrow> t = None \<Longrightarrow> rtai_task_wrapper api call task w = w2"
    and "bad = 0 \<Longrightarrow> t \<noteq> None \<Longrightarrow> \<exists>w6. rtai_task_wrapper api call task w = api_task_delete api None (api_make_soft api w6)"
  using assms by (auto simp: rtai_task_wrapper_def Let_def case_prod_beta)

end
