(* ===== verification/Rtai_Setup.thy ===== *)
theory Rtai_Setup
  imports Rtai_Objects Urt_Setup
begin

text \<open>
  The library on two spaces: the RTAI back-end runs in the kernel, as the module of
  \<^verbatim>\<open>src/kern_main.c\<close> and in other modules, and in user-space processes. They share the registry and
  the global semaphore. The semaphore belongs to the kernel; user space reaches it by writing
  one-character commands to a file (\<^verbatim>\<open>src/lock_common.c\<close>, \<^verbatim>\<open>_lock_op\<close>). \<open>ker\<close> tells on which
  side the code was compiled.

  The lemmas show that the commands amount to the operations on the semaphore, what happens when
  a wait is interrupted, and what is left after \<^verbatim>\<open>urt_exit\<close>.
\<close>

section \<open>The global semaphore\<close>

text \<open>
  What a process keeps: the pointer to the registry, whether the command file is open, and the
  mutex \<^verbatim>\<open>sysfs_lock\<close> that keeps its threads from using the file at the same time.
\<close>

record 'a rt_proc =
  rt_global_mem :: "'a option"
  sysfs_open :: bool
  sysfs_lock :: bool

type_synonym ('a, 'k) rt_state = "'a rt_proc \<times> ('a, 'k) rt_global"

text \<open>\<open>errno\<close> is the error of \<^verbatim>\<open>open\<close>, 0 if it succeeds.\<close>

definition bi_global_sem_get :: "bool \<Rightarrow> int \<Rightarrow> 'a rt_proc \<Rightarrow> int \<times> 'a rt_proc" where
  "bi_global_sem_get ker errno p =
     (if ker then (0, p)
      else (let p1 = p\<lparr>sysfs_open := (errno = 0)\<rparr> in (if sysfs_open p1 then 0 else errno, p1)))"

definition bi_global_sem_free :: "bool \<Rightarrow> 'a rt_proc \<Rightarrow> 'a rt_proc" where
  "bi_global_sem_free ker p = (if ker then p else p\<lparr>sysfs_open := False\<rparr>)"

text \<open>
  In the kernel: \<open>intr\<close> tells whether a signal interrupts \<^verbatim>\<open>down_interruptible\<close>, which is only
  reported in the log.
\<close>

definition kernel_sem_wait :: "bool \<Rightarrow> 'os urt_global \<Rightarrow> 'os urt_global option" where
  "kernel_sem_wait intr w = (if intr then Some w else urt_global_sem_wait w)"

text \<open>The commands.\<close>

definition URT_GLOBAL_SEM_WAIT :: char where
  "URT_GLOBAL_SEM_WAIT = CHR ''0''"

definition URT_GLOBAL_SEM_TRY_WAIT :: char where
  "URT_GLOBAL_SEM_TRY_WAIT = CHR ''1''"

definition URT_GLOBAL_SEM_POST :: char where
  "URT_GLOBAL_SEM_POST = CHR ''2''"

lemma global_sem_commands [simp]:
  "URT_GLOBAL_SEM_TRY_WAIT \<noteq> URT_GLOBAL_SEM_WAIT" "URT_GLOBAL_SEM_POST \<noteq> URT_GLOBAL_SEM_WAIT" "URT_GLOBAL_SEM_POST \<noteq> URT_GLOBAL_SEM_TRY_WAIT"
  by (simp_all add: URT_GLOBAL_SEM_WAIT_def URT_GLOBAL_SEM_TRY_WAIT_def URT_GLOBAL_SEM_POST_def)

definition lock_op :: "bool \<Rightarrow> char \<Rightarrow> 'os urt_global \<Rightarrow> 'os urt_global option" where
  "lock_op intr c w =
     (if c = URT_GLOBAL_SEM_WAIT then kernel_sem_wait intr w
      else if c = URT_GLOBAL_SEM_TRY_WAIT then Some (urt_global_sem_try_wait w)
      else if c = URT_GLOBAL_SEM_POST then Some (urt_global_sem_post w)
      else Some w)"

text \<open>Writing to the file when it is not open fails, which is only reported.\<close>

definition sysfs_write :: "bool \<Rightarrow> char \<Rightarrow> ('a, 'k) rt_state \<Rightarrow> ('a, 'k) rt_state option" where
  "sysfs_write intr c s =
     (case s of (p, w) \<Rightarrow> if sysfs_open p then map_option (Pair p) (lock_op intr c w) else Some (p, w))"

definition bi_global_sem_wait :: "bool \<Rightarrow> bool \<Rightarrow> ('a, 'k) rt_state \<Rightarrow> ('a, 'k) rt_state option" where
  "bi_global_sem_wait ker intr s =
     (case s of (p, w) \<Rightarrow>
        if ker then map_option (Pair p) (kernel_sem_wait intr w)
        else if sysfs_lock p then None
        else sysfs_write intr URT_GLOBAL_SEM_WAIT (p\<lparr>sysfs_lock := True\<rparr>, w))"


definition bi_global_sem_post :: "bool \<Rightarrow> ('a, 'k) rt_state \<Rightarrow> ('a, 'k) rt_state option" where
  "bi_global_sem_post ker s =
     (case s of (p, w) \<Rightarrow>
        if ker then Some (p, urt_global_sem_post w)
        else do { (p1, w1) \<leftarrow> sysfs_write False URT_GLOBAL_SEM_POST (p, w); Some (p1\<lparr>sysfs_lock := False\<rparr>, w1) })"

section \<open>Set-up and shut-down\<close>

text \<open>
  \<^verbatim>\<open>urt_sys_init\<close>: the services that prepare the real-time kernel are arguments; \<open>start\<close> stands
  for \<^verbatim>\<open>rt_set_oneshot_mode\<close> and \<^verbatim>\<open>start_rt_timer\<close>.
\<close>

definition rtai_sys_init :: "bool \<Rightarrow> ('k \<Rightarrow> 'k) \<Rightarrow> ('k \<Rightarrow> bool) \<Rightarrow> ('k \<Rightarrow> 'k) \<Rightarrow> ('k \<Rightarrow> 'k) \<Rightarrow> 'k \<Rightarrow> int \<times> 'k" where
  "rtai_sys_init ker allow_nonroot running start mlockall k =
     (let k1 = (if ker then k else allow_nonroot k);
          k2 = (if \<not> running k1 then start k1 else k1);
          k3 = (if ker then k2 else mlockall k2)
      in (0, k3))"

text \<open>\<open>prepare\<close> is \<^verbatim>\<open>urt_sys_init\<close> with its services.\<close>

definition rtai_urt_init ::
    "('a, 'k) rtai \<Rightarrow> ('k \<Rightarrow> int \<times> 'k) \<Rightarrow> bool \<Rightarrow> int \<Rightarrow> bool \<Rightarrow> u64 \<Rightarrow> u64 \<Rightarrow> ('a, 'k) rt_state \<Rightarrow> (int \<times> ('a, 'k) rt_state) option" where
  "rtai_urt_init rt prepare ker errno intr si so s =
     (case s of (p, w) \<Rightarrow>
        let (error, k) = prepare (rt_kernel (gos w)); w = w\<lparr>gos := (gos w)\<lparr>rt_kernel := k\<rparr>\<rparr> in
        if error \<noteq> 0 then Some (error, p, w)
        else if rt_global_mem p \<noteq> None then Some (if ker then 0 else EALREADY, p, w)
        else (let (error, p) = bi_global_sem_get ker errno p in
          if error \<noteq> 0 then Some (error, p, w)
          else do {
            (p, w) \<leftarrow> bi_global_sem_wait ker intr (p, w);
            let missing = (rt_get_adr rt (nam2num rt URT_GLOBAL_MEM_NAME) (rt_kernel (gos w)) = None);
            (case rtai_global_mem_get rt URT_GLOBAL_MEM_NAME si (gos w) of
               (Inl e, os1) \<Rightarrow> do { s1 \<leftarrow> bi_global_sem_post ker (p\<lparr>rt_global_mem := None\<rparr>, w\<lparr>gos := os1\<rparr>); Some (e, s1) }
             | (Inr mem, os1) \<Rightarrow>
                 (let g = (if missing then zero_memory (URT_MAX_OBJECTS (gmem w)) else gmem w);
                      (bad, g1) = urt_registry_init si so g;
                      s1 = (p\<lparr>rt_global_mem := Some (fst mem)\<rparr>, w\<lparr>gos := os1, gmem := g1\<rparr>)
                  in do { s2 \<leftarrow> bi_global_sem_post ker s1; Some (if bad \<noteq> 0 then EBUSY else 0, s2) }))}))"

text \<open>\<^verbatim>\<open>urt_global_mem_free\<close> of this back-end does not touch the pointer.\<close>

definition rtai_urt_exit :: "('a, 'k) rtai \<Rightarrow> bool \<Rightarrow> ('a, 'k) rt_state \<Rightarrow> ('a, 'k) rt_state" where
  "rtai_urt_exit rt ker s =
     (case s of (p, w) \<Rightarrow>
        if rt_global_mem p = None then (p, w)
        else if ker then (p, w)
        else (bi_global_sem_free ker p, w\<lparr>gos := rtai_global_mem_free rt URT_GLOBAL_MEM_NAME (gos w)\<rparr>))"

text \<open>The kernel module. \<open>init\<close> is \<^verbatim>\<open>urt_init\<close>; \<open>sysfs\<close> creates the files, failures of which are only reported.\<close>

definition urt_main_init ::
    "(('a, 'k) rt_state \<Rightarrow> (int \<times> ('a, 'k) rt_state) option) \<Rightarrow> ('a, 'k) rtai \<Rightarrow> (('a, 'k) rt_state \<Rightarrow> ('a, 'k) rt_state)
       \<Rightarrow> ('a, 'k) rt_state \<Rightarrow> (int \<times> ('a, 'k) rt_state) option" where
  "urt_main_init init rt sysfs s = do {
     (ret, s1) \<leftarrow> init (fst s, (snd s)\<lparr>gsem := 1\<rparr>);
     if ret \<noteq> 0 \<and> ret \<noteq> EALREADY then Some (- ENOMEM, rtai_urt_exit rt True s1)
     else Some (0, sysfs s1)}"

definition urt_main_exit :: "('a, 'k) rtai \<Rightarrow> (('a, 'k) rt_state \<Rightarrow> ('a, 'k) rt_state) \<Rightarrow> ('a, 'k) rt_state \<Rightarrow> ('a, 'k) rt_state" where
  "urt_main_exit rt kobject_put s =
     (let (p, w) = rtai_urt_exit rt True (kobject_put s)
      in if rt_global_mem p \<noteq> None then (p, w\<lparr>gos := rtai_global_mem_free rt URT_GLOBAL_MEM_NAME (gos w)\<rparr>) else (p, w))"

section \<open>The semaphore seen from both spaces\<close>

lemma sysfs_commands:
  assumes "sysfs_open p"
  shows "sysfs_write False URT_GLOBAL_SEM_WAIT (p, w) = map_option (Pair p) (urt_global_sem_wait w)"
    and "sysfs_write intr URT_GLOBAL_SEM_TRY_WAIT (p, w) = Some (p, urt_global_sem_try_wait w)"
    and "sysfs_write intr URT_GLOBAL_SEM_POST (p, w) = Some (p, urt_global_sem_post w)"
  using assms by (simp_all add: sysfs_write_def lock_op_def kernel_sem_wait_def)

lemma bi_wait_user:
  "sysfs_open p \<Longrightarrow> \<not> sysfs_lock p \<Longrightarrow>
   bi_global_sem_wait False False (p, w) = map_option (Pair (p\<lparr>sysfs_lock := True\<rparr>)) (urt_global_sem_wait w)"
  by (simp add: bi_global_sem_wait_def sysfs_commands)

lemma bi_post_user:
  "sysfs_open p \<Longrightarrow> bi_global_sem_post False (p, w) = Some (p\<lparr>sysfs_lock := False\<rparr>, urt_global_sem_post w)"
  by (simp add: bi_global_sem_post_def sysfs_commands)



section \<open>Set-up and shut-down on RTAI\<close>

text \<open>The registry that a process or module finds.\<close>

definition rtai_found_registry :: "('a, 'k) rtai \<Rightarrow> u64 \<Rightarrow> u64 \<Rightarrow> ('a, 'k) rt_global \<Rightarrow> int \<times> urt_internal" where
  "rtai_found_registry rt si so w =
     urt_registry_init si so (if rt_get_adr rt (nam2num rt URT_GLOBAL_MEM_NAME) (rt_kernel (gos w)) = None
       then zero_memory (URT_MAX_OBJECTS (gmem w)) else gmem w)"

lemma rtai_urt_init_run:
  assumes "rt_global_mem p = None" and "prepare (rt_kernel (gos w)) = (0, rt_kernel (gos w))"
    and "ker \<or> errno = 0 \<and> \<not> sysfs_lock p" and "0 < gsem w"
    and "rtai_global_mem_get rt URT_GLOBAL_MEM_NAME si (gos w) = (Inr mem, os1)"
  shows "rtai_urt_init rt prepare ker errno False si so (p, w) =
    Some (if fst (rtai_found_registry rt si so w) \<noteq> 0 then EBUSY else 0,
      p\<lparr>rt_global_mem := Some (fst mem), sysfs_open := (if ker then sysfs_open p else True),
        sysfs_lock := (if ker then sysfs_lock p else False)\<rparr>,
      w\<lparr>gos := os1, gmem := snd (rtai_found_registry rt si so w)\<rparr>)"
proof (cases ker)
  case True
  then show ?thesis
    using assms
    by (simp add: rtai_urt_init_def Let_def bi_global_sem_get_def bi_global_sem_wait_def bi_global_sem_post_def kernel_sem_wait_def
        urt_global_sem_wait_def urt_global_sem_post_def rtai_found_registry_def case_prod_beta)
next
  case False
  with assms show ?thesis
    by (simp add: rtai_urt_init_def Let_def bi_global_sem_get_def bi_wait_user bi_post_user
        urt_global_sem_wait_def urt_global_sem_post_def rtai_found_registry_def case_prod_beta)
qed

lemma rtai_init_sets_pointer:
  assumes "rt_global_mem p = None" and "\<And>k. prepare k = (0, k)" and "errno = 0" and "\<not> sysfs_lock p" and "0 < gsem w"
    and "rtai_urt_init rt prepare False errno False si so (p, w) = Some (0, s1)"
  shows "rt_global_mem (fst s1) \<noteq> None"
proof -
  obtain r os1 where get: "rtai_global_mem_get rt URT_GLOBAL_MEM_NAME si (gos w) = (r, os1)" by fastforce
  obtain mem where r: "r = Inr mem"
  proof (cases r)
    case (Inl e)
    have "e = ENOMEM" using get Inl by (auto simp: rtai_global_mem_get_def split: option.splits prod.splits)
    with Inl assms get have False
      by (simp add: rtai_urt_init_def Let_def bi_global_sem_get_def bi_wait_user bi_post_user
          urt_global_sem_wait_def case_prod_beta)
    then show ?thesis ..
  qed
  show ?thesis
    using rtai_urt_init_run [of p prepare w False errno rt si mem os1 so] assms get r
    by (auto split: if_splits)
qed

text \<open>
  C37: After \<^verbatim>\<open>urt_exit\<close> in user space the pointer to the registry still points to the memory that
  was given up: a process cannot set the library up again (the error is \<^verbatim>\<open>EALREADY\<close>), and a second
  \<^verbatim>\<open>urt_exit\<close> gives the same memory up twice.
\<close>

theorem rtai_exit_leaves_pointer:
  assumes "rt_global_mem p = None" and "\<And>k. prepare k = (0, k)" and "errno = 0" and "\<not> sysfs_lock p" and "0 < gsem w"
    and "rtai_urt_init rt prepare False errno False si so (p, w) = Some (0, s1)"
  shows "rt_global_mem (fst (rtai_urt_exit rt False s1)) \<noteq> None \<and>
    rtai_urt_init rt prepare False errno False si so (rtai_urt_exit rt False s1) = Some (EALREADY, rtai_urt_exit rt False s1) \<and>
    rt_kernel (gos (snd (rtai_urt_exit rt False (rtai_urt_exit rt False s1)))) =
      rt_shm_free rt (nam2num rt URT_GLOBAL_MEM_NAME) (rt_shm_free rt (nam2num rt URT_GLOBAL_MEM_NAME) (rt_kernel (gos (snd s1))))"
proof -
  obtain p1 w1 where s1: "s1 = (p1, w1)" by fastforce
  have "rt_global_mem p1 \<noteq> None" using rtai_init_sets_pointer [OF assms] s1 by simp
  then show ?thesis
    by (auto simp: s1 rtai_urt_exit_def bi_global_sem_free_def rtai_global_mem_free_def rtai_urt_init_def assms(2) Let_def)
qed

text \<open>
  Loading the kernel module. If RTAI provides the memory, the module comes up with the
  semaphore free and a consistent registry, unless the memory holds a registry of different
  layout; then loading fails with \<^verbatim>\<open>-ENOMEM\<close>. Unloading gives the memory up once.
\<close>

theorem module_load:
  assumes "rt_global_mem p = None" and "\<And>k. prepare k = (0, k)" and "0 < URT_MAX_OBJECTS (gmem w)"
    and "rtai_global_mem_get rt URT_GLOBAL_MEM_NAME si (gos w) = (Inr mem, os1)"
    and "initialized (gmem w) \<Longrightarrow> registry_inv (gmem w)" and "\<And>s. sysfs s = s" and "\<And>s. put s = s"
  shows "\<exists>ret s1. urt_main_init (rtai_urt_init rt prepare True 0 False si so) rt sysfs (p, w) = Some (ret, s1) \<and>
    gsem (snd s1) = 1 \<and> registry_inv (gmem (snd s1)) \<and> (ret = 0 \<or> ret = - ENOMEM) \<and>
    (ret = 0 \<longleftrightarrow> fst (rtai_found_registry rt si so w) = 0) \<and>
    rt_kernel (gos (snd (urt_main_exit rt put s1))) = rt_shm_free rt (nam2num rt URT_GLOBAL_MEM_NAME) (rt_kernel os1)"
proof -
  let ?w = "w\<lparr>gsem := 1\<rparr>"
  have "registry_inv (snd (rtai_found_registry rt si so ?w))"
    unfolding rtai_found_registry_def by (intro registry_inv_init) (use assms(3,5) in \<open>auto simp: zero_memory_def split: if_splits\<close>)
  moreover have "rtai_found_registry rt si so ?w = rtai_found_registry rt si so w" by (simp add: rtai_found_registry_def)
  ultimately show ?thesis
    using rtai_urt_init_run [of p prepare ?w True 0 rt si mem os1 so] assms
    by (simp add: urt_main_init_def urt_main_exit_def rtai_urt_exit_def rtai_global_mem_free_def Let_def)
qed

section \<open>Examples\<close>

definition demo_rt_proc :: "u64 rt_proc" where
  "demo_rt_proc = \<lparr>rt_global_mem = None, sysfs_open = True, sysfs_lock = False\<rparr>"



lemma demo_mem_get:
  "\<exists>mem os1. rtai_global_mem_get demo_rtai URT_GLOBAL_MEM_NAME 96 (gos demo_rt_empty) = (Inr mem, os1)"
  by (simp add: rtai_global_mem_get_def demo_rtai_def demo_named_def)

lemma demo_found: "fst (rtai_found_registry demo_rtai 96 32 demo_rt_empty) = 0"
  by (simp add: rtai_found_registry_def demo_rtai_def demo_rt_empty_def zero_memory_def urt_registry_init_def)

theorem rtai_exit_leaves_pointer_witness:
  "\<exists>s1. rtai_urt_init demo_rtai (Pair 0) False 0 False 96 32 (demo_rt_proc, demo_rt_empty) = Some (0, s1) \<and>
     rtai_urt_init demo_rtai (Pair 0) False 0 False 96 32 (rtai_urt_exit demo_rtai False s1) = Some (EALREADY, rtai_urt_exit demo_rtai False s1)"
proof -
  obtain mem os1 where get: "rtai_global_mem_get demo_rtai URT_GLOBAL_MEM_NAME 96 (gos demo_rt_empty) = (Inr mem, os1)"
    using demo_mem_get by blast
  obtain s1 where run: "rtai_urt_init demo_rtai (Pair 0) False 0 False 96 32 (demo_rt_proc, demo_rt_empty) = Some (0, s1)"
    using rtai_urt_init_run [of demo_rt_proc "Pair 0" demo_rt_empty False 0 demo_rtai 96 mem os1 32] get demo_found demo_rt_empty_ok
    by (simp add: demo_rt_proc_def)
  with rtai_exit_leaves_pointer [OF _ _ refl _ demo_rt_empty_ok(2) run] show ?thesis by (simp add: demo_rt_proc_def)
qed

theorem module_load_witness:
  "\<exists>s1. urt_main_init (rtai_urt_init demo_rtai (Pair 0) True 0 False 96 32) demo_rtai (\<lambda>s. s) (demo_rt_proc, demo_rt_empty) = Some (0, s1) \<and>
     gsem (snd s1) = 1 \<and> registry_inv (gmem (snd s1))"
proof -
  obtain mem os1 where get: "rtai_global_mem_get demo_rtai URT_GLOBAL_MEM_NAME 96 (gos demo_rt_empty) = (Inr mem, os1)"
    using demo_mem_get by blast
  have "0 < URT_MAX_OBJECTS (gmem demo_rt_empty)"
    using registry_invD(1) [OF demo_rt_empty_ok(1)] by (rule le_less_trans [OF le0])
  with module_load [of demo_rt_proc "Pair 0" demo_rt_empty demo_rtai 96 mem os1 "\<lambda>s. s" "\<lambda>s. s" 32] get demo_found demo_rt_empty_ok
  show ?thesis by (auto simp: demo_rt_proc_def)
qed

end
