(* ===== verification/Urt_Clock.thy ===== *)
theory Urt_Clock
  imports Rtai_Setup Rtai_Task Urt_Param
begin

text \<open>
  The time of kernel and user space. The kernel module publishes its time in a file (\<^verbatim>\<open>_current_time\<close>
  of \<^verbatim>\<open>src/kern_main.c\<close>); \<^verbatim>\<open>urt_init\<close> of a user-space process first compares it with the time of
  the process and keeps the difference in \<^verbatim>\<open>urt_time_offset\<close> (\<^verbatim>\<open>src/setup_common.c\<close>), which
  \<^verbatim>\<open>urt_get_time\<close> adds to what the clock says. Times are 64-bit numbers of nanoseconds in the code and integers here.

  The lemmas show that a time that was written is read back, that calibration keeps the worst of
  its samples, and that setting up a second time loses the offset.
\<close>

section \<open>Definitions\<close>

definition current_time :: "int \<Rightarrow> string" where
  "current_time t = dec_int t @ [CHR 0x0A]"

text \<open>\<^verbatim>\<open>fscanf(tin, "%lld", &kernel)\<close>: \<open>None\<close> if there is no number.\<close>

definition scan_lld :: "string \<Rightarrow> int option" where
  "scan_lld s =
     (let s1 = dropWhile isspace s;
          s2 = (if s1 \<noteq> [] \<and> (hd s1 = CHR ''-'' \<or> hd s1 = CHR ''+'') then tl s1 else s1)
      in if s2 = [] \<or> \<not> isdigit (hd s2) then None
         else (case read_number s of (neg, n) \<Rightarrow> Some (if neg then - int n else int n)))"

text \<open>\<open>sysfile\<close> opens the file and gives its contents, or \<open>None\<close>.\<close>

definition read_time :: "('w \<Rightarrow> string option \<times> 'w) \<Rightarrow> 'w \<Rightarrow> int option option \<times> 'w" where
  "read_time sysfile w = (case sysfile w of (None, w1) \<Rightarrow> (None, w1) | (Some contents, w1) \<Rightarrow> (Some (scan_lld contents), w1))"

text \<open>\<^verbatim>\<open>_calibrate\<close> with its variable: the process's time already has the present offset in it.\<close>

definition recalibrate :: "('w \<Rightarrow> string option \<times> 'w) \<Rightarrow> ('w \<Rightarrow> int \<times> 'w) \<Rightarrow> int \<times> 'w \<Rightarrow> int \<times> 'w" where
  "recalibrate sysfile clock s =
     (case s of (urt_time_offset, w) \<Rightarrow> calibrate (read_time sysfile) (rtai_get_time urt_time_offset clock) w)"

text \<open>The beginning of \<^verbatim>\<open>urt_init\<close>; \<open>rest\<close> is what follows the calibration.\<close>

definition calibrated_init ::
    "('w \<Rightarrow> string option \<times> 'w) \<Rightarrow> ('w \<Rightarrow> int \<times> 'w) \<Rightarrow> ('s \<Rightarrow> (int \<times> 's) option) \<Rightarrow> (int \<times> 'w) \<times> 's \<Rightarrow> (int \<times> (int \<times> 'w) \<times> 's) option" where
  "calibrated_init sysfile clock rest s =
     (case s of (c, s) \<Rightarrow> let c = recalibrate sysfile clock c in do { (error, s) \<leftarrow> rest s; Some (error, c, s) })"

section \<open>Lemmas\<close>

lemma scan_current_time: "scan_lld (current_time t) = Some t"
proof -
  have r: "read_number (current_time t) = (t < 0, nat \<bar>t\<bar>)"
    unfolding current_time_def by (rule read_number_dec) (simp add: isdigit_def)
  obtain c cs where d: "dec_nat (nat \<bar>t\<bar>) = c # cs" by (cases "dec_nat (nat \<bar>t\<bar>)") auto
  with dec_nat_chars [of "nat \<bar>t\<bar>"] have c: "isdigit c" "\<not> isspace c" "c \<noteq> CHR ''-''" "c \<noteq> CHR ''+''" by simp_all
  have sp: "\<not> isspace CHR ''-''" by code_simp
  show ?thesis
  proof (cases "t < 0")
    case True
    with d have "current_time t = CHR ''-'' # c # cs @ [CHR 0x0A]" by (simp add: current_time_def dec_int_def)
    with r True c(1) sp show ?thesis by (simp add: scan_lld_def)
  next
    case False
    with d have "current_time t = c # cs @ [CHR 0x0A]" by (simp add: current_time_def dec_int_def)
    with r False c show ?thesis by (simp add: scan_lld_def)
  qed
qed

text \<open>The loop, when every reading succeeds: it keeps the smallest of the differences.\<close>

lemma calibrate_loop_Min:
  assumes "\<And>w. kern w = (Some (Some (kt w)), a w)" and "\<And>w. now w = (ut w, b w)"
  shows "calibrate_loop n kern now (False, off) w =
    (Min (insert off ((\<lambda>i. kt (((b \<circ> a) ^^ i) w) - ut (a (((b \<circ> a) ^^ i) w))) ` {..<n})), ((b \<circ> a) ^^ n) w)"
proof (induction n arbitrary: off w)
  case (Suc n)
  let ?f = "\<lambda>w i. kt (((b \<circ> a) ^^ i) w) - ut (a (((b \<circ> a) ^^ i) w))"
  have shift: "((b \<circ> a) ^^ Suc i) w = ((b \<circ> a) ^^ i) (b (a w))" for i by (simp add: funpow_swap1)
  have im: "?f w ` {..<Suc n} = insert (kt w - ut (a w)) (?f (b (a w)) ` {..<n})"
    unfolding lessThan_Suc_eq_insert_0 image_insert image_image shift by simp
  have "insert off (?f w ` {..<Suc n}) = insert off (insert (kt w - ut (a w)) (?f (b (a w)) ` {..<n}))" using im by simp
  moreover have "Min (insert off (insert d S)) = Min (insert (if d < off then d else off) S)" if "finite S" for d and S :: "int set"
    using that by (cases "S = {}") (auto simp: min_def)
  ultimately have m: "Min (insert (if kt w - ut (a w) < off then kt w - ut (a w) else off) (?f (b (a w)) ` {..<n}))
      = Min (insert off (?f w ` {..<Suc n}))" by simp
  have "calibrate_loop (Suc n) kern now (False, off) w =
      calibrate_loop n kern now (False, if kt w - ut (a w) < off then kt w - ut (a w) else off) (b (a w))"
    by (simp add: assms Let_def)
  also have "\<dots> = (Min (insert off (?f w ` {..<Suc n})), ((b \<circ> a) ^^ Suc n) w)" unfolding Suc.IH m shift ..
  finally show ?case .
qed simp

lemma calibrate_Min:
  assumes "\<And>w. kern w = (Some (Some (kt w)), a w)" and "\<And>w. now w = (ut w, b w)"
  shows "fst (calibrate kern now w) = Min ((\<lambda>i. kt (((b \<circ> a) ^^ i) w) - ut (a (((b \<circ> a) ^^ i) w))) ` {..<10})"
proof -
  let ?f = "\<lambda>w i. kt (((b \<circ> a) ^^ i) w) - ut (a (((b \<circ> a) ^^ i) w))"
  have shift: "((b \<circ> a) ^^ Suc i) w = ((b \<circ> a) ^^ i) (b (a w))" for i by (simp add: funpow_swap1)
  have "?f w ` {..<Suc 9} = insert (kt w - ut (a w)) (?f (b (a w)) ` {..<9})"
    unfolding lessThan_Suc_eq_insert_0 image_insert image_image shift by simp
  moreover have "calibrate kern now w = calibrate_loop 9 kern now (False, kt w - ut (a w)) (b (a w))"
    unfolding calibrate_def using assms by (simp add: eval_nat_numeral(2) [of "num.One"] numeral_eq_Suc Let_def)
  ultimately show ?thesis using calibrate_loop_Min [where kt = kt and ut = ut, OF assms] by simp
qed

section \<open>Two clocks\<close>

text \<open>
  \<open>time w\<close> is the kernel's time in the world \<open>w\<close>. A sample takes the time from the reading of the
  kernel's clock to the reading of the own one.
\<close>

definition sample_delay :: "('w \<Rightarrow> string option \<times> 'w) \<Rightarrow> ('w \<Rightarrow> int) \<Rightarrow> 'w \<Rightarrow> int" where
  "sample_delay sysfile time w = time (snd (sysfile w)) - time w"

definition after_sample :: "('w \<Rightarrow> string option \<times> 'w) \<Rightarrow> ('w \<Rightarrow> int \<times> 'w) \<Rightarrow> 'w \<Rightarrow> 'w" where
  "after_sample sysfile clock w = snd (clock (snd (sysfile w)))"

text \<open>The largest delay of the ten samples.\<close>

definition worst_delay :: "('w \<Rightarrow> string option \<times> 'w) \<Rightarrow> ('w \<Rightarrow> int \<times> 'w) \<Rightarrow> ('w \<Rightarrow> int) \<Rightarrow> 'w \<Rightarrow> int" where
  "worst_delay sysfile clock time w = Max ((\<lambda>i. sample_delay sysfile time ((after_sample sysfile clock ^^ i) w)) ` {..<10})"

lemma Min_diff:
  fixes c :: int
  assumes "finite S" and "S \<noteq> {}"
  shows "Min ((\<lambda>i. c - f i) ` S) = c - Max (f ` S)"
proof -
  have "Max (f ` S) \<in> f ` S" using assms by (intro Max_in) auto
  then obtain i where "i \<in> S" "f i = Max (f ` S)" by (metis imageE)
  then show ?thesis using assms by (intro Min_eqI) force+
qed

lemma recalibrate_offset:
  assumes "\<And>w. fst (sysfile w) = Some (current_time (time w))" and "\<And>w. fst (clock w) = time w - D"
  shows "fst (recalibrate sysfile clock (off, w)) = D - off - worst_delay sysfile clock time w"
proof -
  have k: "read_time sysfile v = (Some (Some (time v)), snd (sysfile v))" for v
    using assms(1) [of v] by (cases "sysfile v") (simp add: read_time_def scan_current_time)
  have n: "rtai_get_time off clock v = (time v - D + off, snd (clock v))" for v
    using assms(2) [of v] by (cases "clock v") (simp add: rtai_get_time_def)
  have s: "(\<lambda>w. snd (clock w)) \<circ> (\<lambda>w. snd (sysfile w)) = after_sample sysfile clock" by (auto simp: after_sample_def)
  have "fst (recalibrate sysfile clock (off, w)) =
      Min ((\<lambda>i. time ((after_sample sysfile clock ^^ i) w) - (time (snd (sysfile ((after_sample sysfile clock ^^ i) w))) - D + off)) ` {..<10})"
    using calibrate_Min [where kern = "read_time sysfile" and now = "rtai_get_time off clock", OF k n, of w]
    by (simp add: recalibrate_def s)
  also have "\<dots> = Min ((\<lambda>i. (D - off) - sample_delay sysfile time ((after_sample sysfile clock ^^ i) w)) ` {..<10})"
    by (simp add: sample_delay_def algebra_simps)
  also have "\<dots> = D - off - worst_delay sysfile clock time w"
    unfolding worst_delay_def by (rule Min_diff) (auto simp: lessThan_empty_iff)
  finally show ?thesis .
qed

lemma worst_delay_bounds:
  assumes "\<And>w. 0 \<le> sample_delay sysfile time w \<and> sample_delay sysfile time w \<le> d"
  shows "0 \<le> worst_delay sysfile clock time w" and "worst_delay sysfile clock time w \<le> d"
proof -
  let ?S = "(\<lambda>i. sample_delay sysfile time ((after_sample sysfile clock ^^ i) w)) ` {..<10}"
  have S: "finite ?S" "?S \<noteq> {}" by (auto simp: lessThan_empty_iff)
  have "Max ?S \<in> ?S" using S by (rule Max_in)
  then show "0 \<le> worst_delay sysfile clock time w" "worst_delay sysfile clock time w \<le> d"
    unfolding worst_delay_def using assms by (metis (no_types, lifting) imageE)+
qed

lemma worst_delay_is_largest:
  "(\<forall>i<10. sample_delay sysfile time ((after_sample sysfile clock ^^ i) w) \<le> worst_delay sysfile clock time w)
    \<and> (\<exists>i<10. worst_delay sysfile clock time w = sample_delay sysfile time ((after_sample sysfile clock ^^ i) w))"
proof -
  let ?S = "(\<lambda>i. sample_delay sysfile time ((after_sample sysfile clock ^^ i) w)) ` {..<10}"
  have S: "finite ?S" "?S \<noteq> {}" by (auto simp: lessThan_empty_iff)
  have "Max ?S \<in> ?S" using S by (rule Max_in)
  then show ?thesis unfolding worst_delay_def by auto
qed

text \<open>
  C28: Calibration keeps the worst of its samples. The clock of a calibrated process is behind the
  kernel's by the largest delay of the ten samples, where the best sample would have left the
  smallest: the code keeps the smallest difference, and a late sample makes the difference smaller.
\<close>

theorem calibration_error:
  assumes "\<And>w. fst (sysfile w) = Some (current_time (time w))" and "\<And>w. fst (clock w) = time w - D"
  shows "\<exists>d. (\<forall>v. fst (rtai_get_time (fst (recalibrate sysfile clock (0, w))) clock v) = time v - d)
    \<and> (\<forall>i<10. sample_delay sysfile time ((after_sample sysfile clock ^^ i) w) \<le> d)
    \<and> (\<exists>i<10. d = sample_delay sysfile time ((after_sample sysfile clock ^^ i) w))"
proof -
  have "fst (rtai_get_time (fst (recalibrate sysfile clock (0, w))) clock v) = time v - worst_delay sysfile clock time w" for v
    using assms(2) [of v] recalibrate_offset [where time = time and D = D and off = 0, OF assms, of w]
    by (simp add: rtai_get_time_def case_prod_beta)
  then have "\<forall>v. fst (rtai_get_time (fst (recalibrate sysfile clock (0, w))) clock v) = time v - worst_delay sysfile clock time w" ..
  note all = conjI [OF this worst_delay_is_largest [where sysfile = sysfile and time = time and clock = clock and w = w]]
  show ?thesis by (rule exI [of _ "worst_delay sysfile clock time w"], rule all)
qed

text \<open>
  C36: Setting up a second time loses the offset. \<^verbatim>\<open>urt_init\<close> calibrates before it finds that the library
  is set up already, and it calibrates against a time that has the offset in it. After the
  first call the time of the process is that of the kernel up to the delay \<open>d\<close> of a sample;
  after the second one, which fails with \<^verbatim>\<open>EALREADY\<close>, it is that of the bare clock, \<open>D\<close> away.
\<close>

theorem second_init_loses_offset:
  assumes "\<And>w. fst (sysfile w) = Some (current_time (time w))" and "\<And>w. fst (clock w) = time w - D"
    and "\<And>w. 0 \<le> sample_delay sysfile time w \<and> sample_delay sysfile time w \<le> d"
    and "rt_global_mem p = None" and "\<And>k. prepare k = (0, k)" and "\<not> sysfs_lock p" and "0 < gsem g"
    and "calibrated_init sysfile clock (rtai_urt_init rt prepare False 0 False si so) ((0, w), p, g) = Some (0, c1, s1)"
  shows "(\<forall>v. \<bar>fst (rtai_get_time (fst c1) clock v) - time v\<bar> \<le> d)
    \<and> (\<exists>c2. calibrated_init sysfile clock (rtai_urt_init rt prepare False 0 False si so) (c1, s1) = Some (EALREADY, c2, s1)
        \<and> (\<forall>v. \<bar>fst (rtai_get_time (fst c2) clock v) - (time v - D)\<bar> \<le> d))"
proof -
  have run: "rtai_urt_init rt prepare False 0 False si so (p, g) = Some (0, s1)" and c1: "c1 = recalibrate sysfile clock (0, w)"
    using assms(8) by (auto simp: calibrated_init_def Let_def split: bind_splits)
  obtain p1 g1 where s1: "s1 = (p1, g1)" by fastforce
  have "rt_global_mem p1 \<noteq> None" using rtai_init_sets_pointer [OF assms(4,5) refl assms(6,7) run] s1 by simp
  then have again: "rtai_urt_init rt prepare False 0 False si so s1 = Some (EALREADY, s1)"
    by (simp add: s1 rtai_urt_init_def assms(5))
  obtain o1 w1 where o: "c1 = (o1, w1)" by fastforce
  let ?d = "worst_delay sysfile clock time"
  have o1: "o1 = D - ?d w" using recalibrate_offset [where time = time and D = D and off = 0, OF assms(1,2), of w] c1 o by (metis diff_zero fst_conv)
  have o2: "fst (recalibrate sysfile clock c1) = D - o1 - ?d w1"
    using recalibrate_offset [where time = time and D = D and off = o1, OF assms(1,2), of w1] o by simp
  note b = worst_delay_bounds [where sysfile = sysfile and time = time and clock = clock, OF assms(3)]
  have get: "fst (rtai_get_time x clock v) = time v - D + x" for x v
    using assms(2) [of v] by (simp add: rtai_get_time_def case_prod_beta)
  have "calibrated_init sysfile clock (rtai_urt_init rt prepare False 0 False si so) (c1, s1) = Some (EALREADY, recalibrate sysfile clock c1, s1)"
    by (simp add: calibrated_init_def again)
  moreover have "\<bar>fst (rtai_get_time (fst (recalibrate sysfile clock c1)) clock v) - (time v - D)\<bar> \<le> d" for v
    using b [of w] b [of w1] unfolding get o2 o1 by linarith
  moreover have "\<bar>fst (rtai_get_time (fst c1) clock v) - time v\<bar> \<le> d" for v
    using b [of w] unfolding get o fst_conv o1 by linarith
  ultimately show ?thesis by blast
qed

section \<open>An example\<close>

text \<open>The world is the kernel's time; reading the file takes 3, the clock of the process is 1000 behind.\<close>

definition demo_file :: "int \<Rightarrow> string option \<times> int" where
  "demo_file t = (Some (current_time t), t + 3)"

definition demo_clock :: "int \<Rightarrow> int \<times> int" where
  "demo_clock t = (t - 1000, t + 1)"

theorem calibration_error_witness:
  "fst (rtai_get_time (fst (recalibrate demo_file demo_clock (0, 5))) demo_clock 70) = 67"
proof -
  have d: "sample_delay demo_file (\<lambda>t. t) v = 3" for v by (simp add: sample_delay_def demo_file_def)
  obtain e where e: "\<forall>v. fst (rtai_get_time (fst (recalibrate demo_file demo_clock (0, 5))) demo_clock v) = v - e"
    "\<exists>i<10. e = sample_delay demo_file (\<lambda>t. t) ((after_sample demo_file demo_clock ^^ i) 5)"
    using calibration_error [of demo_file "\<lambda>t. t" demo_clock 1000 5] by (auto simp: demo_file_def demo_clock_def)
  then show ?thesis by (auto simp: d)
qed

theorem second_init_loses_offset_witness:
  "\<exists>c1 s1 c2. calibrated_init demo_file demo_clock (rtai_urt_init demo_rtai (Pair 0) False 0 False 96 32) ((0, 5), demo_rt_proc, demo_rt_empty)
      = Some (0, c1, s1)
    \<and> calibrated_init demo_file demo_clock (rtai_urt_init demo_rtai (Pair 0) False 0 False 96 32) (c1, s1) = Some (EALREADY, c2, s1)
    \<and> \<bar>fst (rtai_get_time (fst c2) demo_clock 70) - (70 - 1000)\<bar> \<le> 3"
proof -
  have d: "0 \<le> sample_delay demo_file (\<lambda>t. t) v \<and> sample_delay demo_file (\<lambda>t. t) v \<le> 3" for v
    by (simp add: sample_delay_def demo_file_def)
  obtain mem os1 where get: "rtai_global_mem_get demo_rtai URT_GLOBAL_MEM_NAME 96 (gos demo_rt_empty) = (Inr mem, os1)"
    using demo_mem_get by blast
  obtain s1 where run: "rtai_urt_init demo_rtai (Pair 0) False 0 False 96 32 (demo_rt_proc, demo_rt_empty) = Some (0, s1)"
    using rtai_urt_init_run [of demo_rt_proc "Pair 0" demo_rt_empty False 0 demo_rtai 96 mem os1 32] get demo_found demo_rt_empty_ok
    by (simp add: demo_rt_proc_def)
  then have first: "calibrated_init demo_file demo_clock (rtai_urt_init demo_rtai (Pair 0) False 0 False 96 32) ((0, 5), demo_rt_proc, demo_rt_empty)
      = Some (0, recalibrate demo_file demo_clock (0, 5), s1)"
    by (simp add: calibrated_init_def)
  have p: "rt_global_mem demo_rt_proc = None" "\<not> sysfs_lock demo_rt_proc" by (simp_all add: demo_rt_proc_def)
  have f: "fst (demo_file v) = Some (current_time v)" "fst (demo_clock v) = v - 1000" for v
    by (simp_all add: demo_file_def demo_clock_def)
  from second_init_loses_offset [where time = "\<lambda>t. t" and d = 3, OF f d p(1) refl p(2) demo_rt_empty_ok(2) first] first
  show ?thesis by blast
qed

end
