(* ===== verification/Spec2Isabelle.thy ===== *)
theory Spec2Isabelle
  imports Urt_Free_Names Urt_Crash Urt_Session Urt_App Urt_Tools Urt_Task Shmem_Users Urt_Simulation Rtai_Kernel Rtai_Dump Rtai_Lock Rtai_Task Rtai_Setup Urt_Clock
begin

text \<open>
  URT, the Unified Real-Time Interface, is a C library that gives real-time applications one
  interface to shared memory, locks, tasks, time and program parameters on top of different
  systems. This development models the library and proves what its parts promise.

  \<^bold>\<open>The program.\<close> All processes of an application share a \<^emph>\<open>registry\<close> of named objects
  (\<^verbatim>\<open>src/registry.c\<close>), an array of reference counted slots in a segment of shared memory that a
  global semaphore guards. Creating or attaching to a shared object (\<^verbatim>\<open>src/new_common.c\<close>) reserves or
  counts a slot, lets the \<^emph>\<open>back-end\<close> make the object, and records the slot's index with the object;
  releasing it gives the slot back and lets the back-end clean up after the last user. There are
  two back-ends, POSIX (\<^verbatim>\<open>sys/posix\<close>) and RTAI (\<^verbatim>\<open>sys/rtai\<close>); RTAI applications run in the kernel and
  in user space. \<^verbatim>\<open>src/setup_common.c\<close> connects a process with the registry, \<^verbatim>\<open>src/param.c\<close> parses
  the arguments of user-space programs.

  \<^bold>\<open>The model.\<close> Structures are records, one field per member; \<^verbatim>\<open>unsigned int\<close> and \<^verbatim>\<open>size_t\<close> are words
  of 32 and 64 bits, so that sums wrap as in C; character buffers are lists read through \<open>c_at\<close>. An
  operation is a function from the state to its result and the next state; a NULL result with an
  error number is \<open>Inl e\<close>; an operation that waits forever is \<open>None\<close>. What is not in the sources
  is an argument: the blocking calls of the C library, the services of RTAI, clocks, the thread
  library, the memory allocator of \<^verbatim>\<open>urt_task_new\<close>. The POSIX calls on shared memory and named
  semaphores are modelled in \<open>Posix_Os\<close> after their documentation, each call being allowed to fail
  at any time with any error number (\<open>os_fault\<close>); properties hold for all such faults unless
  they say otherwise. Loops that end have termination proofs, loops that may run forever are
  \<open>partial_function (option)\<close> and come with lemmas that say exactly when they return; there is no
  fuel anywhere. The example instances use 2 slots; all lemmas hold for any number of slots.

  \<^bold>\<open>The theories\<close>, in the order of their dependencies:

  \<^item> \<open>Urt_Prelude\<close>: machine types, error numbers, C strings, the counted loop with \<^verbatim>\<open>break\<close>, conversions
    between widths, lemma collections.
  \<^item> \<open>Urt_Names\<close>: \<^verbatim>\<open>_name_eq\<close>, \<^verbatim>\<open>_name_cpy\<close>, \<^verbatim>\<open>_increment_name\<close> of \<^verbatim>\<open>src/registry.c\<close> and \<^verbatim>\<open>urt_convert_name\<close>
    of \<^verbatim>\<open>sys/posix/src/names.c\<close>. Names are compared by their first 6 characters; the translation
    to system names is faithful on upper-case names and conflates others; generated names
    count in base 37.
  \<^item> \<open>Urt_Registry\<close>: the registry. \<open>registry_inv\<close> is kept by every operation, \<open>name_table\<close> is the
    abstract view as a partial map, and each operation is described on every branch.
  \<^item> \<open>Urt_Free_Names\<close>: \<^verbatim>\<open>urt_get_free_name\<close>; it returns an unused name, and the first \<open>37 ^ 5\<close> differ.
  \<^item> \<open>Urt_Interleaving\<close>: the critical sections of the registry one access to the shared memory at a time, by
    any number of processes. Every interleaving is a sequence of the operations of \<open>Urt_Registry\<close> and
    \<open>Urt_Free_Names\<close>, in the order in which they leave, and every such sequence is an interleaving, so that
    the other theories may take an operation for one step; who is inside leaves by own steps.
  \<^item> \<open>Urt_Shared_Object\<close>: \<^verbatim>\<open>SHOBJ_NEW\<close> and \<^verbatim>\<open>SHOBJ_ATTACH\<close>. The locales \<open>shared_backend\<close> and
    \<open>clean_backend\<close> are the contract between registry and back-end; both back-ends interpret them.
  \<^item> \<open>Urt_Sharing\<close>: any number of processes that create, attach and release at the same time, one
    critical section of the registry per step. The count of a slot is the number of its users in
    every interleaving without an attachment to an unfinished object; what such an attachment
    destroys is a theorem of its own. \<open>new_is_sharing\<close> and \<open>attach_is_sharing\<close>, in the locale
    \<open>clean_backend\<close>, say that whole creations and attachments are sequences of these steps.
  \<^item> \<open>Posix_Os\<close>, \<open>Posix_Mem\<close>, \<open>Posix_Lock_Objects\<close>: the POSIX calls, \<^verbatim>\<open>sys/posix/src/mem.c\<close> with
    \<^verbatim>\<open>src/mem_common.c\<close>, and the half of \<^verbatim>\<open>sys/posix/src/lock.c\<close> that creates and destroys. Shown are
    the behaviour of creation under all faults, the life of shared objects with several users,
    the end of the destruction loops, and three error paths that damage objects of others.
  \<^item> \<open>Shmem_Users\<close>: the users of shared memories on POSIX as a system with the invariant that no
    handle dangles, across the registry and the back-end.
  \<^item> \<open>Posix_Lock\<close>: the requests of \<^verbatim>\<open>sys/posix/src/lock.c\<close> and \<^verbatim>\<open>src/lock_common.c\<close>. The locale
    \<open>stoppable_lock\<close> says when a request that can be stopped returns; five requests interpret it.
  \<^item> \<open>Urt_Param\<close>: \<^verbatim>\<open>src/param.c\<close> with \<^verbatim>\<open>strtol\<close> and \<^verbatim>\<open>strtoul\<close> written out. The locale
    \<open>integer_converter\<close> holds what the seven integer types share.
  \<^item> \<open>Urt_Task\<close>: tasks and time on POSIX, priorities on both back-ends (locale \<open>priorities\<close>).
  \<^item> \<open>Urt_Setup\<close>: \<^verbatim>\<open>urt_init\<close>, \<^verbatim>\<open>urt_exit\<close>, \<^verbatim>\<open>urt_recover\<close> with the POSIX back-end.
  \<^item> \<open>Urt_Session\<close>: set-up, the system of \<open>Shmem_Users\<close> and shut-down together; a session that releases what it
    took leaves no trace.
  \<^item> \<open>Urt_Crash\<close>: a process that dies inside a critical section stops all others; \<^verbatim>\<open>urt_recover\<close> restores the
    registry unless the process was copying a name, where a part of the name stays in use.
  \<^item> \<open>Urt_Tools\<close>: \<^verbatim>\<open>urt_print_names\<close>, \<^verbatim>\<open>urt_dump_memory\<close> and the command-line tools. A dump can be read
    back into the bytes of the object and disturbs nothing.
  \<^item> \<open>Rtai_Dump\<close>: the dump with the RTAI back-end, which disturbs nothing either.
  \<^item> \<open>Urt_App\<close>: the \<^verbatim>\<open>main\<close> functions and module entry points generated by \<^verbatim>\<open>include/urt_setup.h\<close>.
  \<^item> \<open>Rtai_Objects\<close>, \<open>Rtai_Lock\<close>: the RTAI back-end as built for user space; the locale
    \<open>rt_stoppable\<close> is the counterpart of \<open>stoppable_lock\<close>.
  \<^item> \<open>Rtai_Kernel\<close>: what only the kernel build of RTAI has: plain memory, private locks embedded in their
    handles, forced removal, which is tied to the registry here and ends in both builds.
  \<^item> \<open>Urt_Simulation\<close>: every creation, attachment and release of both back-ends is a run of the system
    of users of \<open>Urt_Sharing\<close>, so that what is shown of that system holds of programs that use them.
  \<^item> \<open>Rtai_Task\<close>: tasks and time on RTAI, in both spaces.
  \<^item> \<open>Rtai_Setup\<close>: the global semaphore shared by kernel and user space, \<^verbatim>\<open>urt_init\<close> and \<^verbatim>\<open>urt_exit\<close> with
    RTAI, and the kernel module of \<^verbatim>\<open>src/kern_main.c\<close>.
  \<^item> \<open>Urt_Clock\<close>: the time that the kernel publishes and the calibration of user space against it, which
    keeps the worst of its samples and is undone by a second \<^verbatim>\<open>urt_init\<close>.

  \<^bold>\<open>Interfaces.\<close> Registry and back-ends meet in \<open>shared_backend\<close> and \<open>clean_backend\<close>, interpreted for
  POSIX shared memory, semaphores and locks and for RTAI shared memory and locks; the properties
  of creation and release on both back-ends rest on their lemmas. Lock requests meet the C library
  or RTAI in \<open>stoppable_lock\<close> and \<open>rt_stoppable\<close>.

  \<^bold>\<open>What the theorems show of the code.\<close> The registry's operations are atomic and correct as sequences of
  critical sections: counts are numbers of users, names are registered as long as they have users, handles
  map the object of their name. Creation is two critical sections (reserve, then count) with the back-end's work in
  between, which other processes can see as a reserved name; an attachment in between frees the
  slot under the creator. The 32-bit count of users and the
  size of a shared memory are not protected against overflow; some error exits release what
  belongs to others; an interrupted wait in the kernel breaks the exclusion. Each of these is a
  theorem about the code as it is.

  \<^bold>\<open>Not modelled.\<close> Logging; the debug-build checks of the calling context, which only print; \<^verbatim>\<open>__MACH__\<close> variants; the
  macros of \<^verbatim>\<open>include/urt_defaults.h\<close>, which add NULL arguments; declarations and exports; the Python
  binding and the test programs. The theories on users and back-ends interleave processes at the granularity
  of critical sections, which \<open>Urt_Interleaving\<close> justifies for the registry; what the back-ends do
  outside of them (between the reservation and the count) is one step per call. Memory is sequentially
  consistent; the semaphore of \<open>Urt_Interleaving\<close> is the one of POSIX, whose wait is not interrupted.
\<close>

end
